theory Spec2Isabelle
  imports Complex_Main "HOL-Library.Word"
begin

section \<open>JavaScript strings\<close>

text \<open>
  A JavaScript string is a sequence of 16-bit UTF-16 code units; \<open>length\<close>, \<open>slice\<close>
  and the regular expressions of the sources all work on code units.  \<open>js\<close> embeds an
  ASCII literal.
\<close>

type_synonym codeunit = "16 word"
type_synonym jsstring = "codeunit list"

definition js :: "string \<Rightarrow> jsstring" where
  "js s = map of_char s"

definition is_digit :: "codeunit \<Rightarrow> bool" where
  "is_digit c = (0x30 \<le> c \<and> c \<le> 0x39)"

definition is_upper :: "codeunit \<Rightarrow> bool" where
  "is_upper c = (0x41 \<le> c \<and> c \<le> 0x5A)"

definition is_lower :: "codeunit \<Rightarrow> bool" where
  "is_lower c = (0x61 \<le> c \<and> c \<le> 0x7A)"

text \<open>
  \<open>String.prototype.trim\<close> removes WhiteSpace and LineTerminator code points from both
  ends (ECMA-262, 22.1.3.32): TAB, LF, VT, FF, CR, SP, NBSP, U+1680, U+2000..U+200A, U+2028,
  U+2029, U+202F, U+205F, U+3000 and U+FEFF.
\<close>

definition is_space :: "codeunit \<Rightarrow> bool" where
  "is_space c = ((0x09 \<le> c \<and> c \<le> 0x0D) \<or> c = 0x20 \<or> c = 0xA0 \<or> c = 0x1680
     \<or> (0x2000 \<le> c \<and> c \<le> 0x200A) \<or> c = 0x2028 \<or> c = 0x2029 \<or> c = 0x202F
     \<or> c = 0x205F \<or> c = 0x3000 \<or> c = 0xFEFF)"

definition trim :: "jsstring \<Rightarrow> jsstring" where
  "trim s = rev (dropWhile is_space (rev (dropWhile is_space s)))"

text \<open>
  \<open>s.slice(0, n)\<close> for an integral \<open>n\<close>: a negative end counts from the end of the
  string.
\<close>

definition slice0 :: "jsstring \<Rightarrow> int \<Rightarrow> jsstring" where
  "slice0 s n = (if n < 0 then take (nat (int (length s) + n)) s else take (nat n) s)"

text \<open>
  \<open>String.prototype.toUpperCase\<close> applies the Unicode full upper-case mapping to each
  code point, without looking at its context.  The sources only ever pass its result
  through the filter \<open>[^A-Z0-9$]\<close>, so the model lists exactly the code points whose
  mapping contains a code unit that filter keeps: the ASCII letters \<open>a\<close>..\<open>z\<close>, the
  dotless i (U+0131) and the long s (U+017F) of UnicodeData, and the expanding mappings of
  SpecialCasing (sharp s U+00DF to \<open>SS\<close>, U+0149, U+01F0, U+1E96..U+1E9A, and the
  ligatures U+FB00..U+FB06).  Every other code unit is mapped by the host to code units
  outside ASCII, which the filter deletes; the model leaves such a unit as it is.
\<close>

definition upper_unit :: "codeunit \<Rightarrow> jsstring" where
  "upper_unit c =
    (if is_lower c then [c - 0x20]
     else if c = 0xDF then js ''SS''
     else if c = 0x131 then js ''I''
     else if c = 0x17F then js ''S''
     else if c = 0x149 then [0x2BC, 0x4E]
     else if c = 0x1F0 then [0x4A, 0x30C]
     else if c = 0x1E96 then [0x48, 0x331]
     else if c = 0x1E97 then [0x54, 0x308]
     else if c = 0x1E98 then [0x57, 0x30A]
     else if c = 0x1E99 then [0x59, 0x30A]
     else if c = 0x1E9A then [0x41, 0x2BE]
     else if c = 0xFB00 then js ''FF''
     else if c = 0xFB01 then js ''FI''
     else if c = 0xFB02 then js ''FL''
     else if c = 0xFB03 then js ''FFI''
     else if c = 0xFB04 then js ''FFL''
     else if c = 0xFB05 then js ''ST''
     else if c = 0xFB06 then js ''ST''
     else [c])"

definition toUpperCase :: "jsstring \<Rightarrow> jsstring" where
  "toUpperCase s = concat (map upper_unit s)"


section \<open>JavaScript numbers\<close>

text \<open>
  A JavaScript number is an IEEE-754 binary64 value.  A finite one is modelled by the
  real number it denotes, and every arithmetic operation rounds its exact result to the
  nearest representable value, ties to even (\<open>fl\<close>), with gradual underflow and
  overflow to an infinity.  The sign of zero is not tracked: \<open>-0\<close> and \<open>+0\<close> compare
  equal, print alike in \<open>toFixed\<close> and differ only under division by zero, which the
  sources never perform.
\<close>

datatype number = Fin real | PInf | NInf | NaN

text \<open>\<open>ilog b x\<close> is the integer \<open>e\<close> with \<open>b ^ e \<le> x < b ^ (e + 1)\<close>, for \<open>0 < x\<close>.\<close>

function ilog_up :: "nat \<Rightarrow> real \<Rightarrow> int" where
  "ilog_up b x = (if b \<le> 1 \<or> x < real b then 0 else 1 + ilog_up b (x / real b))"
  by pat_completeness auto
termination
proof (relation "measure (\<lambda>(b, x). nat \<lfloor>x\<rfloor>)")
  show "wf (measure (\<lambda>(b, x). nat \<lfloor>x\<rfloor>))" by simp
next
  fix b :: nat and x :: real
  assume "\<not> (b \<le> 1 \<or> x < real b)"
  then have b2: "2 \<le> real b" and xb: "real b \<le> x" by auto
  have x2: "2 \<le> x" using b2 xb by linarith
  have n1: "1 \<le> \<lfloor>x\<rfloor>" using x2 by linarith
  have "x / real b \<le> x / 2"
    using b2 x2 by (intro divide_left_mono) auto
  also have "\<dots> < (of_int \<lfloor>x\<rfloor> + 1) / 2" by (simp add: divide_strict_right_mono)
  also have "\<dots> \<le> of_int \<lfloor>x\<rfloor>" using n1 by simp
  finally have "\<lfloor>x / real b\<rfloor> < \<lfloor>x\<rfloor>" by (simp add: floor_less_iff)
  with n1 show "((b, x / real b), (b, x)) \<in> measure (\<lambda>(b, x). nat \<lfloor>x\<rfloor>)"
    by simp
qed

function ilog_dn :: "nat \<Rightarrow> real \<Rightarrow> int" where
  "ilog_dn b x = (if b \<le> 1 \<or> x \<le> 0 \<or> 1 \<le> x then 0 else ilog_dn b (x * real b) - 1)"
  by pat_completeness auto
termination
proof (relation "measure (\<lambda>(b, x). nat \<lceil>1 / x\<rceil>)")
  show "wf (measure (\<lambda>(b, x). nat \<lceil>1 / x\<rceil>))" by simp
next
  fix b :: nat and x :: real
  assume "\<not> (b \<le> 1 \<or> x \<le> 0 \<or> 1 \<le> x)"
  then have b2: "2 \<le> real b" and x0: "0 < x" and x1: "x < 1" by auto
  define y where "y = 1 / x"
  have y1: "1 < y" using x0 x1 by (simp add: y_def)
  have n2: "2 \<le> \<lceil>y\<rceil>" using y1 by linarith
  have "1 / (x * real b) = y / real b" by (simp add: y_def)
  also have "\<dots> \<le> y / 2" using b2 y1 by (intro divide_left_mono) auto
  also have "\<dots> \<le> of_int \<lceil>y\<rceil> / 2" by (simp add: divide_right_mono)
  also have "\<dots> \<le> of_int (\<lceil>y\<rceil> - 1)" using n2 by simp
  finally have "\<lceil>1 / (x * real b)\<rceil> \<le> \<lceil>y\<rceil> - 1" by (rule ceiling_le)
  with n2 x0 show "((b, x * real b), (b, x)) \<in> measure (\<lambda>(b, x). nat \<lceil>1 / x\<rceil>)"
    by (simp add: y_def)
qed

definition ilog :: "nat \<Rightarrow> real \<Rightarrow> int" where
  "ilog b x = (if 1 \<le> x then ilog_up b x else ilog_dn b x)"

definition ipow :: "nat \<Rightarrow> int \<Rightarrow> real" where
  "ipow b e = (if 0 \<le> e then real b ^ nat e else 1 / real b ^ nat (- e))"

text \<open>Rounding to the nearest integer, ties to the even one.\<close>

definition rhe :: "real \<Rightarrow> int" where
  "rhe x = (if x - of_int \<lfloor>x\<rfloor> < 1 / 2 then \<lfloor>x\<rfloor>
            else if 1 / 2 < x - of_int \<lfloor>x\<rfloor> then \<lfloor>x\<rfloor> + 1
            else if even \<lfloor>x\<rfloor> then \<lfloor>x\<rfloor> else \<lfloor>x\<rfloor> + 1)"

text \<open>
  \<open>fl q\<close>: the binary64 value nearest to the real \<open>q\<close>.  With \<open>e\<close> the binary exponent
  of \<open>\<bar>q\<bar>\<close>, not below the smallest normal exponent \<open>-1022\<close>, the significand is
  \<open>\<bar>q\<bar> / 2 ^ (e - 52)\<close> rounded to an integer; a result of \<open>2 ^ 1024\<close> or more
  overflows.
\<close>

definition fl_pack :: "real \<Rightarrow> real \<Rightarrow> number" where
  "fl_pack q r = (if ipow 2 1024 \<le> r then (if 0 < q then PInf else NInf)
                  else Fin (if 0 < q then r else - r))"

definition fl_round :: "real \<Rightarrow> int \<Rightarrow> number" where
  "fl_round q e = fl_pack q (of_int (rhe (\<bar>q\<bar> / ipow 2 (e - 52))) * ipow 2 (e - 52))"

definition fl :: "real \<Rightarrow> number" where
  "fl q = (if q = 0 then Fin 0 else fl_round q (max (ilog 2 \<bar>q\<bar>) (- 1022)))"

subsection \<open>Arithmetic and comparison\<close>

fun fsub :: "number \<Rightarrow> number \<Rightarrow> number" where
  "fsub (Fin a) (Fin b) = fl (a - b)"
| "fsub NaN y = NaN"
| "fsub x NaN = NaN"
| "fsub PInf PInf = NaN"
| "fsub NInf NInf = NaN"
| "fsub PInf y = PInf"
| "fsub NInf y = NInf"
| "fsub x PInf = NInf"
| "fsub x NInf = PInf"

fun fmul :: "number \<Rightarrow> number \<Rightarrow> number" where
  "fmul (Fin a) (Fin b) = fl (a * b)"
| "fmul NaN y = NaN"
| "fmul x NaN = NaN"
| "fmul (Fin a) PInf = (if a = 0 then NaN else if 0 < a then PInf else NInf)"
| "fmul (Fin a) NInf = (if a = 0 then NaN else if 0 < a then NInf else PInf)"
| "fmul PInf (Fin b) = (if b = 0 then NaN else if 0 < b then PInf else NInf)"
| "fmul NInf (Fin b) = (if b = 0 then NaN else if 0 < b then NInf else PInf)"
| "fmul PInf PInf = PInf"
| "fmul NInf NInf = PInf"
| "fmul PInf NInf = NInf"
| "fmul NInf PInf = NInf"

text \<open>
  Division by a zero divisor is given for \<open>+0\<close>; the divisors of the sources are the
  entry price, which is positive where it is used, and non-zero literals.
\<close>

fun fdiv :: "number \<Rightarrow> number \<Rightarrow> number" where
  "fdiv (Fin a) (Fin b) =
     (if b = 0 then (if a = 0 then NaN else if 0 < a then PInf else NInf) else fl (a / b))"
| "fdiv NaN y = NaN"
| "fdiv x NaN = NaN"
| "fdiv (Fin a) y = Fin 0"
| "fdiv PInf (Fin b) = (if 0 \<le> b then PInf else NInf)"
| "fdiv NInf (Fin b) = (if 0 \<le> b then NInf else PInf)"
| "fdiv x y = NaN"

fun num_lt :: "number \<Rightarrow> number \<Rightarrow> bool" where
  "num_lt (Fin a) (Fin b) = (a < b)"
| "num_lt NaN y = False"
| "num_lt x NaN = False"
| "num_lt x NInf = False"
| "num_lt NInf y = True"
| "num_lt PInf y = False"
| "num_lt x PInf = True"

fun num_le :: "number \<Rightarrow> number \<Rightarrow> bool" where
  "num_le (Fin a) (Fin b) = (a \<le> b)"
| "num_le NaN y = False"
| "num_le x NaN = False"
| "num_le NInf y = True"
| "num_le x PInf = True"
| "num_le x NInf = False"
| "num_le PInf y = False"

definition num_ge :: "number \<Rightarrow> number \<Rightarrow> bool" where
  "num_ge x y = num_le y x"

fun isFinite :: "number \<Rightarrow> bool" where
  "isFinite (Fin a) = True"
| "isFinite x = False"

fun Math_abs :: "number \<Rightarrow> number" where
  "Math_abs (Fin a) = Fin \<bar>a\<bar>"
| "Math_abs NaN = NaN"
| "Math_abs x = PInf"

text \<open>
  \<open>Math.round\<close>: the nearest integer, a tie going towards \<open>+\<infinity>\<close>.  The result is
  representable: below \<open>2 ^ 52\<close> in magnitude it is an integer of at most 53 bits, and
  from there on every binary64 value is an integer already.
\<close>

fun Math_round :: "number \<Rightarrow> number" where
  "Math_round (Fin a) = Fin (of_int \<lfloor>a + 1 / 2\<rfloor>)"
| "Math_round x = x"


subsection \<open>Numbers as decimal strings\<close>

definition digit_char :: "nat \<Rightarrow> codeunit" where
  "digit_char d = 0x30 + of_nat d"

fun digits :: "nat \<Rightarrow> jsstring" where
  "digits n = (if n < 10 then [digit_char n] else digits (n div 10) @ [digit_char (n mod 10)])"

declare digits.simps [simp del]

definition strip_zeros :: "jsstring \<Rightarrow> jsstring" where
  "strip_zeros s = rev (dropWhile (\<lambda>c. c = 0x30) (rev s))"

definition exp_part :: "int \<Rightarrow> jsstring" where
  "exp_part e = js ''e'' @ (if 0 \<le> e then js ''+'' else js ''-'') @ digits (nat \<bar>e\<bar>)"

text \<open>
  \<open>Number::toString\<close> (ECMA-262, 6.1.6.1.20) prints the shortest decimal \<open>s \<times> 10 ^ (n - k)\<close>
  that rounds back to the number, the closest one if several of that length do.  For a
  digit count \<open>k\<close> the two multiples of \<open>10 ^ (n - k)\<close> around \<open>x\<close> are tried; seventeen
  digits always suffice for a binary64 value.
\<close>

definition pick :: "real \<Rightarrow> real \<Rightarrow> int \<Rightarrow> real option" where
  "pick x u s =
     (if fl (of_int s * u) = Fin x then
        (if fl (of_int (s + 1) * u) = Fin x then
           (if x - of_int s * u < of_int (s + 1) * u - x then Some (of_int s * u)
            else if of_int (s + 1) * u - x < x - of_int s * u then Some (of_int (s + 1) * u)
            else if even s then Some (of_int s * u) else Some (of_int (s + 1) * u))
         else Some (of_int s * u))
      else if fl (of_int (s + 1) * u) = Fin x then Some (of_int (s + 1) * u) else None)"

definition pick_k :: "real \<Rightarrow> int \<Rightarrow> nat \<Rightarrow> real option" where
  "pick_k x n k = pick x (ipow 10 (n - int k)) \<lfloor>x / ipow 10 (n - int k)\<rfloor>"

fun shortest_k :: "real \<Rightarrow> int \<Rightarrow> nat list \<Rightarrow> real" where
  "shortest_k x n [] = x"
| "shortest_k x n (k # ks) = (case pick_k x n k of Some c \<Rightarrow> c | None \<Rightarrow> shortest_k x n ks)"

definition shortest :: "real \<Rightarrow> real" where
  "shortest x = shortest_k x (ilog 10 x + 1) [1, 2, 3, 4, 5, 6, 7, 8, 9, 10, 11, 12, 13, 14, 15, 16, 17]"

definition sig_digits :: "real \<Rightarrow> int \<Rightarrow> jsstring" where
  "sig_digits c n = strip_zeros (digits (nat \<lfloor>c / ipow 10 (n - 17)\<rfloor>))"

definition render_sci :: "jsstring \<Rightarrow> int \<Rightarrow> jsstring" where
  "render_sci ds e =
     (if length ds = 1 then ds else take 1 ds @ js ''.'' @ drop 1 ds) @ exp_part e"

definition render_num :: "jsstring \<Rightarrow> int \<Rightarrow> jsstring" where
  "render_num ds n =
    (if int (length ds) \<le> n \<and> n \<le> 21 then ds @ replicate (nat (n - int (length ds))) 0x30
     else if 0 < n \<and> n \<le> 21 then take (nat n) ds @ js ''.'' @ drop (nat n) ds
     else if - 6 < n \<and> n \<le> 0 then js ''0.'' @ replicate (nat (- n)) 0x30 @ ds
     else render_sci ds (n - 1))"

definition render_at :: "real \<Rightarrow> int \<Rightarrow> jsstring" where
  "render_at c n = render_num (sig_digits c n) n"

definition render_val :: "real \<Rightarrow> jsstring" where
  "render_val c = render_at c (ilog 10 c + 1)"

definition toString_pos :: "real \<Rightarrow> jsstring" where
  "toString_pos x = render_val (shortest x)"

fun numToString :: "number \<Rightarrow> jsstring" where
  "numToString (Fin x) =
     (if x = 0 then js ''0'' else if x < 0 then js ''-'' @ toString_pos (- x) else toString_pos x)"
| "numToString PInf = js ''Infinity''"
| "numToString NInf = js ''-Infinity''"
| "numToString NaN = js ''NaN''"

text \<open>
  \<open>Number.prototype.toFixed\<close> (ECMA-262, 21.1.3.3): the integer \<open>n\<close> nearest to
  \<open>x \<times> 10 ^ f\<close>, the larger one on a tie, printed with \<open>f\<close> digits after the point; the
  sign is that of \<open>x\<close> even when \<open>n\<close> is zero; from \<open>10 ^ 21\<close> on, and for a number that
  is not finite, the result is \<open>ToString\<close> of the number.
\<close>

definition pad_fixed :: "jsstring \<Rightarrow> nat \<Rightarrow> jsstring" where
  "pad_fixed m f = (if length m \<le> f then replicate (f + 1 - length m) 0x30 @ m else m)"

definition point_fixed :: "jsstring \<Rightarrow> nat \<Rightarrow> jsstring" where
  "point_fixed m f = take (length m - f) m @ js ''.'' @ drop (length m - f) m"

definition fixed_digits :: "nat \<Rightarrow> nat \<Rightarrow> jsstring" where
  "fixed_digits n f = (if f = 0 then digits n else point_fixed (pad_fixed (digits n) f) f)"

definition fixed_abs :: "real \<Rightarrow> nat \<Rightarrow> jsstring" where
  "fixed_abs x f =
     (if 10 ^ 21 \<le> x then toString_pos x else fixed_digits (nat \<lfloor>x * 10 ^ f + 1 / 2\<rfloor>) f)"

fun toFixed :: "number \<Rightarrow> nat \<Rightarrow> jsstring" where
  "toFixed (Fin x) f = (if x < 0 then js ''-'' @ fixed_abs (- x) f else fixed_abs x f)"
| "toFixed x f = numToString x"

text \<open>
  \<open>Number.prototype.toExponential\<close> (ECMA-262, 21.1.3.2): \<open>f + 1\<close> significant digits, the
  larger value on a tie.
\<close>

definition exp_render :: "nat \<Rightarrow> nat \<Rightarrow> int \<Rightarrow> jsstring" where
  "exp_render n f e =
     (if f = 0 then digits n else take 1 (digits n) @ js ''.'' @ drop 1 (digits n)) @ exp_part e"

definition exp_norm :: "nat \<Rightarrow> nat \<Rightarrow> int \<Rightarrow> jsstring" where
  "exp_norm n f e = (if n = 10 ^ (f + 1) then exp_render (10 ^ f) f (e + 1) else exp_render n f e)"

definition exp_at :: "real \<Rightarrow> nat \<Rightarrow> int \<Rightarrow> jsstring" where
  "exp_at x f e = exp_norm (nat \<lfloor>x / ipow 10 (e - int f) + 1 / 2\<rfloor>) f e"

definition exp_abs :: "real \<Rightarrow> nat \<Rightarrow> jsstring" where
  "exp_abs x f =
     (if x = 0 then (if f = 0 then js ''0'' else js ''0.'' @ replicate f 0x30) @ exp_part 0
      else exp_at x f (ilog 10 x))"

fun toExponential :: "number \<Rightarrow> nat \<Rightarrow> jsstring" where
  "toExponential (Fin x) f = (if x < 0 then js ''-'' @ exp_abs (- x) f else exp_abs x f)"
| "toExponential x f = numToString x"

text \<open>
  \<open>Number.prototype.toLocaleString\<close> formats with the host's default locale, which is
  not set anywhere in the repository, its \<open>Dockerfile\<close> included; Node's default,
  \<open>en-US\<close>, is taken: groups of three
  digits separated by commas, a decimal point, and at most \<open>mf\<close> fraction digits
  (\<open>maximumFractionDigits\<close>, 3 when no option is given) without trailing zeros.  The
  host's formatter (ICU) starts from the shortest decimal that reads back as the number,
  the digits of \<open>Number::toString\<close>, and rounds that decimal half away from zero: the
  number \<open>1000.005\<close>, whose binary64 value lies below \<open>1000.005\<close>, is printed
  \<open>1,000.01\<close> with two fraction digits.
\<close>

fun group3 :: "jsstring \<Rightarrow> jsstring" where
  "group3 ds = (if length ds \<le> 3 then ds
                else group3 (take (length ds - 3) ds) @ js '','' @ drop (length ds - 3) ds)"

declare group3.simps [simp del]

definition frac_part :: "nat \<Rightarrow> nat \<Rightarrow> jsstring" where
  "frac_part r mf = strip_zeros (replicate (mf - length (digits r)) 0x30 @ digits r)"

definition locale_digits :: "nat \<Rightarrow> nat \<Rightarrow> jsstring" where
  "locale_digits n mf =
     group3 (digits (n div 10 ^ mf)) @
     (if n mod 10 ^ mf = 0 then [] else js ''.'' @ frac_part (n mod 10 ^ mf) mf)"

definition locale_abs :: "real \<Rightarrow> nat \<Rightarrow> jsstring" where
  "locale_abs x mf =
     (if x = 0 then js ''0'' else locale_digits (nat \<lfloor>shortest x * 10 ^ mf + 1 / 2\<rfloor>) mf)"

fun toLocaleString :: "number \<Rightarrow> nat \<Rightarrow> jsstring" where
  "toLocaleString (Fin x) mf = (if x < 0 then js ''-'' else []) @ locale_abs \<bar>x\<bar> mf"
| "toLocaleString PInf mf = [0x221E]"
| "toLocaleString NInf mf = js ''-'' @ [0x221E]"
| "toLocaleString NaN mf = js ''NaN''"


section \<open>JavaScript values\<close>

text \<open>
  The request body is what \<open>JSON.parse\<close> delivers, or nothing at all.  An object is the
  list of its own properties, each key once.
\<close>

datatype jsval =
    Undefined
  | Null
  | JBool bool
  | JNum number
  | JStr jsstring
  | JArr "jsval list"
  | JObj "(jsstring \<times> jsval) list"

datatype jstype = TUndefined | TObject | TBoolean | TNumber | TString

fun typeof :: "jsval \<Rightarrow> jstype" where
  "typeof Undefined = TUndefined"
| "typeof Null = TObject"
| "typeof (JBool b) = TBoolean"
| "typeof (JNum x) = TNumber"
| "typeof (JStr s) = TString"
| "typeof (JArr vs) = TObject"
| "typeof (JObj kvs) = TObject"

fun truthy :: "jsval \<Rightarrow> bool" where
  "truthy Undefined = False"
| "truthy Null = False"
| "truthy (JBool b) = b"
| "truthy (JNum x) = (x \<noteq> NaN \<and> x \<noteq> Fin 0)"
| "truthy (JStr s) = (s \<noteq> [])"
| "truthy (JArr vs) = True"
| "truthy (JObj kvs) = True"

text \<open>\<open>v == null\<close>.\<close>

fun nullish :: "jsval \<Rightarrow> bool" where
  "nullish Undefined = True"
| "nullish Null = True"
| "nullish v = False"

text \<open>
  \<open>v.k\<close> for one of the six field names or \<open>body\<close>, on a value that is neither
  \<open>undefined\<close> nor \<open>null\<close>: only an object has such a property.
\<close>

fun get_prop :: "jsval \<Rightarrow> string \<Rightarrow> jsval" where
  "get_prop (JObj kvs) k = (case map_of kvs (js k) of Some v \<Rightarrow> v | None \<Rightarrow> Undefined)"
| "get_prop v k = Undefined"

text \<open>The string or number inside a value whose \<open>typeof\<close> has been tested.\<close>

fun the_str :: "jsval \<Rightarrow> jsstring" where
  "the_str (JStr s) = s"
| "the_str v = []"

fun the_num :: "jsval \<Rightarrow> number" where
  "the_num (JNum x) = x"
| "the_num v = NaN"


section \<open>\<open>src/utils/errorHandler.ts\<close>: the sanitizers\<close>

text \<open>The character class of \<open>sanitizeString\<close>: the code units \<open>0x00\<close> to \<open>0x1F\<close>,
  \<open>0x7F\<close>, and the two angle brackets.\<close>

definition is_unsafe :: "codeunit \<Rightarrow> bool" where
  "is_unsafe c = (c \<le> 0x1F \<or> c = 0x7F \<or> c = 0x3C \<or> c = 0x3E)"

text \<open>The character class \<open>[A-Z0-9$]\<close>.\<close>

definition is_ticker_char :: "codeunit \<Rightarrow> bool" where
  "is_ticker_char c = (is_upper c \<or> is_digit c \<or> c = 0x24)"

fun sanitizeString :: "jsval \<Rightarrow> int \<Rightarrow> jsstring" where
  "sanitizeString (JStr input) maxLength =
     slice0 (trim (filter (\<lambda>c. \<not> is_unsafe c) input)) maxLength"
| "sanitizeString v maxLength = []"

fun sanitizeTicker :: "jsval \<Rightarrow> jsstring" where
  "sanitizeTicker (JStr ticker) = slice0 (filter is_ticker_char (toUpperCase ticker)) 20"
| "sanitizeTicker v = []"


section \<open>\<open>src/utils/pnlCalculator.ts\<close>\<close>

record PnLResult =
  percentageGain :: number
  isProfit :: bool
  formattedGain :: jsstring

datatype PnLError = PnLError (message: jsstring)

definition roundPrecision :: "number \<Rightarrow> number" where
  "roundPrecision v =
     (if num_ge (Math_abs v) (Fin 1000) then Math_round v
      else if num_ge (Math_abs v) (Fin 1) then fdiv (Math_round (fmul v (Fin 100))) (Fin 100)
      else fdiv (Math_round (fmul v (Fin 10000))) (Fin 10000))"

definition pct_prefix :: "number \<Rightarrow> jsstring" where
  "pct_prefix pct = (if num_ge pct (Fin 0) then js ''+'' else [])"

definition formatPct :: "number \<Rightarrow> jsstring" where
  "formatPct pct =
     (if num_ge (Math_abs pct) (Fin 1000000)
        then pct_prefix pct @ toFixed (fdiv pct (Fin 1000000)) 1 @ js ''M%''
      else if num_ge (Math_abs pct) (Fin 10000)
        then pct_prefix pct @ toFixed (fdiv pct (Fin 1000)) 1 @ js ''K%''
      else if num_ge (Math_abs pct) (Fin 1000)
        then pct_prefix pct @ toLocaleString (Math_round pct) 3 @ js ''%''
      else if num_ge (Math_abs pct) (Fin 10) then pct_prefix pct @ toFixed pct 1 @ js ''%''
      else if num_ge (Math_abs pct) (Fin 1) then pct_prefix pct @ toFixed pct 2 @ js ''%''
      else pct_prefix pct @ toFixed pct 4 @ js ''%'')"

text \<open>\<open>const pct = ((currentPrice - entryPrice) / entryPrice) * 100\<close>.\<close>

definition raw_pct :: "number \<Rightarrow> number \<Rightarrow> number" where
  "raw_pct entryPrice currentPrice =
     fmul (fdiv (fsub currentPrice entryPrice) entryPrice) (Fin 100)"

definition pnl_of :: "number \<Rightarrow> PnLResult" where
  "pnl_of pct =
     \<lparr>percentageGain = roundPrecision pct, isProfit = num_ge pct (Fin 0),
      formattedGain = formatPct pct\<rparr>"

definition calculatePnL :: "number \<Rightarrow> number \<Rightarrow> PnLError + PnLResult" where
  "calculatePnL entryPrice currentPrice =
     (if num_le entryPrice (Fin 0) then Inl (PnLError (js ''Entry price must be > 0''))
      else if num_lt currentPrice (Fin 0)
        then Inl (PnLError (js ''Current price cannot be negative''))
      else Inr (pnl_of (raw_pct entryPrice currentPrice)))"

text \<open>
  The match of \<open>formatTokenPrice\<close>'s regular expression (a zero, a point, the group
  \<open>(0*)\<close>, and the group of one digit of \<open>[1-9]\<close> with up to three further digits): the
  leftmost \<open>0.\<close> that is followed by a run of zeros and then a non-zero digit; the groups
  are the run of zeros, and that digit with up to three further digits.  Giving back zeros of the greedy \<open>0*\<close> cannot help, as the
  character after a shorter run is a zero.
\<close>

definition is_zero_char :: "codeunit \<Rightarrow> bool" where
  "is_zero_char c = (c = 0x30)"

definition is_nonzero_digit :: "codeunit \<Rightarrow> bool" where
  "is_nonzero_digit c = (0x31 \<le> c \<and> c \<le> 0x39)"

fun match_digits :: "jsstring \<Rightarrow> jsstring \<Rightarrow> (jsstring \<times> jsstring) option" where
  "match_digits zs [] = None"
| "match_digits zs (d # r) =
     (if is_nonzero_digit d then Some (zs, d # takeWhile is_digit (take 3 r)) else None)"

fun match_here :: "jsstring \<Rightarrow> (jsstring \<times> jsstring) option" where
  "match_here (a # b # r) =
     (if a = 0x30 \<and> b = 0x2E
      then match_digits (takeWhile is_zero_char r) (dropWhile is_zero_char r) else None)"
| "match_here s = None"

fun match_zero_run :: "jsstring \<Rightarrow> (jsstring \<times> jsstring) option" where
  "match_zero_run [] = None"
| "match_zero_run (c # s) =
     (case match_here (c # s) of Some m \<Rightarrow> Some m | None \<Rightarrow> match_zero_run s)"

text \<open>The tiers after the meme-coin format; the literals \<open>0.01\<close> and \<open>0.00001\<close> are
  the binary64 values nearest to them.\<close>

definition price_tiers :: "number \<Rightarrow> jsstring" where
  "price_tiers price =
     (if num_ge price (Fin 1000000) then js ''$'' @ toFixed (fdiv price (Fin 1000000)) 2 @ js ''M''
      else if num_ge price (Fin 1000) then js ''$'' @ toLocaleString price 2
      else if num_ge price (Fin 1) then js ''$'' @ toFixed price 2
      else if num_ge price (fl (1 / 100)) then js ''$'' @ toFixed price 4
      else if num_ge price (fl (1 / 100000)) then js ''$'' @ toFixed price 6
      else js ''$'' @ toExponential price 2)"

definition meme_format :: "number \<Rightarrow> jsstring" where
  "meme_format price =
     (case match_zero_run (toFixed price 20) of
        Some (zs, ds) \<Rightarrow> js ''$0.0{'' @ digits (length zs) @ js ''}'' @ ds
      | None \<Rightarrow> price_tiers price)"

definition formatTokenPrice :: "number \<Rightarrow> jsstring" where
  "formatTokenPrice price =
     (if num_le price (Fin 0) then js ''$0''
      else if num_lt price (fl (1 / 100000)) then meme_format price
      else price_tiers price)"


section \<open>\<open>src/routes/cardRoutes.ts\<close>\<close>

definition THEMES :: "jsstring list" where
  "THEMES = [js ''dark'', js ''light'', js ''degen'']"

definition MAX_PRICE :: number where
  "MAX_PRICE = fl (10 ^ 15)"

definition MIN_PRICE :: number where
  "MIN_PRICE = fl (1 / 10 ^ 20)"

text \<open>The fields are typed in the source, but hold whatever the request body held.\<close>

record CardRequest =
  ticker :: jsval
  entry_price :: jsval
  current_price :: jsval
  theme :: jsval
  wallet_tag :: jsval
  timestamp :: jsval

text \<open>
  \<open>extractBody\<close> unwraps one level of \<open>body\<close> when that is an object or an array.
  Reading a field of \<open>undefined\<close> or \<open>null\<close> throws a TypeError: the result \<open>None\<close>.
\<close>

definition unwrap :: "jsval \<Rightarrow> jsval" where
  "unwrap body =
     (if \<not> nullish body \<and> truthy (get_prop body ''body'') \<and> typeof (get_prop body ''body'') = TObject
      then get_prop body ''body'' else body)"

definition fields_of :: "jsval \<Rightarrow> CardRequest option" where
  "fields_of d =
     (if nullish d then None
      else Some \<lparr>ticker = get_prop d ''ticker'', entry_price = get_prop d ''entry_price'',
                 current_price = get_prop d ''current_price'', theme = get_prop d ''theme'',
                 wallet_tag = get_prop d ''wallet_tag'', timestamp = get_prop d ''timestamp''\<rparr>)"

definition extractBody :: "jsval \<Rightarrow> CardRequest option" where
  "extractBody body = fields_of (unwrap body)"

text \<open>\<open>THEMES.includes(v)\<close>: only a string can equal one of the three names.\<close>

fun includes_theme :: "jsval \<Rightarrow> bool" where
  "includes_theme (JStr s) = (s \<in> set THEMES)"
| "includes_theme v = False"

text \<open>
  \<open>validate\<close> pushes onto the array \<open>e\<close> in six statements, one per field; each of the
  functions below is one statement, taking \<open>e\<close> and giving it back.
\<close>

definition check_ticker :: "CardRequest \<Rightarrow> jsstring list \<Rightarrow> jsstring list" where
  "check_ticker b e =
     (if \<not> truthy (ticker b) \<or> typeof (ticker b) \<noteq> TString
         \<or> \<not> truthy (JStr (trim (the_str (ticker b))))
        then e @ [js ''ticker is required'']
      else if 20 < length (the_str (ticker b))
        then e @ [js ''ticker must be 20 characters or less'']
      else e)"

definition check_entry_price :: "CardRequest \<Rightarrow> jsstring list \<Rightarrow> jsstring list" where
  "check_entry_price b e =
     (if nullish (entry_price b) then e @ [js ''entry_price is required'']
      else if typeof (entry_price b) \<noteq> TNumber \<or> \<not> isFinite (the_num (entry_price b))
        then e @ [js ''entry_price must be a valid number'']
      else if num_le (the_num (entry_price b)) (Fin 0)
        then e @ [js ''entry_price must be greater than zero'']
      else if num_lt (the_num (entry_price b)) MIN_PRICE
              \<or> num_lt MAX_PRICE (the_num (entry_price b))
        then e @ [js ''entry_price out of range'']
      else e)"

definition check_current_price :: "CardRequest \<Rightarrow> jsstring list \<Rightarrow> jsstring list" where
  "check_current_price b e =
     (if nullish (current_price b) then e @ [js ''current_price is required'']
      else if typeof (current_price b) \<noteq> TNumber \<or> \<not> isFinite (the_num (current_price b))
        then e @ [js ''current_price must be a valid number'']
      else if num_lt (the_num (current_price b)) (Fin 0)
        then e @ [js ''current_price cannot be negative'']
      else if num_lt MAX_PRICE (the_num (current_price b))
        then e @ [js ''current_price out of range'']
      else e)"

definition check_theme :: "CardRequest \<Rightarrow> jsstring list \<Rightarrow> jsstring list" where
  "check_theme b e =
     (if \<not> nullish (theme b) \<and> \<not> includes_theme (theme b)
      then e @ [js ''theme must be: dark, light, degen''] else e)"

definition check_wallet_tag :: "CardRequest \<Rightarrow> jsstring list \<Rightarrow> jsstring list" where
  "check_wallet_tag b e =
     (if \<not> nullish (wallet_tag b)
         \<and> (typeof (wallet_tag b) \<noteq> TString \<or> 50 < length (the_str (wallet_tag b)))
      then e @ [js ''wallet_tag invalid''] else e)"

definition check_timestamp :: "CardRequest \<Rightarrow> jsstring list \<Rightarrow> jsstring list" where
  "check_timestamp b e =
     (if \<not> nullish (timestamp b)
         \<and> (typeof (timestamp b) \<noteq> TString \<or> 100 < length (the_str (timestamp b)))
      then e @ [js ''timestamp invalid''] else e)"

definition validate :: "CardRequest \<Rightarrow> jsstring list" where
  "validate b =
     check_timestamp b (check_wallet_tag b (check_theme b
       (check_current_price b (check_entry_price b (check_ticker b [])))))"

text \<open>
  The handler of \<open>POST /generate-card\<close>.  \<open>CardData\<close> is the record of
  \<open>src/services/cardRenderer.ts\<close>; its \<open>timestamp\<close> is \<open>cardTimestamp\<close> here, the name
  being taken by the request.  The renderer draws on a canvas of the host and is a
  parameter, \<open>None\<close> when it throws; so is the formatted current date \<open>now\<close>.
\<close>

record CardData =
  tokenSymbol :: jsstring
  entryPrice :: number
  currentPrice :: number
  pnl :: PnLResult
  walletTag :: "jsstring option"
  cardTimestamp :: jsstring

record Metadata =
  meta_ticker :: jsstring
  gain_percentage :: number
  formatted_gain :: jsstring
  is_profit :: bool
  meta_theme :: jsstring

text \<open>
  The four kinds of response: status 400 with the list of validation errors, status 400
  with the message of \<open>calculatePnL\<close>, status 500, and success with the image and the
  metadata object.
\<close>

datatype 'm response =
    ValidationFailed "jsstring list"
  | BadRequest jsstring
  | ServerError
  | Success jsstring 'm

definition theme_of :: "CardRequest \<Rightarrow> jsstring" where
  "theme_of body = (if truthy (theme body) then the_str (theme body) else js ''dark'')"

definition cardData_of :: "jsstring \<Rightarrow> CardRequest \<Rightarrow> PnLResult \<Rightarrow> CardData" where
  "cardData_of now body p =
     \<lparr>tokenSymbol = sanitizeTicker (ticker body),
      entryPrice = the_num (entry_price body),
      currentPrice = the_num (current_price body),
      pnl = p,
      walletTag = (if truthy (wallet_tag body) then Some (sanitizeString (wallet_tag body) 50)
                   else None),
      cardTimestamp = (if truthy (timestamp body) then sanitizeString (timestamp body) 100
                       else now)\<rparr>"

definition respond ::
  "(CardData \<Rightarrow> jsstring \<Rightarrow> jsstring option) \<Rightarrow> CardData \<Rightarrow> jsstring \<Rightarrow> Metadata response" where
  "respond renderCard cardData th =
     (case renderCard cardData th of
        None \<Rightarrow> ServerError
      | Some png \<Rightarrow>
          Success png
            \<lparr>meta_ticker = tokenSymbol cardData,
             gain_percentage = percentageGain (pnl cardData),
             formatted_gain = formattedGain (pnl cardData),
             is_profit = isProfit (pnl cardData), meta_theme = th\<rparr>)"

definition handle ::
  "(CardData \<Rightarrow> jsstring \<Rightarrow> jsstring option) \<Rightarrow> jsstring \<Rightarrow> CardRequest \<Rightarrow> Metadata response" where
  "handle renderCard now body =
     (if validate body \<noteq> [] then ValidationFailed (validate body)
      else case calculatePnL (the_num (entry_price body)) (the_num (current_price body)) of
             Inl err \<Rightarrow> BadRequest (message err)
           | Inr p \<Rightarrow> respond renderCard (cardData_of now body p) (theme_of body))"

definition post_generate_card ::
  "(CardData \<Rightarrow> jsstring \<Rightarrow> jsstring option) \<Rightarrow> jsstring \<Rightarrow> jsval \<Rightarrow> Metadata response" where
  "post_generate_card renderCard now reqBody =
     (case extractBody reqBody of
        None \<Rightarrow> ServerError
      | Some body \<Rightarrow> handle renderCard now body)"


section \<open>The second revision of the router\<close>

text \<open>
  The repository holds a second revision of \<open>cardRoutes.ts\<close> (\<open>unnamed/part_003\<close> in
  the source tree), the one that \<open>tests/api.test.ts\<close> runs against: its messages are the
  ones that test expects.  It
  differs from the first in \<open>extractBody\<close>, which reads the fields with \<open>?.\<close> and so never
  throws; in \<open>validate\<close>, which has its own messages, rejects a ticker that
  \<open>sanitizeTicker\<close> empties, has no limit of 20 on the ticker, and tests the three
  optional fields for truthiness; and in the handler, which passes a given timestamp on
  unsanitized and names the metadata differently.  Its functions carry the source's
  names with a \<open>2\<close>.
\<close>

definition extractBody2 :: "jsval \<Rightarrow> CardRequest" where
  "extractBody2 body =
     \<lparr>ticker = get_prop (unwrap body) ''ticker'',
      entry_price = get_prop (unwrap body) ''entry_price'',
      current_price = get_prop (unwrap body) ''current_price'',
      theme = get_prop (unwrap body) ''theme'',
      wallet_tag = get_prop (unwrap body) ''wallet_tag'',
      timestamp = get_prop (unwrap body) ''timestamp''\<rparr>"

definition check_ticker2 :: "CardRequest \<Rightarrow> jsstring list \<Rightarrow> jsstring list" where
  "check_ticker2 b e =
     (if \<not> truthy (ticker b) \<or> typeof (ticker b) \<noteq> TString
         \<or> \<not> truthy (JStr (trim (the_str (ticker b))))
        then e @ [js ''ticker required'']
      else if \<not> truthy (JStr (sanitizeTicker (ticker b)))
        then e @ [js ''ticker must contain A-Z, 0-9, or $'']
      else e)"

definition check_entry_price2 :: "CardRequest \<Rightarrow> jsstring list \<Rightarrow> jsstring list" where
  "check_entry_price2 b e =
     (if nullish (entry_price b) then e @ [js ''entry_price required'']
      else if typeof (entry_price b) \<noteq> TNumber \<or> \<not> isFinite (the_num (entry_price b))
        then e @ [js ''entry_price must be number'']
      else if num_le (the_num (entry_price b)) (Fin 0)
        then e @ [js ''entry_price must be > 0'']
      else if num_lt (the_num (entry_price b)) MIN_PRICE
              \<or> num_lt MAX_PRICE (the_num (entry_price b))
        then e @ [js ''entry_price out of range'']
      else e)"

definition check_current_price2 :: "CardRequest \<Rightarrow> jsstring list \<Rightarrow> jsstring list" where
  "check_current_price2 b e =
     (if nullish (current_price b) then e @ [js ''current_price required'']
      else if typeof (current_price b) \<noteq> TNumber \<or> \<not> isFinite (the_num (current_price b))
        then e @ [js ''current_price must be number'']
      else if num_lt (the_num (current_price b)) (Fin 0)
        then e @ [js ''current_price cannot be negative'']
      else if num_lt MAX_PRICE (the_num (current_price b))
        then e @ [js ''current_price out of range'']
      else e)"

definition check_theme2 :: "CardRequest \<Rightarrow> jsstring list \<Rightarrow> jsstring list" where
  "check_theme2 b e =
     (if truthy (theme b) \<and> \<not> includes_theme (theme b)
      then e @ [js ''theme must be: dark, light, degen''] else e)"

definition check_wallet_tag2 :: "CardRequest \<Rightarrow> jsstring list \<Rightarrow> jsstring list" where
  "check_wallet_tag2 b e =
     (if truthy (wallet_tag b)
         \<and> (typeof (wallet_tag b) \<noteq> TString \<or> 50 < length (the_str (wallet_tag b)))
      then e @ [js ''wallet_tag invalid''] else e)"

definition check_timestamp2 :: "CardRequest \<Rightarrow> jsstring list \<Rightarrow> jsstring list" where
  "check_timestamp2 b e =
     (if truthy (timestamp b)
         \<and> (typeof (timestamp b) \<noteq> TString \<or> 100 < length (the_str (timestamp b)))
      then e @ [js ''timestamp invalid''] else e)"

definition validate2 :: "CardRequest \<Rightarrow> jsstring list" where
  "validate2 b =
     check_timestamp2 b (check_wallet_tag2 b (check_theme2 b
       (check_current_price2 b (check_entry_price2 b (check_ticker2 b [])))))"

record Metadata2 =
  ticker2 :: jsstring
  gain :: number
  formatted :: jsstring
  profit :: bool
  theme2 :: jsstring

definition cardData_of2 :: "jsstring \<Rightarrow> CardRequest \<Rightarrow> PnLResult \<Rightarrow> CardData" where
  "cardData_of2 now body p =
     \<lparr>tokenSymbol = sanitizeTicker (ticker body),
      entryPrice = the_num (entry_price body),
      currentPrice = the_num (current_price body),
      pnl = p,
      walletTag = (if truthy (wallet_tag body) then Some (sanitizeString (wallet_tag body) 50)
                   else None),
      cardTimestamp = (if truthy (timestamp body) then the_str (timestamp body) else now)\<rparr>"

definition respond2 ::
  "(CardData \<Rightarrow> jsstring \<Rightarrow> jsstring option) \<Rightarrow> CardData \<Rightarrow> jsstring \<Rightarrow> Metadata2 response" where
  "respond2 renderCard cardData th =
     (case renderCard cardData th of
        None \<Rightarrow> ServerError
      | Some png \<Rightarrow>
          Success png
            \<lparr>ticker2 = tokenSymbol cardData,
             gain = percentageGain (pnl cardData),
             formatted = formattedGain (pnl cardData),
             profit = isProfit (pnl cardData), theme2 = th\<rparr>)"

definition handle2 ::
  "(CardData \<Rightarrow> jsstring \<Rightarrow> jsstring option) \<Rightarrow> jsstring \<Rightarrow> CardRequest \<Rightarrow> Metadata2 response" where
  "handle2 renderCard now body =
     (if validate2 body \<noteq> [] then ValidationFailed (validate2 body)
      else case calculatePnL (the_num (entry_price body)) (the_num (current_price body)) of
             Inl err \<Rightarrow> BadRequest (message err)
           | Inr p \<Rightarrow> respond2 renderCard (cardData_of2 now body p) (theme_of body))"

definition post_generate_card2 ::
  "(CardData \<Rightarrow> jsstring \<Rightarrow> jsstring option) \<Rightarrow> jsstring \<Rightarrow> jsval \<Rightarrow> Metadata2 response" where
  "post_generate_card2 renderCard now reqBody = handle2 renderCard now (extractBody2 reqBody)"


section \<open>Notions used in the statements\<close>

text \<open>
  The entry that one field of a request adds to the list of errors, told from the kind
  of value that the field holds: \<open>None\<close> when the field passes.  First for the
  validator of \<open>cardRoutes.ts\<close>.  The ticker must be a string that is not blank and has
  at most 20 code units; a price must be a finite number, the entry price above zero
  and from \<open>1e-20\<close> to \<open>1e15\<close>, the current price from zero to \<open>1e15\<close>; an optional field
  may be \<open>undefined\<close> or \<open>null\<close>, and otherwise the theme must be one of the three names,
  the wallet tag a string of at most 50 code units and the timestamp a string of at most
  100.
\<close>

fun ticker_error :: "jsval \<Rightarrow> jsstring option" where
  "ticker_error (JStr s) =
     (if trim s = [] then Some (js ''ticker is required'')
      else if 20 < length s then Some (js ''ticker must be 20 characters or less'')
      else None)"
| "ticker_error v = Some (js ''ticker is required'')"

fun entry_price_error :: "jsval \<Rightarrow> jsstring option" where
  "entry_price_error Undefined = Some (js ''entry_price is required'')"
| "entry_price_error Null = Some (js ''entry_price is required'')"
| "entry_price_error (JNum (Fin x)) =
     (if x \<le> 0 then Some (js ''entry_price must be greater than zero'')
      else if num_lt (Fin x) MIN_PRICE \<or> num_lt MAX_PRICE (Fin x)
        then Some (js ''entry_price out of range'')
      else None)"
| "entry_price_error v = Some (js ''entry_price must be a valid number'')"

fun current_price_error :: "jsval \<Rightarrow> jsstring option" where
  "current_price_error Undefined = Some (js ''current_price is required'')"
| "current_price_error Null = Some (js ''current_price is required'')"
| "current_price_error (JNum (Fin x)) =
     (if x < 0 then Some (js ''current_price cannot be negative'')
      else if num_lt MAX_PRICE (Fin x) then Some (js ''current_price out of range'')
      else None)"
| "current_price_error v = Some (js ''current_price must be a valid number'')"

fun theme_error :: "jsval \<Rightarrow> jsstring option" where
  "theme_error Undefined = None"
| "theme_error Null = None"
| "theme_error (JStr s) =
     (if s = js ''dark'' \<or> s = js ''light'' \<or> s = js ''degen'' then None
      else Some (js ''theme must be: dark, light, degen''))"
| "theme_error v = Some (js ''theme must be: dark, light, degen'')"

fun wallet_tag_error :: "jsval \<Rightarrow> jsstring option" where
  "wallet_tag_error Undefined = None"
| "wallet_tag_error Null = None"
| "wallet_tag_error (JStr s) = (if 50 < length s then Some (js ''wallet_tag invalid'') else None)"
| "wallet_tag_error v = Some (js ''wallet_tag invalid'')"

fun timestamp_error :: "jsval \<Rightarrow> jsstring option" where
  "timestamp_error Undefined = None"
| "timestamp_error Null = None"
| "timestamp_error (JStr s) = (if 100 < length s then Some (js ''timestamp invalid'') else None)"
| "timestamp_error v = Some (js ''timestamp invalid'')"

definition field_errors :: "CardRequest \<Rightarrow> jsstring option list" where
  "field_errors b =
     [ticker_error (ticker b), entry_price_error (entry_price b),
      current_price_error (current_price b), theme_error (theme b),
      wallet_tag_error (wallet_tag b), timestamp_error (timestamp b)]"

text \<open>
  The same for the validator of the second revision.  The ticker must be a string that
  is not blank and keeps a character under \<open>sanitizeTicker\<close>; the prices are as before;
  an optional field passes when it is absent or any other falsy value (\<open>false\<close>, zero,
  \<open>NaN\<close>, the empty string).
\<close>

fun ticker_error2 :: "jsval \<Rightarrow> jsstring option" where
  "ticker_error2 (JStr s) =
     (if trim s = [] then Some (js ''ticker required'')
      else if sanitizeTicker (JStr s) = [] then Some (js ''ticker must contain A-Z, 0-9, or $'')
      else None)"
| "ticker_error2 v = Some (js ''ticker required'')"

fun entry_price_error2 :: "jsval \<Rightarrow> jsstring option" where
  "entry_price_error2 Undefined = Some (js ''entry_price required'')"
| "entry_price_error2 Null = Some (js ''entry_price required'')"
| "entry_price_error2 (JNum (Fin x)) =
     (if x \<le> 0 then Some (js ''entry_price must be > 0'')
      else if num_lt (Fin x) MIN_PRICE \<or> num_lt MAX_PRICE (Fin x)
        then Some (js ''entry_price out of range'')
      else None)"
| "entry_price_error2 v = Some (js ''entry_price must be number'')"

fun current_price_error2 :: "jsval \<Rightarrow> jsstring option" where
  "current_price_error2 Undefined = Some (js ''current_price required'')"
| "current_price_error2 Null = Some (js ''current_price required'')"
| "current_price_error2 (JNum (Fin x)) =
     (if x < 0 then Some (js ''current_price cannot be negative'')
      else if num_lt MAX_PRICE (Fin x) then Some (js ''current_price out of range'')
      else None)"
| "current_price_error2 v = Some (js ''current_price must be number'')"

fun falsy :: "jsval \<Rightarrow> bool" where
  "falsy Undefined = True"
| "falsy Null = True"
| "falsy (JBool b) = (\<not> b)"
| "falsy (JNum x) = (x = NaN \<or> x = Fin 0)"
| "falsy (JStr s) = (s = [])"
| "falsy v = False"

fun theme_error2 :: "jsval \<Rightarrow> jsstring option" where
  "theme_error2 (JStr s) =
     (if s = [] \<or> s = js ''dark'' \<or> s = js ''light'' \<or> s = js ''degen'' then None
      else Some (js ''theme must be: dark, light, degen''))"
| "theme_error2 v = (if falsy v then None else Some (js ''theme must be: dark, light, degen''))"

fun wallet_tag_error2 :: "jsval \<Rightarrow> jsstring option" where
  "wallet_tag_error2 (JStr s) = (if 50 < length s then Some (js ''wallet_tag invalid'') else None)"
| "wallet_tag_error2 v = (if falsy v then None else Some (js ''wallet_tag invalid''))"

fun timestamp_error2 :: "jsval \<Rightarrow> jsstring option" where
  "timestamp_error2 (JStr s) = (if 100 < length s then Some (js ''timestamp invalid'') else None)"
| "timestamp_error2 v = (if falsy v then None else Some (js ''timestamp invalid''))"

definition field_errors2 :: "CardRequest \<Rightarrow> jsstring option list" where
  "field_errors2 b =
     [ticker_error2 (ticker b), entry_price_error2 (entry_price b),
      current_price_error2 (current_price b), theme_error2 (theme b),
      wallet_tag_error2 (wallet_tag b), timestamp_error2 (timestamp b)]"

text \<open>The entries of a list of optional errors that are there, in order.\<close>

fun present :: "'a option list \<Rightarrow> 'a list" where
  "present [] = []"
| "present (None # rs) = present rs"
| "present (Some r # rs) = r # present rs"

text \<open>The number of fields that fail.\<close>

definition failing :: "'a option list \<Rightarrow> nat" where
  "failing rs = length (filter (\<lambda>r. r \<noteq> None) rs)"

text \<open>Unary minus.\<close>

fun num_neg :: "number \<Rightarrow> number" where
  "num_neg (Fin a) = Fin (- a)"
| "num_neg PInf = NInf"
| "num_neg NInf = PInf"
| "num_neg NaN = NaN"

text \<open>The sign that leads a formatted percentage: \<open>+\<close> from zero on, \<open>-\<close> below.\<close>

definition sign_char :: "real \<Rightarrow> codeunit" where
  "sign_char v = (if 0 \<le> v then 0x2B else 0x2D)"

text \<open>
  \<open>is_decimal f s\<close>: the string is one or more digits, a point, and exactly \<open>f\<close> digits.
\<close>

definition is_decimal :: "nat \<Rightarrow> jsstring \<Rightarrow> bool" where
  "is_decimal f s =
     (f + 2 \<le> length s
      \<and> list_all is_digit (take (length s - f - 1) s)
      \<and> s ! (length s - f - 1) = 0x2E
      \<and> list_all is_digit (drop (length s - f) s))"


section \<open>Rounding to binary64\<close>

lemma ipow_powi: "ipow b e = real b powi e"
  by (simp add: ipow_def power_int_def field_simps)

lemma ilog_up_bounds:
  assumes "2 \<le> b" "1 \<le> x"
  shows "0 \<le> ilog_up b x \<and> real b powi (ilog_up b x) \<le> x \<and> x < real b powi (ilog_up b x + 1)"
  using assms
proof (induction b x rule: ilog_up.induct)
  case (1 b x)
  have b0: "0 < real b" using 1 by simp
  show ?case
  proof (cases "x < real b")
    case True
    then have "ilog_up b x = 0" by (subst ilog_up.simps) simp
    then show ?thesis using True 1 by simp
  next
    case False
    then have c: "\<not> (b \<le> 1 \<or> x < real b)" using 1 by simp
    have x1: "1 \<le> x / real b" using False b0 by (simp add: field_simps)
    define k where "k = ilog_up b (x / real b)"
    have e: "ilog_up b x = k + 1"
      using c unfolding k_def by (subst ilog_up.simps) simp
    from "1.IH" [OF c "1.prems"(1) x1]
    have k0: "0 \<le> k"
      and lo: "real b powi k \<le> x / real b"
      and hi: "x / real b < real b powi (k + 1)" unfolding k_def by auto
    have p1: "real b powi (k + 1) = real b powi k * real b"
      using b0 by (intro power_int_add_1) simp
    have p2: "real b powi (k + 1 + 1) = real b powi (k + 1) * real b"
      using b0 by (intro power_int_add_1) simp
    have "real b powi k * real b \<le> x" using lo b0 by (simp add: field_simps)
    moreover have "x < real b powi (k + 1) * real b" using hi b0 by (simp add: field_simps)
    ultimately show ?thesis using k0 unfolding e p2 p1 by simp
  qed
qed


lemma ilog_dn_le0: "ilog_dn b x \<le> 0"
proof (induction b x rule: ilog_dn.induct)
  case (1 b x)
  show ?case
  proof (cases "b \<le> 1 \<or> x \<le> 0 \<or> 1 \<le> x")
    case True
    then show ?thesis by (subst ilog_dn.simps) simp
  next
    case False
    then have "ilog_dn b x = ilog_dn b (x * real b) - 1" by (subst ilog_dn.simps) simp
    with "1.IH" [OF False] show ?thesis by simp
  qed
qed

lemma rhe_bounds: "of_int \<lfloor>y\<rfloor> \<le> (of_int (rhe y) :: real) \<and> of_int (rhe y) \<le> y + 1 / 2"
  unfolding rhe_def
  by (cases "y - of_int \<lfloor>y\<rfloor> < 1 / 2"; cases "1 / 2 < y - of_int \<lfloor>y\<rfloor>"; simp; linarith)

lemma fl_pos_unfold:
  assumes "0 < x"
  shows "fl x = (if ipow 2 1024 \<le> of_int (rhe (x / ipow 2 (max (ilog 2 x) (- 1022) - 52))) * ipow 2 (max (ilog 2 x) (- 1022) - 52)
                 then PInf
                 else Fin (of_int (rhe (x / ipow 2 (max (ilog 2 x) (- 1022) - 52))) * ipow 2 (max (ilog 2 x) (- 1022) - 52)))"
  using assms by (simp add: fl_def fl_round_def fl_pack_def)

text \<open>Above one, rounding stays above one and at most doubles.\<close>

lemma fl_ge_one:
  assumes "1 \<le> x"
  shows "\<exists>r. fl x = (if 2 ^ 1024 \<le> r then PInf else Fin r) \<and> 1 \<le> r \<and> r \<le> x + x / 2 ^ 53"
proof -
  define e where "e = ilog_up 2 x"
  have il: "ilog 2 x = e" using assms by (simp add: ilog_def e_def)
  from ilog_up_bounds [of 2 x] assms
  have e0: "0 \<le> e" and lo: "2 powi e \<le> x" unfolding e_def by auto
  have mx: "max (ilog 2 x) (- 1022) = e" using il e0 by simp
  define u :: real where "u = 2 powi (e - 52)"
  have u0: "0 < u" by (simp add: u_def)
  have ue: "u * 2 ^ 52 = 2 powi e"
    unfolding u_def by (simp add: power_int_diff)
  define m where "m = rhe (x / u)"
  have "2 ^ 52 \<le> x / u" using lo u0 ue by (simp add: field_simps)
  then have fi: "(4503599627370496 :: int) \<le> \<lfloor>x / u\<rfloor>" by (simp add: le_floor_iff)
  have "\<lfloor>x / u\<rfloor> \<le> m" using rhe_bounds [of "x / u"] unfolding m_def by linarith
  with fi have "(4503599627370496 :: int) \<le> m" by linarith
  then have mlo: "2 ^ 52 \<le> (of_int m :: real)" by simp
  have mhi: "(of_int m :: real) \<le> x / u + 1 / 2"
    using rhe_bounds [of "x / u"] unfolding m_def by simp
  have "1 \<le> (2 :: real) powi e" using e0 by (simp add: one_le_power_int)
  also have "\<dots> = 2 ^ 52 * u" using ue by (simp add: mult.commute)
  also have "\<dots> \<le> of_int m * u" using mlo u0 by simp
  finally have r1: "1 \<le> of_int m * u" .
  have "of_int m * u \<le> (x / u + 1 / 2) * u" using mhi u0 by simp
  also have "\<dots> = x + u / 2" using u0 by (simp add: field_simps)
  also have "u / 2 = 2 powi e / 2 ^ 53" using ue by (simp add: field_simps)
  also have "x + 2 powi e / 2 ^ 53 \<le> x + x / 2 ^ 53" using lo by (simp add: divide_right_mono)
  finally have r2: "of_int m * u \<le> x + x / 2 ^ 53" .
  have x0: "0 < x" using assms by simp
  have "fl x = (if 2 ^ 1024 \<le> of_int m * u then PInf else Fin (of_int m * u))"
    unfolding fl_pos_unfold [OF x0] mx ipow_powi m_def u_def by simp
  with r1 r2 show ?thesis by blast
qed

lemma fl_lt_one:
  assumes "0 < x" "x < 1"
  shows "\<exists>r. fl x = Fin r \<and> 0 \<le> r \<and> r \<le> x + 1 / 2 ^ 53"
proof -
  define e where "e = max (ilog 2 x) (- 1022)"
  have "ilog 2 x \<le> 0" using assms ilog_dn_le0 [of 2 x] by (simp add: ilog_def)
  then have e0: "e \<le> 0" by (simp add: e_def)
  define u :: real where "u = 2 powi (e - 52)"
  have u0: "0 < u" by (simp add: u_def)
  have "u \<le> 2 powi (- 52)" unfolding u_def using e0 by (intro power_int_increasing) auto
  then have u52: "u \<le> 1 / 2 ^ 52" by (simp add: power_int_minus field_simps)
  define m where "m = rhe (x / u)"
  have "0 \<le> x / u" using assms u0 by simp
  then have "0 \<le> \<lfloor>x / u\<rfloor>" by simp
  moreover have "\<lfloor>x / u\<rfloor> \<le> m" using rhe_bounds [of "x / u"] unfolding m_def by linarith
  ultimately have m0: "0 \<le> m" by linarith
  have mhi: "(of_int m :: real) \<le> x / u + 1 / 2"
    using rhe_bounds [of "x / u"] unfolding m_def by simp
  have r0: "0 \<le> of_int m * u" using m0 u0 by simp
  have "of_int m * u \<le> (x / u + 1 / 2) * u" using mhi u0 by simp
  also have "\<dots> = x + u / 2" using u0 by (simp add: field_simps)
  also have "\<dots> \<le> x + 1 / 2 ^ 53" using u52 by simp
  finally have r2: "of_int m * u \<le> x + 1 / 2 ^ 53" .
  then have "of_int m * u < 2" using assms by simp
  also have "(2 :: real) \<le> 2 ^ 1024" by simp
  finally have "\<not> 2 ^ 1024 \<le> of_int m * u" by simp
  then have "fl x = Fin (of_int m * u)"
    unfolding fl_pos_unfold [OF assms(1)] ipow_powi m_def u_def e_def by simp
  with r0 r2 show ?thesis by blast
qed

lemma fl_pos_finite:
  assumes "0 < x" "x \<le> 2 ^ 1023"
  shows "\<exists>r. fl x = Fin r \<and> 0 \<le> r \<and> r \<le> x + x / 2 ^ 53 + 1 / 2 ^ 53 \<and> (1 \<le> x \<longrightarrow> 1 \<le> r)"
proof (cases "1 \<le> x")
  case True
  from fl_ge_one [OF True] obtain r
    where r: "fl x = (if 2 ^ 1024 \<le> r then PInf else Fin r)" "1 \<le> r" "r \<le> x + x / 2 ^ 53"
    by blast
  have "x / 2 ^ 53 < 2 ^ 1023" using assms by simp
  then have "r < 2 ^ 1023 + 2 ^ 1023" using r(3) assms(2) by linarith
  then have "\<not> 2 ^ 1024 \<le> r" by simp
  with r show ?thesis by auto
next
  case False
  with fl_lt_one [of x] assms obtain r where "fl x = Fin r" "0 \<le> r" "r \<le> x + 1 / 2 ^ 53"
    by auto
  moreover have "0 \<le> x / 2 ^ 53" using assms by simp
  ultimately show ?thesis using False by auto
qed

lemma fl_neg: "fl (- q) = num_neg (fl q)"
  by (simp add: fl_def fl_round_def fl_pack_def)

lemma fl_finite:
  assumes "\<bar>q\<bar> \<le> 2 ^ 1023"
  shows "\<exists>r. fl q = Fin r"
proof -
  consider "q = 0" | "0 < q" | "q < 0" by linarith
  then show ?thesis
  proof cases
    case 1 then show ?thesis by (simp add: fl_def)
  next
    case 2 with fl_pos_finite [of q] assms show ?thesis by auto
  next
    case 3
    with fl_pos_finite [of "- q"] assms obtain r where "fl (- q) = Fin r" by auto
    then have "num_neg (fl q) = Fin r" by (simp add: fl_neg)
    then show ?thesis by (cases "fl q") auto
  qed
qed

text \<open>An integer below \<open>2 ^ 53\<close> is a binary64 value.\<close>

lemma rhe_int: "rhe (of_int k) = k"
  by (simp add: rhe_def)

lemma rhe_near: "\<bar>of_int (rhe y) - y\<bar> \<le> 1 / 2"
  unfolding rhe_def
  by (cases "y - of_int \<lfloor>y\<rfloor> < 1 / 2"; cases "1 / 2 < y - of_int \<lfloor>y\<rfloor>"; simp; linarith)

lemma fl_int:
  assumes "0 \<le> m" "m < 2 ^ 53"
  shows "fl (of_int m) = Fin (of_int m)"
proof (cases "m = 0")
  case True
  then show ?thesis by (simp add: fl_def)
next
  case False
  define x :: real where "x = of_int m"
  have x1: "1 \<le> x" using assms False by (simp add: x_def)
  have "m \<le> 2 ^ 53 - 1" using assms(2) by simp
  then have "x \<le> of_int (2 ^ 53 - 1)" unfolding x_def by (simp only: of_int_le_iff)
  then have x53: "x < 2 ^ 53" by simp
  define e where "e = ilog_up 2 x"
  have il: "ilog 2 x = e" using x1 by (simp add: ilog_def e_def)
  from ilog_up_bounds [of 2 x] x1
  have e0: "0 \<le> e" and lo: "2 powi e \<le> x" unfolding e_def by auto
  have e52: "e \<le> 52"
  proof (rule ccontr)
    assume "\<not> e \<le> 52"
    then have "53 \<le> e" by simp
    then have "(2 :: real) powi 53 \<le> 2 powi e" by (intro power_int_increasing) auto
    then show False using lo x53 by simp
  qed
  have mx: "max (ilog 2 x) (- 1022) = e" using il e0 by simp
  define j where "j = nat (52 - e)"
  have u: "(2 :: real) powi (e - 52) = 1 / 2 ^ j"
    using e52 unfolding j_def by (simp add: power_int_def field_simps)
  have q: "x / (1 / 2 ^ j) = of_int (m * 2 ^ j)" by (simp add: x_def)
  have r: "of_int (rhe (x / (1 / 2 ^ j))) * (1 / 2 ^ j) = x"
    unfolding q rhe_int by (simp add: x_def)
  have x0: "0 < x" using x1 by simp
  have "x < 2 ^ 1024" using x53 by (rule less_trans) simp
  then have nx: "\<not> 2 ^ 1024 \<le> x" by simp
  have "fl x = (if 2 ^ 1024 \<le> real_of_int (rhe (x / 2 powi (e - 52))) * 2 powi (e - 52) then PInf
                else Fin (real_of_int (rhe (x / 2 powi (e - 52))) * 2 powi (e - 52)))"
    unfolding fl_pos_unfold [OF x0] mx ipow_powi by simp
  then have "fl x = (if 2 ^ 1024 \<le> x then PInf else Fin x)" unfolding u r .
  with nx have "fl x = Fin x" by simp
  then show ?thesis by (simp add: x_def)
qed

text \<open>
  The rounding error of a finite result is at most half a unit in the last place:
  \<open>2 ^ - 53\<close> of the magnitude from one on, and \<open>2 ^ - 53\<close> below.
\<close>

lemma fl_pos_near:
  assumes "0 < x" "x \<le> 2 ^ 1023"
  shows "\<exists>r. fl x = Fin r \<and> \<bar>r - x\<bar> \<le> (if 1 \<le> x then x else 1) / 2 ^ 53"
proof -
  define e where "e = max (ilog 2 x) (- 1022)"
  define u :: real where "u = 2 powi (e - 52)"
  have u0: "0 < u" by (simp add: u_def)
  define m where "m = rhe (x / u)"
  have "\<bar>of_int m - x / u\<bar> \<le> 1 / 2" unfolding m_def by (rule rhe_near)
  then have "\<bar>of_int m - x / u\<bar> * u \<le> 1 / 2 * u" using u0 by (intro mult_right_mono) auto
  moreover have "\<bar>of_int m - x / u\<bar> * u = \<bar>of_int m * u - x\<bar>"
    using u0 by (simp add: abs_mult_pos' [symmetric] field_simps del: abs_mult_pos')
  ultimately have near: "\<bar>of_int m * u - x\<bar> \<le> u / 2" by simp
  have ub: "u / 2 \<le> (if 1 \<le> x then x else 1) / 2 ^ 53"
  proof (cases "1 \<le> x")
    case True
    from ilog_up_bounds [of 2 x] True
    have e0: "0 \<le> ilog_up 2 x" and lo: "2 powi (ilog_up 2 x) \<le> x" by auto
    have ee: "e = ilog_up 2 x" using True e0 by (simp add: e_def ilog_def)
    have "u * 2 ^ 52 = 2 powi e" unfolding u_def by (simp add: power_int_diff)
    then have "u / 2 = 2 powi e / 2 ^ 53" by (simp add: field_simps)
    also have "\<dots> \<le> x / 2 ^ 53" using lo ee by (simp add: divide_right_mono)
    finally show ?thesis using True by simp
  next
    case False
    have "ilog 2 x \<le> 0" using False ilog_dn_le0 [of 2 x] by (simp add: ilog_def)
    then have e0: "e \<le> 0" by (simp add: e_def)
    have "u \<le> 2 powi (- 52)" unfolding u_def using e0 by (intro power_int_increasing) auto
    then have "u \<le> 1 / 2 ^ 52" by (simp add: power_int_minus field_simps)
    then show ?thesis using False by simp
  qed
  have "(if 1 \<le> x then x else 1) / 2 ^ 53 \<le> (2 ^ 1023 :: real) / 2 ^ 53"
    using assms by (intro divide_right_mono) auto
  also have "\<dots> < 2 ^ 1023" by simp
  finally have "u / 2 < 2 ^ 1023" using ub by linarith
  then have "of_int m * u < 2 ^ 1023 + 2 ^ 1023" using near assms(2) by linarith
  then have "\<not> 2 ^ 1024 \<le> of_int m * u" by simp
  then have "fl x = Fin (of_int m * u)"
    unfolding fl_pos_unfold [OF assms(1)] ipow_powi m_def u_def e_def by simp
  with near ub show ?thesis by force
qed

lemma fl_near:
  assumes "\<bar>q\<bar> \<le> 2 ^ 1023"
  shows "\<exists>r. fl q = Fin r \<and> \<bar>r - q\<bar> \<le> (if 1 \<le> \<bar>q\<bar> then \<bar>q\<bar> else 1) / 2 ^ 53"
proof -
  consider "q = 0" | "0 < q" | "q < 0" by linarith
  then show ?thesis
  proof cases
    case 1 then show ?thesis by (simp add: fl_def)
  next
    case 2 with fl_pos_near [of q] assms show ?thesis by auto
  next
    case 3
    with fl_pos_near [of "- q"] assms obtain r
      where r: "fl (- q) = Fin r" "\<bar>r - (- q)\<bar> \<le> (if 1 \<le> - q then - q else 1) / 2 ^ 53" by auto
    from r(1) have "num_neg (fl q) = Fin r" by (simp add: fl_neg)
    then have "fl q = Fin (- r)" by (cases "fl q") auto
    moreover have "\<bar>- r - q\<bar> = \<bar>r - (- q)\<bar>" by simp
    ultimately show ?thesis using r(2) 3 by auto
  qed
qed

lemma raw_pct_same: "0 < x \<Longrightarrow> raw_pct (Fin x) (Fin x) = Fin 0"
  by (simp add: raw_pct_def fl_def)


section \<open>Evaluation and decimal digits\<close>

lemma replicate_num: "replicate (numeral k) x = x # replicate (pred_numeral k) x"
  by (simp add: numeral_eq_Suc)

lemmas fl_eval = fl_def fl_round_def fl_pack_def ilog_def ipow_def rhe_def
lemmas fixed_eval = replicate_num fixed_abs_def fixed_digits_def pad_fixed_def point_fixed_def
  digits.simps digit_char_def js_def
lemmas pnl_eval = calculatePnL_def pnl_of_def raw_pct_def roundPrecision_def formatPct_def
  pct_prefix_def num_ge_def


lemma digit_cases: "d < 10 \<Longrightarrow> d \<in> {0, 1, 2, 3, 4, 5, 6, 7, 8, 9 :: nat}"
  by auto

lemma digit_char_digit: "d < 10 \<Longrightarrow> is_digit (digit_char d)"
  by (drule digit_cases) (auto simp: is_digit_def digit_char_def)

lemma digit_char_nonzero: "0 < d \<Longrightarrow> d < 10 \<Longrightarrow> is_nonzero_digit (digit_char d)"
  by (drule digit_cases) (auto simp: is_nonzero_digit_def digit_char_def)

lemma digits_nonempty: "digits n \<noteq> []"
  by (subst digits.simps) simp

lemma digits_all: "list_all is_digit (digits n)"
proof (induction n rule: digits.induct)
  case (1 n)
  show ?case
  proof (cases "n < 10")
    case True
    then show ?thesis by (subst digits.simps) (simp add: digit_char_digit)
  next
    case False
    with 1 show ?thesis by (subst digits.simps) (simp add: digit_char_digit)
  qed
qed

lemma digits_hd: "0 < n \<Longrightarrow> is_nonzero_digit (hd (digits n))"
proof (induction n rule: digits.induct)
  case (1 n)
  show ?case
  proof (cases "n < 10")
    case True
    with 1 show ?thesis by (subst digits.simps) (simp add: digit_char_nonzero)
  next
    case False
    then have "0 < n div 10" by simp
    with 1 False show ?thesis
      by (subst digits.simps) (simp add: digits_nonempty)
  qed
qed

lemma digits_length: "0 < k \<Longrightarrow> n < 10 ^ k \<Longrightarrow> length (digits n) \<le> k"
proof (induction n arbitrary: k rule: digits.induct)
  case (1 n)
  show ?case
  proof (cases "n < 10")
    case True
    with 1 show ?thesis by (subst digits.simps) simp
  next
    case False
    then obtain j where k: "k = Suc j" using "1.prems" by (cases k) auto
    have j0: "0 < j" using False "1.prems" k by (cases j) auto
    have "n div 10 < 10 ^ j" using "1.prems" k by (simp add: less_mult_imp_div_less mult.commute)
    from "1.IH" [OF False j0 this] False k show ?thesis
      by (subst digits.simps) simp
  qed
qed


section \<open>The sanitizers\<close>

lemma upper_of_lower: "is_lower c \<Longrightarrow> is_upper (c - 0x20)"
  unfolding is_lower_def is_upper_def by unat_arith

lemma slice0_subset: "set (slice0 s n) \<subseteq> set s"
  by (auto simp: slice0_def dest: in_set_takeD)

lemma trim_subset: "set (trim s) \<subseteq> set s"
  by (auto simp: trim_def dest!: set_dropWhileD)

lemma sanitizeTicker_chars: "c \<in> set (sanitizeTicker v) \<Longrightarrow> is_ticker_char c"
  using slice0_subset by (cases v) fastforce+

lemma sanitizeTicker_length: "length (sanitizeTicker v) \<le> 20"
  by (cases v) (simp_all add: slice0_def)

lemma sanitizeString_chars:
  assumes "c \<in> set (sanitizeString v n)"
  shows "\<not> is_unsafe c"
proof (cases v)
  case (JStr s)
  with assms have "c \<in> set (trim (filter (\<lambda>c. \<not> is_unsafe c) s))"
    using slice0_subset by fastforce
  then have "c \<in> set (filter (\<lambda>c. \<not> is_unsafe c) s)"
    using trim_subset by blast
  then show ?thesis by simp
qed (use assms in simp_all)

lemma sanitizeString_length: "0 \<le> n \<Longrightarrow> length (sanitizeString v n) \<le> nat n"
  by (cases v) (simp_all add: slice0_def)

lemmas string_eval =
  js_def toUpperCase_def upper_unit_def is_lower_def is_ticker_char_def is_upper_def
  is_digit_def slice0_def is_unsafe_def trim_def is_space_def

text \<open>
  Claim C7.  \<open>sanitizeTicker\<close> upper-cases its argument, keeps only the code units of
  \<open>[A-Z0-9$]\<close> and cuts the result to 20 code units: an ASCII lower-case letter becomes
  its capital, every code unit of the result is in the class, the result is never longer
  than 20, \<open><script>\<close> gives \<open>SCRIPT\<close> and \<open>$BTC\<close> is unchanged.  \<open>sanitizeString\<close>
  deletes the code units \<open>0x00\<close>..\<open>0x1F\<close>, \<open>0x7F\<close>, \<open><\<close> and \<open>>\<close>, then trims, then
  cuts to the ceiling, in that order: no deleted code unit is left, the result is never
  longer than a non-negative ceiling, and a space that the cut exposes is kept.
\<close>

theorem C7_sanitizers:
  "sanitizeTicker (JStr s) = take 20 (filter is_ticker_char (toUpperCase s))
   \<and> (is_lower c \<longrightarrow> toUpperCase [c] = [c - 0x20] \<and> is_upper (c - 0x20))
   \<and> (\<forall>c \<in> set (sanitizeTicker v). is_upper c \<or> is_digit c \<or> c = 0x24)
   \<and> length (sanitizeTicker v) \<le> 20
   \<and> sanitizeTicker (JStr (js ''<script>'')) = js ''SCRIPT''
   \<and> sanitizeTicker (JStr (js ''$BTC'')) = js ''$BTC''
   \<and> sanitizeString (JStr s) n = slice0 (trim (filter (\<lambda>c. \<not> is_unsafe c) s)) n
   \<and> (\<forall>c \<in> set (sanitizeString v n). \<not> (c \<le> 0x1F \<or> c = 0x7F \<or> c = 0x3C \<or> c = 0x3E))
   \<and> (0 \<le> n \<longrightarrow> length (sanitizeString v n) \<le> nat n)
   \<and> sanitizeString (JStr (js '' <ab cd> '')) 3 = js ''ab ''"
proof -
  have "sanitizeTicker (JStr s) = take 20 (filter is_ticker_char (toUpperCase s))"
    by (simp add: slice0_def)
  moreover have "is_lower c \<longrightarrow> toUpperCase [c] = [c - 0x20] \<and> is_upper (c - 0x20)"
    by (simp add: toUpperCase_def upper_unit_def upper_of_lower)
  moreover have "\<forall>c \<in> set (sanitizeTicker v). is_upper c \<or> is_digit c \<or> c = 0x24"
    using sanitizeTicker_chars by (auto simp: is_ticker_char_def)
  moreover have "sanitizeTicker (JStr (js ''<script>'')) = js ''SCRIPT''"
    by (simp add: string_eval)
  moreover have "sanitizeTicker (JStr (js ''$BTC'')) = js ''$BTC''"
    by (simp add: string_eval)
  moreover have "\<forall>c \<in> set (sanitizeString v n). \<not> (c \<le> 0x1F \<or> c = 0x7F \<or> c = 0x3C \<or> c = 0x3E)"
    using sanitizeString_chars [of _ v n] by (auto simp: is_unsafe_def)
  moreover have "sanitizeString (JStr (js '' <ab cd> '')) 3 = js ''ab ''"
    by (simp add: string_eval)
  ultimately show ?thesis
    using sanitizeTicker_length sanitizeString_length by simp
qed

theorem C7_sanitizers_witness:
  "is_lower 0x62 \<and> toUpperCase [0x62] = [0x42]
   \<and> sanitizeTicker (JStr (js ''b c'')) = js ''BC''
   \<and> list_all (\<lambda>c. is_upper c \<or> is_digit c \<or> c = 0x24) (js ''BC'')
   \<and> sanitizeString (JStr (js ''b<c'')) 1 = js ''b''
   \<and> list_all (\<lambda>c. \<not> (c \<le> 0x1F \<or> c = 0x7F \<or> c = 0x3C \<or> c = 0x3E)) (js ''b'')
   \<and> (0 :: int) \<le> 1 \<and> length (sanitizeString (JStr (js ''b<c'')) 1) \<le> nat 1"
proof -
  have t: "sanitizeTicker (JStr (js ''b c'')) = js ''BC''"
    by (simp add: string_eval)
  have u: "sanitizeString (JStr (js ''b<c'')) 1 = js ''b''"
    by (simp add: string_eval)
  have l: "is_lower 0x62" by (simp add: is_lower_def)
  from C7_sanitizers [of "js ''b<c''" "0x62" "JStr (js ''b c'')" 1]
  have a: "toUpperCase [0x62] = [0x62 - 0x20]"
    and b: "\<forall>c \<in> set (sanitizeTicker (JStr (js ''b c''))). is_upper c \<or> is_digit c \<or> c = 0x24"
    using l by blast+
  from C7_sanitizers [of "js ''b<c''" "0x62" "JStr (js ''b<c'')" 1]
  have c: "\<forall>c \<in> set (sanitizeString (JStr (js ''b<c'')) 1).
             \<not> (c \<le> 0x1F \<or> c = 0x7F \<or> c = 0x3C \<or> c = 0x3E)"
    and d: "length (sanitizeString (JStr (js ''b<c'')) 1) \<le> nat 1"
    by simp_all
  from b have b': "list_all (\<lambda>c. is_upper c \<or> is_digit c \<or> c = 0x24) (js ''BC'')"
    unfolding t list_all_iff .
  from c have c': "list_all (\<lambda>c. \<not> (c \<le> 0x1F \<or> c = 0x7F \<or> c = 0x3C \<or> c = 0x3E)) (js ''b'')"
    unfolding u list_all_iff .
  show ?thesis using l a b' c' d t u by simp
qed


section \<open>The validator\<close>

lemma check_ticker_app: "check_ticker b e = e @ check_ticker b []"
  by (simp add: check_ticker_def)

lemma check_entry_price_app: "check_entry_price b e = e @ check_entry_price b []"
  by (simp add: check_entry_price_def)

lemma check_current_price_app: "check_current_price b e = e @ check_current_price b []"
  by (simp add: check_current_price_def)

lemma check_theme_app: "check_theme b e = e @ check_theme b []"
  by (simp add: check_theme_def)

lemma check_wallet_tag_app: "check_wallet_tag b e = e @ check_wallet_tag b []"
  by (simp add: check_wallet_tag_def)

lemma check_timestamp_app: "check_timestamp b e = e @ check_timestamp b []"
  by (simp add: check_timestamp_def)

lemma validate_append:
  "validate b = check_ticker b [] @ check_entry_price b [] @ check_current_price b []
     @ check_theme b [] @ check_wallet_tag b [] @ check_timestamp b []"
  unfolding validate_def
  by (subst check_timestamp_app, subst check_wallet_tag_app, subst check_theme_app,
      subst check_current_price_app, subst check_entry_price_app) simp

lemmas check_defs =
  check_ticker_def check_entry_price_def check_current_price_def
  check_theme_def check_wallet_tag_def check_timestamp_def

lemma check_ticker2_app: "check_ticker2 b e = e @ check_ticker2 b []"
  by (simp add: check_ticker2_def)

lemma check_entry_price2_app: "check_entry_price2 b e = e @ check_entry_price2 b []"
  by (simp add: check_entry_price2_def)

lemma check_current_price2_app: "check_current_price2 b e = e @ check_current_price2 b []"
  by (simp add: check_current_price2_def)

lemma check_theme2_app: "check_theme2 b e = e @ check_theme2 b []"
  by (simp add: check_theme2_def)

lemma check_wallet_tag2_app: "check_wallet_tag2 b e = e @ check_wallet_tag2 b []"
  by (simp add: check_wallet_tag2_def)

lemma check_timestamp2_app: "check_timestamp2 b e = e @ check_timestamp2 b []"
  by (simp add: check_timestamp2_def)

lemma validate2_append:
  "validate2 b = check_ticker2 b [] @ check_entry_price2 b [] @ check_current_price2 b []
     @ check_theme2 b [] @ check_wallet_tag2 b [] @ check_timestamp2 b []"
  unfolding validate2_def
  by (subst check_timestamp2_app, subst check_wallet_tag2_app, subst check_theme2_app,
      subst check_current_price2_app, subst check_entry_price2_app) simp

lemmas check2_defs =
  check_ticker2_def check_entry_price2_def check_current_price2_def
  check_theme2_def check_wallet_tag2_def check_timestamp2_def

lemma trim_Nil: "trim [] = []"
  by (simp add: trim_def)

lemma present_append: "present (rs @ ss) = present rs @ present ss"
  by (induction rs rule: present.induct) simp_all

lemma present_length: "length (present rs) = failing rs"
  unfolding failing_def by (induction rs rule: present.induct) simp_all

text \<open>Each statement of \<open>validate\<close> adds the entry of its field.\<close>

lemma check_ticker_entry: "check_ticker b [] = present [ticker_error (ticker b)]"
  by (cases "ticker b") (auto simp: check_ticker_def trim_Nil)

lemma check_entry_price_entry: "check_entry_price b [] = present [entry_price_error (entry_price b)]"
proof (cases "entry_price b")
  case (JNum x)
  then show ?thesis by (cases x) (auto simp: check_entry_price_def)
qed (simp_all add: check_entry_price_def)

lemma check_current_price_entry:
  "check_current_price b [] = present [current_price_error (current_price b)]"
proof (cases "current_price b")
  case (JNum x)
  then show ?thesis by (cases x) (auto simp: check_current_price_def)
qed (simp_all add: check_current_price_def)

lemma check_theme_entry: "check_theme b [] = present [theme_error (theme b)]"
  by (cases "theme b") (auto simp: check_theme_def THEMES_def)

lemma check_wallet_tag_entry: "check_wallet_tag b [] = present [wallet_tag_error (wallet_tag b)]"
  by (cases "wallet_tag b") (auto simp: check_wallet_tag_def)

lemma check_timestamp_entry: "check_timestamp b [] = present [timestamp_error (timestamp b)]"
  by (cases "timestamp b") (auto simp: check_timestamp_def)

lemma validate_entries: "validate b = present (field_errors b)"
proof -
  have "field_errors b = [ticker_error (ticker b)] @ [entry_price_error (entry_price b)]
      @ [current_price_error (current_price b)] @ [theme_error (theme b)]
      @ [wallet_tag_error (wallet_tag b)] @ [timestamp_error (timestamp b)]"
    by (simp add: field_errors_def)
  then show ?thesis
    unfolding validate_append check_ticker_entry check_entry_price_entry
      check_current_price_entry check_theme_entry check_wallet_tag_entry check_timestamp_entry
    by (simp only: present_append)
qed

lemma check_ticker2_entry: "check_ticker2 b [] = present [ticker_error2 (ticker b)]"
  by (cases "ticker b") (auto simp: check_ticker2_def trim_Nil)

lemma check_entry_price2_entry:
  "check_entry_price2 b [] = present [entry_price_error2 (entry_price b)]"
proof (cases "entry_price b")
  case (JNum x)
  then show ?thesis by (cases x) (auto simp: check_entry_price2_def)
qed (simp_all add: check_entry_price2_def)

lemma check_current_price2_entry:
  "check_current_price2 b [] = present [current_price_error2 (current_price b)]"
proof (cases "current_price b")
  case (JNum x)
  then show ?thesis by (cases x) (auto simp: check_current_price2_def)
qed (simp_all add: check_current_price2_def)

lemma check_theme2_entry: "check_theme2 b [] = present [theme_error2 (theme b)]"
  by (cases "theme b") (auto simp: check_theme2_def THEMES_def)

lemma check_wallet_tag2_entry: "check_wallet_tag2 b [] = present [wallet_tag_error2 (wallet_tag b)]"
  by (cases "wallet_tag b") (auto simp: check_wallet_tag2_def)

lemma check_timestamp2_entry: "check_timestamp2 b [] = present [timestamp_error2 (timestamp b)]"
  by (cases "timestamp b") (auto simp: check_timestamp2_def)

lemma validate2_entries: "validate2 b = present (field_errors2 b)"
proof -
  have "field_errors2 b = [ticker_error2 (ticker b)] @ [entry_price_error2 (entry_price b)]
      @ [current_price_error2 (current_price b)] @ [theme_error2 (theme b)]
      @ [wallet_tag_error2 (wallet_tag b)] @ [timestamp_error2 (timestamp b)]"
    by (simp add: field_errors2_def)
  then show ?thesis
    unfolding validate2_append check_ticker2_entry check_entry_price2_entry
      check_current_price2_entry check_theme2_entry check_wallet_tag2_entry
      check_timestamp2_entry
    by (simp only: present_append)
qed

text \<open>
  Claim C6.  \<open>validate\<close> does not stop at the first error: its result holds, in the
  order of the fields, the entry of every field that fails and nothing else, so its
  length is the number of failing fields.  When a field fails is told by the functions
  \<open>ticker_error\<close> to \<open>timestamp_error\<close>: a ticker that is no string, is blank or is
  longer than 20; a price that is missing, is no finite number or lies outside its
  range; a theme that is given and is none of the three names; a wallet tag or a
  timestamp that is given and is no string or is too long (a number as timestamp is
  reported as \<open>timestamp invalid\<close>).  The same holds of the validator of the second
  revision with its own conditions and messages.  When \<open>ticker\<close>, \<open>entry_price\<close> and
  \<open>current_price\<close> are all missing, the three entries of the required fields are all
  there, followed by the entries of the optional fields that fail; the empty request
  body gives exactly these three.
\<close>

theorem C6_validate_collects_all:
  "validate b = present (field_errors b)
   \<and> length (validate b) = failing (field_errors b)
   \<and> validate2 b = present (field_errors2 b)
   \<and> length (validate2 b) = failing (field_errors2 b)
   \<and> validate (b\<lparr>ticker := Undefined, entry_price := Undefined, current_price := Undefined\<rparr>)
       = [js ''ticker is required'', js ''entry_price is required'',
          js ''current_price is required'']
         @ present [theme_error (theme b), wallet_tag_error (wallet_tag b),
                    timestamp_error (timestamp b)]
   \<and> validate2 (b\<lparr>ticker := Undefined, entry_price := Undefined, current_price := Undefined\<rparr>)
       = [js ''ticker required'', js ''entry_price required'', js ''current_price required'']
         @ present [theme_error2 (theme b), wallet_tag_error2 (wallet_tag b),
                    timestamp_error2 (timestamp b)]
   \<and> map_option validate (extractBody (JObj []))
       = Some [js ''ticker is required'', js ''entry_price is required'',
               js ''current_price is required'']
   \<and> validate2 (extractBody2 (JObj []))
       = [js ''ticker required'', js ''entry_price required'', js ''current_price required'']"
proof -
  have 1: "length (validate b) = failing (field_errors b)"
    unfolding validate_entries by (rule present_length)
  have 2: "length (validate2 b) = failing (field_errors2 b)"
    unfolding validate2_entries by (rule present_length)
  have 3: "validate (b\<lparr>ticker := Undefined, entry_price := Undefined, current_price := Undefined\<rparr>)
       = [js ''ticker is required'', js ''entry_price is required'',
          js ''current_price is required'']
         @ present [theme_error (theme b), wallet_tag_error (wallet_tag b),
                    timestamp_error (timestamp b)]"
    unfolding validate_entries by (simp add: field_errors_def)
  have 4: "validate2 (b\<lparr>ticker := Undefined, entry_price := Undefined, current_price := Undefined\<rparr>)
       = [js ''ticker required'', js ''entry_price required'', js ''current_price required'']
         @ present [theme_error2 (theme b), wallet_tag_error2 (wallet_tag b),
                    timestamp_error2 (timestamp b)]"
    unfolding validate2_entries by (simp add: field_errors2_def)
  have 5: "map_option validate (extractBody (JObj []))
       = Some [js ''ticker is required'', js ''entry_price is required'',
               js ''current_price is required'']"
    unfolding validate_entries
    by (simp add: extractBody_def unwrap_def fields_of_def field_errors_def)
  have 6: "validate2 (extractBody2 (JObj []))
       = [js ''ticker required'', js ''entry_price required'', js ''current_price required'']"
    unfolding validate2_entries
    by (simp add: extractBody2_def unwrap_def field_errors2_def)
  from validate_entries [of b] validate2_entries [of b] 1 2 3 4 5 6 show ?thesis by blast
qed

theorem C6_validate_collects_all_witness:
  "validate \<lparr>ticker = JStr (js ''  ''), entry_price = JNum (Fin 0), current_price = Undefined,
             theme = JStr (js ''neon''), wallet_tag = JBool True, timestamp = JNum (Fin 5)\<rparr>
     = [js ''ticker is required'', js ''entry_price must be greater than zero'',
        js ''current_price is required'', js ''theme must be: dark, light, degen'',
        js ''wallet_tag invalid'', js ''timestamp invalid'']
   \<and> validate \<lparr>ticker = JStr (js ''BTC''), entry_price = JNum PInf, current_price = JNum (Fin 1),
               theme = Null, wallet_tag = JStr (js ''me''), timestamp = JNum (Fin 5)\<rparr>
     = [js ''entry_price must be a valid number'', js ''timestamp invalid'']
   \<and> validate2 \<lparr>ticker = JStr (js ''!@#''), entry_price = JStr (js ''hundred''),
                current_price = JNum (Fin (- 1)), theme = JStr [], wallet_tag = JNum (Fin 0),
                timestamp = JNum (Fin 5)\<rparr>
     = [js ''ticker must contain A-Z, 0-9, or $'', js ''entry_price must be number'',
        js ''current_price cannot be negative'', js ''timestamp invalid'']"
proof -
  let ?a = "\<lparr>ticker = JStr (js ''  ''), entry_price = JNum (Fin 0), current_price = Undefined,
             theme = JStr (js ''neon''), wallet_tag = JBool True, timestamp = JNum (Fin 5)\<rparr>"
  let ?b = "\<lparr>ticker = JStr (js ''BTC''), entry_price = JNum PInf, current_price = JNum (Fin 1),
               theme = Null, wallet_tag = JStr (js ''me''), timestamp = JNum (Fin 5)\<rparr>"
  let ?c = "\<lparr>ticker = JStr (js ''!@#''), entry_price = JStr (js ''hundred''),
                current_price = JNum (Fin (- 1)), theme = JStr [], wallet_tag = JNum (Fin 0),
                timestamp = JNum (Fin 5)\<rparr>"
  have mx: "MAX_PRICE = Fin 1000000000000000"
    by (simp add: MAX_PRICE_def fl_eval)
  have a: "present (field_errors ?a)
     = [js ''ticker is required'', js ''entry_price must be greater than zero'',
        js ''current_price is required'', js ''theme must be: dark, light, degen'',
        js ''wallet_tag invalid'', js ''timestamp invalid'']"
    by (simp add: field_errors_def string_eval)
  have b: "present (field_errors ?b)
     = [js ''entry_price must be a valid number'', js ''timestamp invalid'']"
    by (simp add: field_errors_def string_eval mx)
  have c: "present (field_errors2 ?c)
     = [js ''ticker must contain A-Z, 0-9, or $'', js ''entry_price must be number'',
        js ''current_price cannot be negative'', js ''timestamp invalid'']"
    by (simp add: field_errors2_def string_eval)
  from C6_validate_collects_all [of ?a] have "validate ?a = present (field_errors ?a)"
    by (rule conjunct1)
  moreover from C6_validate_collects_all [of ?b] have "validate ?b = present (field_errors ?b)"
    by (rule conjunct1)
  moreover from C6_validate_collects_all [of ?c] have "validate2 ?c = present (field_errors2 ?c)"
    by blast
  ultimately show ?thesis unfolding a b c by blast
qed


section \<open>The gain calculator\<close>

text \<open>
  Claim C2.  \<open>calculatePnL\<close> returns the entry-price error exactly when
  \<open>entryPrice <= 0\<close>, tested first; otherwise the current-price error exactly when
  \<open>currentPrice < 0\<close>; otherwise it succeeds, and \<open>isProfit\<close> is \<open>pct >= 0\<close> for the raw
  percentage \<open>pct\<close>.  A zero change counts as profit: equal positive prices give
  \<open>isProfit = true\<close>, as does \<open>(100, 100)\<close>; \<open>(0, 100)\<close> and \<open>(-1, 100)\<close> give the
  entry-price error and \<open>(100, -1)\<close> the current-price error.
\<close>

theorem C2_calculatePnL_errors:
  "(calculatePnL e c = Inl (PnLError (js ''Entry price must be > 0'')) \<longleftrightarrow> num_le e (Fin 0))
   \<and> (calculatePnL e c = Inl (PnLError (js ''Current price cannot be negative''))
        \<longleftrightarrow> \<not> num_le e (Fin 0) \<and> num_lt c (Fin 0))
   \<and> ((\<exists>p. calculatePnL e c = Inr p) \<longleftrightarrow> \<not> num_le e (Fin 0) \<and> \<not> num_lt c (Fin 0))
   \<and> (\<forall>p. calculatePnL e c = Inr p \<longrightarrow> isProfit p = num_ge (raw_pct e c) (Fin 0))
   \<and> (0 < x \<longrightarrow> (\<exists>p. calculatePnL (Fin x) (Fin x) = Inr p \<and> isProfit p))
   \<and> (\<exists>p. calculatePnL (Fin 100) (Fin 100) = Inr p \<and> isProfit p)
   \<and> calculatePnL (Fin 0) (Fin 100) = Inl (PnLError (js ''Entry price must be > 0''))
   \<and> calculatePnL (Fin (- 1)) (Fin 100) = Inl (PnLError (js ''Entry price must be > 0''))
   \<and> calculatePnL (Fin 100) (Fin (- 1)) = Inl (PnLError (js ''Current price cannot be negative''))"
proof -
  have ne: "js ''Entry price must be > 0'' \<noteq> js ''Current price cannot be negative''"
    by (simp add: js_def)
  have same: "0 < y \<Longrightarrow> \<exists>p. calculatePnL (Fin y) (Fin y) = Inr p \<and> isProfit p" for y :: real
    by (simp add: calculatePnL_def pnl_of_def raw_pct_same num_ge_def)
  have "calculatePnL e c = Inl (PnLError (js ''Entry price must be > 0'')) \<longleftrightarrow> num_le e (Fin 0)"
    using ne by (auto simp: calculatePnL_def)
  moreover have "calculatePnL e c = Inl (PnLError (js ''Current price cannot be negative''))
        \<longleftrightarrow> \<not> num_le e (Fin 0) \<and> num_lt c (Fin 0)"
    using ne by (auto simp: calculatePnL_def)
  moreover have "(\<exists>p. calculatePnL e c = Inr p) \<longleftrightarrow> \<not> num_le e (Fin 0) \<and> \<not> num_lt c (Fin 0)"
    by (auto simp: calculatePnL_def)
  moreover have "\<forall>p. calculatePnL e c = Inr p \<longrightarrow> isProfit p = num_ge (raw_pct e c) (Fin 0)"
    by (auto simp: calculatePnL_def pnl_of_def split: if_splits)
  moreover have "\<exists>p. calculatePnL (Fin 100) (Fin 100) = Inr p \<and> isProfit p"
    using same [of 100] by simp
  ultimately show ?thesis using same [of x] by (simp add: calculatePnL_def)
qed

theorem C2_calculatePnL_errors_witness:
  "\<not> num_le (Fin 100) (Fin 0) \<and> \<not> num_lt (Fin 50) (Fin 0)
   \<and> raw_pct (Fin 100) (Fin 50) = Fin (- 50)
   \<and> (\<exists>p. calculatePnL (Fin 100) (Fin 50) = Inr p \<and> isProfit p = False)
   \<and> (0 :: real) < 7 \<and> (\<exists>p. calculatePnL (Fin 7) (Fin 7) = Inr p \<and> isProfit p)"
proof -
  have r: "raw_pct (Fin 100) (Fin 50) = Fin (- 50)"
    by (simp add: raw_pct_def fl_eval)
  from C2_calculatePnL_errors [of "Fin 100" "Fin 50" 7]
  have a: "\<exists>p. calculatePnL (Fin 100) (Fin 50) = Inr p"
    and b: "\<forall>p. calculatePnL (Fin 100) (Fin 50) = Inr p
              \<longrightarrow> isProfit p = num_ge (raw_pct (Fin 100) (Fin 50)) (Fin 0)"
    and c: "\<exists>p. calculatePnL (Fin 7) (Fin 7) = Inr p \<and> isProfit p"
    by simp_all
  from a b have "\<exists>p. calculatePnL (Fin 100) (Fin 50) = Inr p \<and> isProfit p = False"
    unfolding r by (auto simp: num_ge_def)
  with r c show ?thesis by simp
qed

text \<open>
  Claim C1 fails as stated: the field that \<open>calculatePnL\<close> returns is the rounded
  percentage.  For the prices 3 and 4 the quotient \<open>(4 - 3) / 3 * 100\<close> is the binary64
  value \<open>33.33333333333333\<close>, and the returned \<open>percentageGain\<close> is \<open>33.33\<close>.
\<close>

theorem C1_counterexample:
  "calculatePnL (Fin 3) (Fin 4)
     = Inr \<lparr>percentageGain = Fin (2345390243441541 / 70368744177664), isProfit = True,
            formattedGain = js ''+33.3%''\<rparr>
   \<and> fmul (fdiv (fsub (Fin 4) (Fin 3)) (Fin 3)) (Fin 100) = Fin (2345624805922133 / 70368744177664)
   \<and> Fin (2345390243441541 / 70368744177664) \<noteq> Fin (2345624805922133 / 70368744177664)"
proof -
  have r: "raw_pct (Fin 3) (Fin 4) = Fin (2345624805922133 / 70368744177664)"
    by (simp add: raw_pct_def fl_eval)
  have p: "roundPrecision (Fin (2345624805922133 / 70368744177664))
             = Fin (2345390243441541 / 70368744177664)"
    by (simp add: roundPrecision_def num_ge_def fl_eval)
  have f: "formatPct (Fin (2345624805922133 / 70368744177664)) = js ''+33.3%''"
    by (simp add: formatPct_def pct_prefix_def num_ge_def fixed_eval)
  have r': "fmul (fdiv (fsub (Fin 4) (Fin 3)) (Fin 3)) (Fin 100)
              = Fin (2345624805922133 / 70368744177664)"
    using r by (simp add: raw_pct_def)
  show ?thesis
    unfolding r' by (simp add: calculatePnL_def pnl_of_def r p f num_ge_def)
qed

text \<open>
  Claim C1, amended.  For every finite \<open>entryPrice > 0\<close> and \<open>currentPrice >= 0\<close>,
  \<open>calculatePnL\<close> succeeds and its \<open>percentageGain\<close> is \<open>roundPrecision\<close> of
  \<open>(currentPrice - entryPrice) / entryPrice * 100\<close>, each of the three operations rounded
  to binary64.
\<close>

theorem C1_percentageGain_rounded:
  assumes "0 < e" "0 \<le> c"
  shows "\<exists>p. calculatePnL (Fin e) (Fin c) = Inr p
           \<and> percentageGain p
               = roundPrecision (fmul (fdiv (fsub (Fin c) (Fin e)) (Fin e)) (Fin 100))"
  using assms by (simp add: calculatePnL_def pnl_of_def raw_pct_def)

theorem C1_percentageGain_rounded_witness:
  "(0 :: real) < 100 \<and> (0 :: real) \<le> 150
   \<and> fmul (fdiv (fsub (Fin 150) (Fin 100)) (Fin 100)) (Fin 100) = Fin 50
   \<and> (\<exists>p. calculatePnL (Fin 100) (Fin 150) = Inr p \<and> percentageGain p = Fin 50)"
proof -
  have r: "fmul (fdiv (fsub (Fin 150) (Fin 100)) (Fin 100)) (Fin 100) = Fin 50"
    by (simp add: fl_eval)
  have p: "roundPrecision (Fin 50) = Fin 50"
    by (simp add: roundPrecision_def num_ge_def fl_eval)
  from C1_percentageGain_rounded [of 100 150] show ?thesis
    unfolding r p by simp
qed

text \<open>
  Claim C10.  \<open>isProfit\<close> follows the sign of the raw percentage and \<open>percentageGain\<close> is
  the rounded value, so the two can disagree: for the valid prices \<open>1048576\<close> and
  \<open>1048575.875\<close> the raw percentage is \<open>-25 / 2097152\<close>, about \<open>-0.0000119\<close>, and the
  result has \<open>isProfit = false\<close> with \<open>percentageGain\<close> zero (the model does not tell
  \<open>-0\<close> from \<open>0\<close>); the same holds for \<open>100\<close> and \<open>99.99999\<close>.
\<close>

theorem C10_sign_disagreement:
  "(0 :: real) < 1048576 \<and> (0 :: real) \<le> 8388607 / 8
   \<and> raw_pct (Fin 1048576) (Fin (8388607 / 8)) = Fin (- (25 / 2097152))
   \<and> calculatePnL (Fin 1048576) (Fin (8388607 / 8))
       = Inr \<lparr>percentageGain = Fin 0, isProfit = False, formattedGain = js ''-0.0000%''\<rparr>
   \<and> calculatePnL (Fin 100) (fl (9999999 / 100000))
       = Inr \<lparr>percentageGain = Fin 0, isProfit = False, formattedGain = js ''-0.0000%''\<rparr>"
proof -
  have r1: "raw_pct (Fin 1048576) (Fin (8388607 / 8)) = Fin (- (25 / 2097152))"
    by (simp add: raw_pct_def fl_eval)
  have r2: "roundPrecision (Fin (- (25 / 2097152))) = Fin 0"
    by (simp add: roundPrecision_def num_ge_def fl_eval)
  have r3: "formatPct (Fin (- (25 / 2097152))) = js ''-0.0000%''"
    by (simp add: formatPct_def pct_prefix_def num_ge_def fixed_eval)
  have l: "fl (9999999 / 100000) = Fin (3518436857039479 / 35184372088832)"
    by (simp add: fl_eval)
  have s1: "raw_pct (Fin 100) (Fin (3518436857039479 / 35184372088832))
              = Fin (- (351843721 / 35184372088832))"
    by (simp add: raw_pct_def fl_eval)
  have s2: "roundPrecision (Fin (- (351843721 / 35184372088832))) = Fin 0"
    by (simp add: roundPrecision_def num_ge_def fl_eval)
  have s3: "formatPct (Fin (- (351843721 / 35184372088832))) = js ''-0.0000%''"
    by (simp add: formatPct_def pct_prefix_def num_ge_def fixed_eval)
  show ?thesis
    by (simp add: calculatePnL_def pnl_of_def r1 r2 r3 l s1 s2 s3 num_ge_def)
qed


lemma fmul_finite: "\<bar>a * b\<bar> \<le> 2 ^ 1023 \<Longrightarrow> \<exists>w. fmul (Fin a) (Fin b) = Fin w"
  using fl_finite [of "a * b"] by simp



section \<open>The request handler\<close>

lemma validate_nil:
  "validate b = [] \<longleftrightarrow>
     check_ticker b [] = [] \<and> check_entry_price b [] = [] \<and> check_current_price b [] = []
     \<and> check_theme b [] = [] \<and> check_wallet_tag b [] = [] \<and> check_timestamp b [] = []"
  by (simp add: validate_append)

lemma check_entry_price_ok:
  assumes "check_entry_price b [] = []"
  shows "\<exists>e. entry_price b = JNum (Fin e) \<and> 0 < e"
proof (cases "entry_price b")
  case (JNum x)
  with assms show ?thesis
    by (cases x) (auto simp: check_entry_price_def split: if_splits)
qed (use assms in \<open>auto simp: check_entry_price_def split: if_splits\<close>)

lemma check_current_price_ok:
  assumes "check_current_price b [] = []"
  shows "\<exists>c. current_price b = JNum (Fin c) \<and> 0 \<le> c"
proof (cases "current_price b")
  case (JNum x)
  with assms show ?thesis
    by (cases x) (auto simp: check_current_price_def split: if_splits)
qed (use assms in \<open>auto simp: check_current_price_def split: if_splits\<close>)

lemma handle_valid:
  assumes "validate b = []"
  shows "\<exists>p. handle renderCard now b = respond renderCard (cardData_of now b p) (theme_of b)"
proof -
  from assms obtain e c where "entry_price b = JNum (Fin e)" "0 < e"
    "current_price b = JNum (Fin c)" "0 \<le> c"
    using check_entry_price_ok check_current_price_ok unfolding validate_nil by blast
  then show ?thesis using assms
    by (intro exI [of _ "pnl_of (raw_pct (Fin e) (Fin c))"]) (simp add: handle_def calculatePnL_def)
qed

lemma upper_unit_ascii:
  assumes "c < 0x80" "\<not> is_lower c"
  shows "upper_unit c = [c]"
proof -
  have "c \<noteq> 0xDF" "c \<noteq> 0x131" "c \<noteq> 0x17F" "c \<noteq> 0x149" "c \<noteq> 0x1F0" "c \<noteq> 0x1E96"
    "c \<noteq> 0x1E97" "c \<noteq> 0x1E98" "c \<noteq> 0x1E99" "c \<noteq> 0x1E9A" "c \<noteq> 0xFB00" "c \<noteq> 0xFB01"
    "c \<noteq> 0xFB02" "c \<noteq> 0xFB03" "c \<noteq> 0xFB04" "c \<noteq> 0xFB05" "c \<noteq> 0xFB06"
    using assms(1) by auto
  then show ?thesis using assms(2) by (simp add: upper_unit_def)
qed

lemma ascii_no_ticker_char:
  assumes "list_all (\<lambda>c. c < 0x80 \<and> \<not> is_upper c \<and> \<not> is_lower c \<and> \<not> is_digit c \<and> c \<noteq> 0x24) s"
  shows "list_all (\<lambda>c. \<not> is_ticker_char c) (toUpperCase s)"
  using assms
  by (induction s) (auto simp: toUpperCase_def upper_unit_ascii is_ticker_char_def)

lemma sanitizeTicker_empty:
  assumes "list_all (\<lambda>c. \<not> is_ticker_char c) (toUpperCase s)"
  shows "sanitizeTicker (JStr s) = []"
proof -
  have "filter is_ticker_char (toUpperCase s) = []"
    using assms by (simp add: filter_empty_conv list_all_iff)
  then show ?thesis by (simp add: slice0_def)
qed

lemma check_ticker2_empty:
  assumes "ticker b = JStr s" "trim s \<noteq> []" "sanitizeTicker (JStr s) = []"
  shows "check_ticker2 b [] = [js ''ticker must contain A-Z, 0-9, or $'']"
proof -
  have "s \<noteq> []" using assms(2) by (auto simp: trim_def)
  then show ?thesis using assms by (simp add: check_ticker2_def)
qed

text \<open>
  Claim C9 fails as stated, on two counts.  Upper-casing can create letters: the
  one-character ticker \<open>U+00DF\<close> (sharp s) is not blank, is no longer than 20 and has
  no character of \<open>[A-Za-z0-9$]\<close>; its upper case is \<open>SS\<close>, so the request is accepted by
  \<open>cardRoutes.ts\<close> and the card's \<open>tokenSymbol\<close> is \<open>SS\<close>, not the empty string.  And the
  second revision of the router, the one that \<open>tests/api.test.ts\<close> runs against, does
  validate the sanitized ticker: the ticker \<open>!@#\<close> of that test is refused with
  \<open>ticker must contain A-Z, 0-9, or $\<close>.
\<close>

theorem C9_counterexample:
  "trim [0xDF] \<noteq> [] \<and> length [0xDF :: codeunit] \<le> 20
   \<and> list_all (\<lambda>c. \<not> (is_upper c \<or> is_lower c \<or> is_digit c \<or> c = 0x24)) [0xDF]
   \<and> validate \<lparr>ticker = JStr [0xDF], entry_price = JNum (Fin 100),
                current_price = JNum (Fin 150), theme = Undefined, wallet_tag = Undefined,
                timestamp = Undefined\<rparr> = []
   \<and> handle (\<lambda>d t. Some []) []
        \<lparr>ticker = JStr [0xDF], entry_price = JNum (Fin 100),
         current_price = JNum (Fin 150), theme = Undefined, wallet_tag = Undefined,
         timestamp = Undefined\<rparr>
       = Success [] \<lparr>meta_ticker = js ''SS'', gain_percentage = Fin 50,
                     formatted_gain = js ''+50.0%'', is_profit = True, meta_theme = js ''dark''\<rparr>
   \<and> trim (js ''!@#'') \<noteq> [] \<and> length (js ''!@#'') \<le> 20
   \<and> list_all (\<lambda>c. \<not> (is_upper c \<or> is_lower c \<or> is_digit c \<or> c = 0x24)) (js ''!@#'')
   \<and> validate2 \<lparr>ticker = JStr (js ''!@#''), entry_price = JNum (Fin 100),
                 current_price = JNum (Fin 200), theme = Undefined, wallet_tag = Undefined,
                 timestamp = Undefined\<rparr> = [js ''ticker must contain A-Z, 0-9, or $'']
   \<and> handle2 (\<lambda>d t. Some []) []
        \<lparr>ticker = JStr (js ''!@#''), entry_price = JNum (Fin 100),
         current_price = JNum (Fin 200), theme = Undefined, wallet_tag = Undefined,
         timestamp = Undefined\<rparr>
       = ValidationFailed [js ''ticker must contain A-Z, 0-9, or $'']"
proof -
  let ?b = "\<lparr>ticker = JStr [0xDF], entry_price = JNum (Fin 100),
                current_price = JNum (Fin 150), theme = Undefined, wallet_tag = Undefined,
                timestamp = Undefined\<rparr>"
  let ?c = "\<lparr>ticker = JStr (js ''!@#''), entry_price = JNum (Fin 100),
                 current_price = JNum (Fin 200), theme = Undefined, wallet_tag = Undefined,
                 timestamp = Undefined\<rparr>"
  have mn: "MIN_PRICE = Fin (6646139978924579 / 664613997892457936451903530140172288)"
    by (simp add: MIN_PRICE_def fl_eval)
  have mx: "MAX_PRICE = Fin 1000000000000000"
    by (simp add: MAX_PRICE_def fl_eval)
  have v: "validate ?b = []"
    by (simp add: validate_def check_defs mn mx string_eval)
  have r: "raw_pct (Fin 100) (Fin 150) = Fin 50" by (simp add: raw_pct_def fl_eval)
  have p: "roundPrecision (Fin 50) = Fin 50" by (simp add: roundPrecision_def num_ge_def fl_eval)
  have f: "formatPct (Fin 50) = js ''+50.0%''"
    by (simp add: formatPct_def pct_prefix_def num_ge_def fixed_eval)
  have t: "sanitizeTicker (JStr [0xDF]) = js ''SS''" by (simp add: string_eval)
  have h: "handle (\<lambda>d t. Some []) [] ?b
       = Success [] \<lparr>meta_ticker = js ''SS'', gain_percentage = Fin 50,
                     formatted_gain = js ''+50.0%'', is_profit = True, meta_theme = js ''dark''\<rparr>"
    using t
    by (simp add: handle_def v calculatePnL_def pnl_of_def r p f respond_def cardData_of_def
        theme_of_def num_ge_def)
  have a1: "trim [0xDF] \<noteq> []" by (simp add: string_eval)
  have a2: "list_all (\<lambda>c. \<not> (is_upper c \<or> is_lower c \<or> is_digit c \<or> c = 0x24)) [0xDF]"
    by (simp add: string_eval)
  have b1: "trim (js ''!@#'') \<noteq> []" by (simp add: string_eval)
  have b2: "length (js ''!@#'') \<le> 20" by (simp add: js_def)
  have b3: "list_all (\<lambda>c. \<not> (is_upper c \<or> is_lower c \<or> is_digit c \<or> c = 0x24)) (js ''!@#'')"
    by (simp add: string_eval)
  have v2: "validate2 ?c = [js ''ticker must contain A-Z, 0-9, or $'']"
    by (simp add: validate2_def check2_defs mn mx string_eval)
  have h2: "handle2 (\<lambda>d t. Some []) [] ?c
       = ValidationFailed [js ''ticker must contain A-Z, 0-9, or $'']"
    by (simp add: handle2_def v2)
  have a3: "length [0xDF :: codeunit] \<le> 20" by simp
  show ?thesis by (intro conjI a1 a2 a3 v h b1 b2 b3 v2 h2)
qed

text \<open>
  Claim C9, amended.  What happens to a ticker that \<open>sanitizeTicker\<close> empties depends
  on the revision of the router.  For every ticker string that is not blank after
  trimming, has at most 20 code units and is emptied by \<open>sanitizeTicker\<close> (every string
  of ASCII characters outside \<open>[A-Za-z0-9$]\<close> is, for instance \<open>!!!\<close>): the \<open>validate\<close> of
  \<open>cardRoutes.ts\<close> reports no ticker error, and when the other fields are valid the
  handler goes on to render with \<open>tokenSymbol\<close> the empty string; the \<open>validate\<close> of the
  second revision reports \<open>ticker must contain A-Z, 0-9, or $\<close>, and its handler answers
  with the validation errors.
\<close>

theorem C9_empty_ticker_by_revision:
  assumes "ticker b = JStr s" "trim s \<noteq> []" "length s \<le> 20"
    and "sanitizeTicker (JStr s) = []"
  shows "check_ticker b [] = []
    \<and> (validate b = [] \<longrightarrow>
         (\<exists>cd. tokenSymbol cd = []
            \<and> handle renderCard now b = respond renderCard cd (theme_of b)))
    \<and> check_ticker2 b [] = [js ''ticker must contain A-Z, 0-9, or $'']
    \<and> js ''ticker must contain A-Z, 0-9, or $'' \<in> set (validate2 b)
    \<and> handle2 renderCard now b = ValidationFailed (validate2 b)
    \<and> (\<forall>t. list_all (\<lambda>c. c < 0x80 \<and> \<not> is_upper c \<and> \<not> is_lower c \<and> \<not> is_digit c \<and> c \<noteq> 0x24) t
          \<longrightarrow> sanitizeTicker (JStr t) = [])"
proof -
  have s0: "s \<noteq> []" using assms(2) by (auto simp: trim_def)
  have 1: "check_ticker b [] = []"
    using assms s0 by (simp add: check_ticker_def)
  have 2: "sanitizeTicker (ticker b) = []"
    using assms by simp
  have 3: "validate b = [] \<longrightarrow>
         (\<exists>cd. tokenSymbol cd = []
            \<and> handle renderCard now b = respond renderCard cd (theme_of b))"
  proof
    assume "validate b = []"
    from handle_valid [OF this, of renderCard now] obtain p
      where "handle renderCard now b = respond renderCard (cardData_of now b p) (theme_of b)" ..
    moreover have "tokenSymbol (cardData_of now b p) = []"
      using 2 by (simp add: cardData_of_def)
    ultimately show "\<exists>cd. tokenSymbol cd = []
            \<and> handle renderCard now b = respond renderCard cd (theme_of b)" by blast
  qed
  have 4: "check_ticker2 b [] = [js ''ticker must contain A-Z, 0-9, or $'']"
    using assms(1,2,4) by (rule check_ticker2_empty)
  have 5: "js ''ticker must contain A-Z, 0-9, or $'' \<in> set (validate2 b)"
    unfolding validate2_append 4 by simp
  then have "validate2 b \<noteq> []" by auto
  then have 6: "handle2 renderCard now b = ValidationFailed (validate2 b)"
    by (simp add: handle2_def)
  have 7: "\<forall>t. list_all (\<lambda>c. c < 0x80 \<and> \<not> is_upper c \<and> \<not> is_lower c \<and> \<not> is_digit c \<and> c \<noteq> 0x24) t
          \<longrightarrow> sanitizeTicker (JStr t) = []"
    using ascii_no_ticker_char sanitizeTicker_empty by blast
  show ?thesis by (intro conjI 1 3 4 5 6 7)
qed

theorem C9_empty_ticker_by_revision_witness:
  "trim (js ''!!!'') \<noteq> [] \<and> length (js ''!!!'') \<le> 20
   \<and> sanitizeTicker (JStr (js ''!!!'')) = []
   \<and> validate \<lparr>ticker = JStr (js ''!!!''), entry_price = JNum (Fin 100),
                current_price = JNum (Fin 150), theme = Undefined, wallet_tag = Undefined,
                timestamp = Undefined\<rparr> = []
   \<and> handle (\<lambda>d t. Some (tokenSymbol d)) []
        \<lparr>ticker = JStr (js ''!!!''), entry_price = JNum (Fin 100),
         current_price = JNum (Fin 150), theme = Undefined, wallet_tag = Undefined,
         timestamp = Undefined\<rparr>
       = Success [] \<lparr>meta_ticker = [], gain_percentage = Fin 50,
                     formatted_gain = js ''+50.0%'', is_profit = True, meta_theme = js ''dark''\<rparr>
   \<and> validate2 \<lparr>ticker = JStr (js ''!!!''), entry_price = JNum (Fin 100),
                 current_price = JNum (Fin 150), theme = Undefined, wallet_tag = Undefined,
                 timestamp = Undefined\<rparr> = [js ''ticker must contain A-Z, 0-9, or $'']
   \<and> handle2 (\<lambda>d t. Some (tokenSymbol d)) []
        \<lparr>ticker = JStr (js ''!!!''), entry_price = JNum (Fin 100),
         current_price = JNum (Fin 150), theme = Undefined, wallet_tag = Undefined,
         timestamp = Undefined\<rparr>
       = ValidationFailed [js ''ticker must contain A-Z, 0-9, or $'']"
proof -
  let ?b = "\<lparr>ticker = JStr (js ''!!!''), entry_price = JNum (Fin 100),
                current_price = JNum (Fin 150), theme = Undefined, wallet_tag = Undefined,
                timestamp = Undefined\<rparr>"
  let ?r = "\<lambda>(d :: CardData) (t :: jsstring). Some (tokenSymbol d)"
  have mn: "MIN_PRICE = Fin (6646139978924579 / 664613997892457936451903530140172288)"
    by (simp add: MIN_PRICE_def fl_eval)
  have mx: "MAX_PRICE = Fin 1000000000000000"
    by (simp add: MAX_PRICE_def fl_eval)
  have a: "trim (js ''!!!'') \<noteq> []" by (simp add: string_eval)
  have l: "length (js ''!!!'') \<le> 20" by (simp add: js_def)
  have n: "sanitizeTicker (JStr (js ''!!!'')) = []" by (simp add: string_eval)
  have v: "validate ?b = []"
    by (simp add: validate_def check_defs mn mx string_eval)
  have r: "raw_pct (Fin 100) (Fin 150) = Fin 50" by (simp add: raw_pct_def fl_eval)
  have p: "roundPrecision (Fin 50) = Fin 50" by (simp add: roundPrecision_def num_ge_def fl_eval)
  have f: "formatPct (Fin 50) = js ''+50.0%''"
    by (simp add: formatPct_def pct_prefix_def num_ge_def fixed_eval)
  have t: "ticker ?b = JStr (js ''!!!'')" by simp
  note w = C9_empty_ticker_by_revision [of ?b "js ''!!!''" ?r "[]", OF t a l n]
  from w [THEN conjunct2, THEN conjunct1] v
  obtain cd where cd: "tokenSymbol cd = []" "handle ?r [] ?b = respond ?r cd (theme_of ?b)"
    by blast
  have "handle ?r [] ?b = respond ?r (cardData_of [] ?b (pnl_of (Fin 50))) (theme_of ?b)"
    by (simp add: handle_def v calculatePnL_def r)
  with cd have "respond ?r cd (theme_of ?b)
                 = respond ?r (cardData_of [] ?b (pnl_of (Fin 50))) (theme_of ?b)" by simp
  then have "tokenSymbol (cardData_of [] ?b (pnl_of (Fin 50))) = []"
    using cd(1) by (simp add: respond_def)
  then have h: "handle ?r [] ?b
       = Success [] \<lparr>meta_ticker = [], gain_percentage = Fin 50,
                     formatted_gain = js ''+50.0%'', is_profit = True, meta_theme = js ''dark''\<rparr>"
    by (simp add: handle_def v calculatePnL_def pnl_of_def r p f respond_def cardData_of_def
        theme_of_def num_ge_def)
  have c2: "check_ticker2 ?b [] = [js ''ticker must contain A-Z, 0-9, or $'']"
    by (rule w [THEN conjunct2, THEN conjunct2, THEN conjunct1])
  have v2: "validate2 ?b = [js ''ticker must contain A-Z, 0-9, or $'']"
    unfolding validate2_append c2 by (simp add: check2_defs mn mx)
  have h2: "handle2 ?r [] ?b = ValidationFailed [js ''ticker must contain A-Z, 0-9, or $'']"
    using w [THEN conjunct2, THEN conjunct2, THEN conjunct2, THEN conjunct2, THEN conjunct1]
    unfolding v2 .
  show ?thesis by (intro conjI a l n v h v2 h2)
qed


section \<open>The percentage formatter\<close>

lemmas tostring_eval = toString_pos_def shortest_def pick_k_def pick_def render_val_def
  render_at_def render_num_def render_sci_def sig_digits_def strip_zeros_def exp_part_def

lemma fl_ge_one_Fin:
  assumes "1 \<le> x" "fl x = Fin q"
  shows "1 \<le> q \<and> q \<le> x + x / 2 ^ 53"
proof -
  from fl_ge_one [OF assms(1)] obtain r
    where r: "fl x = (if 2 ^ 1024 \<le> r then PInf else Fin r)" "1 \<le> r" "r \<le> x + x / 2 ^ 53"
    by blast
  with assms(2) have "q = r" by (auto split: if_splits)
  with r show ?thesis by simp
qed

lemma pad_fixed_length: "f < length (pad_fixed m f)"
  by (simp add: pad_fixed_def)

lemma pad_fixed_digits: "list_all is_digit m \<Longrightarrow> list_all is_digit (pad_fixed m f)"
  by (simp add: pad_fixed_def is_digit_def list_all_iff)

lemma point_fixed_decimal:
  assumes "f < length m" "list_all is_digit m"
  shows "is_decimal f (point_fixed m f)"
proof -
  let ?s = "point_fixed m f"
  have len: "length ?s = length m + 1" using assms(1) by (simp add: point_fixed_def js_def)
  have k: "length ?s - f - 1 = length m - f" using len assms(1) by simp
  have k': "length ?s - f = length m - f + 1" using len assms(1) by simp
  have a: "take (length m - f) ?s = take (length m - f) m"
    by (simp add: point_fixed_def)
  have b: "?s ! (length m - f) = 0x2E"
    using assms(1) by (simp add: point_fixed_def js_def nth_append)
  have c: "drop (length m - f + 1) ?s = drop (length m - f) m"
    using assms(1) by (simp add: point_fixed_def js_def)
  have "list_all is_digit (take (length m - f) m)" "list_all is_digit (drop (length m - f) m)"
    using assms(2) by (auto simp: list_all_iff dest: in_set_takeD in_set_dropD)
  then show ?thesis
    unfolding is_decimal_def k k' using a b c len assms(1) by simp
qed

lemma fixed_digits_decimal: "0 < f \<Longrightarrow> is_decimal f (fixed_digits n f)"
  using point_fixed_decimal [OF pad_fixed_length pad_fixed_digits [OF digits_all]]
  by (simp add: fixed_digits_def)

lemma fixed_abs_small: "x < 10 ^ 21 \<Longrightarrow> fixed_abs x f = fixed_digits (nat \<lfloor>x * 10 ^ f + 1 / 2\<rfloor>) f"
  by (simp add: fixed_abs_def)

text \<open>The prefix and the sign that \<open>toFixed\<close> prints make one sign character.\<close>

lemma prefix_toFixed:
  assumes "\<bar>w\<bar> < 10 ^ 21" "0 \<le> v \<longleftrightarrow> 0 \<le> w" "w \<noteq> 0 \<or> 0 \<le> v"
  shows "pct_prefix (Fin v) @ toFixed (Fin w) f
           = sign_char v # fixed_digits (nat \<lfloor>\<bar>w\<bar> * 10 ^ f + 1 / 2\<rfloor>) f"
proof (cases "0 \<le> v")
  case True
  with assms have "0 \<le> w" "w < 10 ^ 21" by auto
  with True show ?thesis
    by (simp add: pct_prefix_def num_ge_def sign_char_def js_def fixed_abs_small)
next
  case False
  with assms have "w < 0" "- w < 10 ^ 21" by auto
  with False show ?thesis
    by (simp add: pct_prefix_def num_ge_def sign_char_def js_def fixed_abs_small)
qed

lemma fdiv_abs:
  assumes "0 < k" "fdiv (Fin \<bar>v\<bar>) (Fin k) = Fin q"
  shows "fdiv (Fin v) (Fin k) = Fin (if 0 \<le> v then q else - q)"
proof (cases "0 \<le> v")
  case True
  with assms show ?thesis by simp
next
  case False
  then have "v / k = - (\<bar>v\<bar> / k)" by simp
  then have "fl (v / k) = num_neg (fl (\<bar>v\<bar> / k))" by (simp only: fl_neg)
  with assms False show ?thesis by simp
qed

lemma tier_quotient:
  assumes k: "0 < k" and big: "k \<le> \<bar>v\<bar>" and q: "fdiv (Fin \<bar>v\<bar>) (Fin k) = Fin q" "q < 10 ^ 21"
  shows "pct_prefix (Fin v) @ toFixed (fdiv (Fin v) (Fin k)) f
           = sign_char v # fixed_digits (nat \<lfloor>q * 10 ^ f + 1 / 2\<rfloor>) f"
proof -
  have "1 \<le> \<bar>v\<bar> / k" using k big by simp
  moreover have "fl (\<bar>v\<bar> / k) = Fin q" using q(1) k by simp
  ultimately have q1: "1 \<le> q" using fl_ge_one_Fin by blast
  define w where "w = (if 0 \<le> v then q else - q)"
  have w: "fdiv (Fin v) (Fin k) = Fin w" unfolding w_def by (rule fdiv_abs [OF k q(1)])
  have "\<bar>w\<bar> = q" "0 \<le> v \<longleftrightarrow> 0 \<le> w" "w \<noteq> 0" using q1 by (auto simp: w_def)
  with prefix_toFixed [of w v f] q(2) show ?thesis unfolding w by simp
qed

lemma quotient_finite:
  assumes "0 < k" "k \<le> x" "x / k \<le> 2 ^ 1023"
  shows "\<exists>q. fdiv (Fin x) (Fin k) = Fin q \<and> q \<le> x / k + x / k / 2 ^ 53"
proof -
  have "1 \<le> x / k" using assms by simp
  from fl_pos_finite [of "x / k"] this assms(3) obtain r
    where "fl (x / k) = Fin r" "r \<le> x / k + x / k / 2 ^ 53 + 1 / 2 ^ 53" by auto
  moreover from fl_ge_one_Fin [OF \<open>1 \<le> x / k\<close> this(1)] have "r \<le> x / k + x / k / 2 ^ 53" by simp
  ultimately show ?thesis using assms(1) by simp
qed


text \<open>
  The shortest decimal of an integer below \<open>2 ^ 52\<close> is the integer itself: every
  candidate with fewer digits is another integer, which is a binary64 value of its own.
\<close>

lemma pick_exact:
  assumes "fl x = Fin x" "0 < u" "of_int s * u = x"
  shows "pick x u s = Some x"
proof -
  have "of_int (s + 1) * u = x + u" using assms(3) by (simp add: algebra_simps)
  then show ?thesis using assms by (simp add: pick_def)
qed

lemma pick_grid:
  assumes "fl (of_int s * u) = Fin (of_int s * u)"
    and "fl (of_int (s + 1) * u) = Fin (of_int (s + 1) * u)"
  shows "pick x u s = None \<or> pick x u s = Some x"
  unfolding pick_def assms by auto

lemma shortest_k_fix:
  assumes "\<And>k. k \<in> set ks \<Longrightarrow> pick_k x n k = None \<or> pick_k x n k = Some x"
  shows "shortest_k x n ks = x"
  using assms
proof (induction ks)
  case Nil
  then show ?case by simp
next
  case (Cons k ks)
  from Cons.prems [of k] have "pick_k x n k = None \<or> pick_k x n k = Some x" by simp
  moreover have "shortest_k x n ks = x" using Cons.prems by (intro Cons.IH) simp
  ultimately show ?case by auto
qed

lemma pick_k_int:
  assumes N: "0 < N" "N < 2 ^ 52" and k: "1 \<le> k"
  shows "pick_k (of_int N) (ilog 10 (of_int N) + 1) k = None
         \<or> pick_k (of_int N) (ilog 10 (of_int N) + 1) k = Some (of_int N)"
proof -
  define x :: real where "x = of_int N"
  have x1: "1 \<le> x" using N by (simp add: x_def)
  define g where "g = ilog_up 10 x"
  have il: "ilog 10 x = g" using x1 by (simp add: ilog_def g_def)
  from ilog_up_bounds [of 10 x] x1
  have g0: "0 \<le> g" and lo: "10 powi g \<le> x" unfolding g_def by auto
  have flx: "fl x = Fin x" unfolding x_def using N by (intro fl_int) auto
  show ?thesis
  proof (cases "int k \<le> g + 1")
    case True
    define d where "d = nat (g + 1 - int k)"
    have dg: "int d \<le> g" using True k by (simp add: d_def)
    have u: "ipow 10 (g + 1 - int k) = of_int (10 ^ d)"
      using True by (simp add: ipow_def d_def)
    have "(10 :: real) ^ d \<le> 10 ^ nat g" using dg by (intro power_increasing) auto
    also have "\<dots> = 10 powi g" using g0 by (simp add: power_int_def)
    finally have "(10 :: real) ^ d \<le> x" using lo by linarith
    then have "real_of_int (10 ^ d) \<le> real_of_int N"
      unfolding x_def by (simp only: of_int_power of_int_numeral)
    then have dN: "10 ^ d \<le> N" by (simp only: of_int_le_iff)
    define s where "s = \<lfloor>x / of_int (10 ^ d)\<rfloor>"
    have p0: "(0 :: real) < of_int (10 ^ d)" by simp
    have "0 \<le> x / of_int (10 ^ d)" using x1 by simp
    then have s0: "0 \<le> s" unfolding s_def by simp
    have "of_int s \<le> x / of_int (10 ^ d)" unfolding s_def by simp
    then have "of_int s * of_int (10 ^ d) \<le> x" using p0 by (simp add: field_simps)
    then have "(of_int (s * 10 ^ d) :: real) \<le> of_int N" by (simp add: x_def)
    then have sN: "s * 10 ^ d \<le> N" by (simp only: of_int_le_iff)
    have a: "fl (of_int s * of_int (10 ^ d)) = Fin (of_int s * of_int (10 ^ d))"
    proof -
      have "fl (of_int (s * 10 ^ d)) = Fin (of_int (s * 10 ^ d))"
        using s0 sN N by (intro fl_int) auto
      then show ?thesis by simp
    qed
    have b: "fl (of_int (s + 1) * of_int (10 ^ d)) = Fin (of_int (s + 1) * of_int (10 ^ d))"
    proof -
      have "(s + 1) * 10 ^ d = s * 10 ^ d + 10 ^ d" by (simp add: algebra_simps)
      then have "(s + 1) * 10 ^ d \<le> N + N" using sN dN by linarith
      then have "(s + 1) * 10 ^ d < 2 ^ 53" using N by simp
      moreover have "0 \<le> (s + 1) * 10 ^ d" using s0 by simp
      ultimately have "fl (of_int ((s + 1) * 10 ^ d)) = Fin (of_int ((s + 1) * 10 ^ d))"
        by (intro fl_int) auto
      then show ?thesis by simp
    qed
    from pick_grid [OF a b, of x] show ?thesis
      unfolding pick_k_def il x_def [symmetric] u s_def .
  next
    case False
    define d where "d = nat (int k - (g + 1))"
    have u: "ipow 10 (g + 1 - int k) = 1 / 10 ^ d"
      using False by (simp add: ipow_def d_def)
    have q: "x / (1 / 10 ^ d) = of_int (N * 10 ^ d)" by (simp add: x_def)
    have "pick x (1 / 10 ^ d) (N * 10 ^ d) = Some x"
      using flx by (intro pick_exact) (simp_all add: x_def)
    moreover have "\<lfloor>x / (1 / 10 ^ d)\<rfloor> = N * 10 ^ d" unfolding q by (rule floor_of_int)
    ultimately have "pick_k x (g + 1) k = Some x" unfolding pick_k_def u by (simp only:)
    then show ?thesis unfolding x_def [symmetric] il by simp
  qed
qed

lemma shortest_int:
  assumes "0 < N" "N < 2 ^ 52"
  shows "shortest (of_int N) = of_int N"
  unfolding shortest_def
proof (rule shortest_k_fix)
  fix k :: nat
  assume "k \<in> set [1, 2, 3, 4, 5, 6, 7, 8, 9, 10, 11, 12, 13, 14, 15, 16, 17]"
  then have "1 \<le> k" by auto
  from pick_k_int [OF assms this]
  show "pick_k (of_int N) (ilog 10 (of_int N) + 1) k = None
         \<or> pick_k (of_int N) (ilog 10 (of_int N) + 1) k = Some (of_int N)" .
qed

lemma floor_int_half: "\<lfloor>of_int k * 1000 + 1 / 2 :: real\<rfloor> = k * 1000"
proof -
  have "of_int k * 1000 + 1 / 2 = (of_int (k * 1000) :: real) + 1 / 2" by simp
  also have "\<lfloor>\<dots>\<rfloor> = k * 1000" by linarith
  finally show ?thesis .
qed

lemma locale_int:
  assumes "\<bar>n\<bar> < 2 ^ 52"
  shows "toLocaleString (Fin (of_int n)) 3
           = (if n < 0 then js ''-'' else []) @ group3 (digits (nat \<bar>n\<bar>))"
proof (cases "n = 0")
  case True
  then show ?thesis by (simp add: locale_abs_def group3.simps digits.simps digit_char_def js_def)
next
  case False
  then have "0 < \<bar>n\<bar>" by simp
  from shortest_int [OF this assms] have s: "shortest \<bar>of_int n\<bar> = of_int \<bar>n\<bar>" by simp
  have "\<lfloor>(of_int \<bar>n\<bar> :: real) * 10 ^ 3 + 1 / 2\<rfloor> = \<bar>n\<bar> * 1000"
    using floor_int_half [of "\<bar>n\<bar>"] by simp
  then have "nat \<lfloor>(of_int \<bar>n\<bar> :: real) * 10 ^ 3 + 1 / 2\<rfloor> = nat \<bar>n\<bar> * 1000"
    by (simp add: nat_mult_distrib)
  then show ?thesis using False unfolding toLocaleString.simps locale_abs_def s
    by (simp add: locale_digits_def)
qed

lemma tier_grouped:
  assumes "1000 \<le> \<bar>v\<bar>" "\<bar>v\<bar> < 10000"
  shows "pct_prefix (Fin v) @ toLocaleString (Math_round (Fin v)) 3
           = sign_char v # group3 (digits (nat \<bar>\<lfloor>v + 1 / 2\<rfloor>\<bar>))"
proof -
  have r: "Math_round (Fin v) = Fin (of_int \<lfloor>v + 1 / 2\<rfloor>)" by simp
  have "\<bar>\<lfloor>v + 1 / 2\<rfloor>\<bar> \<le> 10000" using assms(2) by linarith
  then have b: "\<bar>\<lfloor>v + 1 / 2\<rfloor>\<bar> < 2 ^ 52" by simp
  show ?thesis
  proof (cases "0 \<le> v")
    case True
    then have "0 \<le> \<lfloor>v + 1 / 2\<rfloor>" by linarith
    with True show ?thesis
      unfolding r locale_int [OF b]
      by (simp add: pct_prefix_def num_ge_def sign_char_def js_def)
  next
    case False
    with assms have "v \<le> - 1000" by linarith
    then have "\<lfloor>v + 1 / 2\<rfloor> < 0" by linarith
    with False show ?thesis
      unfolding r locale_int [OF b]
      by (simp add: pct_prefix_def num_ge_def sign_char_def js_def)
  qed
qed

lemma tier_fixed:
  assumes "\<bar>v\<bar> < 1000"
  shows "pct_prefix (Fin v) @ toFixed (Fin v) f
           = sign_char v # fixed_digits (nat \<lfloor>\<bar>v\<bar> * 10 ^ f + 1 / 2\<rfloor>) f"
proof -
  have "\<bar>v\<bar> < 10 ^ 21" using assms by simp
  moreover have "v \<noteq> 0 \<or> 0 \<le> v" by auto
  ultimately show ?thesis using prefix_toFixed [of v v f] by simp
qed

text \<open>
  The tiers of \<open>formatPct\<close>.  For every finite percentage \<open>v\<close> the display string starts
  with a sign, \<open>+\<close> from zero on and \<open>-\<close> below, followed by the magnitude in the format of
  its tier: from 1,000,000 on, the quotient by 1,000,000 with one decimal and \<open>M%\<close>, as
  long as that quotient (a binary64 division) is below \<open>10 ^ 21\<close>, which it is for every
  magnitude up to \<open>10 ^ 27 - 10 ^ 12\<close>; from 10,000 on, the quotient by 1,000 with one
  decimal and \<open>K%\<close>; from 1,000 on, the nearest integer with thousands grouping and \<open>%\<close>;
  from 10 on one decimal, from 1 on two and below 1 four decimals, each with \<open>%\<close>.
\<close>

lemma formatPct_tiers:
  "(1000000 \<le> \<bar>v\<bar> \<and> fdiv (Fin \<bar>v\<bar>) (Fin 1000000) = Fin q \<and> q < 10 ^ 21 \<longrightarrow>
      formatPct (Fin v) = sign_char v # fixed_digits (nat \<lfloor>q * 10 + 1 / 2\<rfloor>) 1 @ js ''M%'')
   \<and> (1000000 \<le> \<bar>v\<bar> \<and> \<bar>v\<bar> \<le> 10 ^ 27 - 10 ^ 12 \<longrightarrow>
        (\<exists>q. fdiv (Fin \<bar>v\<bar>) (Fin 1000000) = Fin q \<and> q < 10 ^ 21))
   \<and> (10000 \<le> \<bar>v\<bar> \<and> \<bar>v\<bar> < 1000000 \<longrightarrow>
        (\<exists>q. fdiv (Fin \<bar>v\<bar>) (Fin 1000) = Fin q
           \<and> formatPct (Fin v) = sign_char v # fixed_digits (nat \<lfloor>q * 10 + 1 / 2\<rfloor>) 1 @ js ''K%''))
   \<and> (1000 \<le> \<bar>v\<bar> \<and> \<bar>v\<bar> < 10000 \<longrightarrow>
        formatPct (Fin v) = sign_char v # group3 (digits (nat \<bar>\<lfloor>v + 1 / 2\<rfloor>\<bar>)) @ js ''%'')
   \<and> (10 \<le> \<bar>v\<bar> \<and> \<bar>v\<bar> < 1000 \<longrightarrow>
        formatPct (Fin v) = sign_char v # fixed_digits (nat \<lfloor>\<bar>v\<bar> * 10 + 1 / 2\<rfloor>) 1 @ js ''%'')
   \<and> (1 \<le> \<bar>v\<bar> \<and> \<bar>v\<bar> < 10 \<longrightarrow>
        formatPct (Fin v) = sign_char v # fixed_digits (nat \<lfloor>\<bar>v\<bar> * 100 + 1 / 2\<rfloor>) 2 @ js ''%'')
   \<and> (\<bar>v\<bar> < 1 \<longrightarrow>
        formatPct (Fin v) = sign_char v # fixed_digits (nat \<lfloor>\<bar>v\<bar> * 10000 + 1 / 2\<rfloor>) 4 @ js ''%'')
   \<and> is_decimal 1 (fixed_digits n 1) \<and> is_decimal 2 (fixed_digits n 2)
   \<and> is_decimal 4 (fixed_digits n 4)
   \<and> formatPct (Fin 50) = js ''+50.0%'' \<and> formatPct (Fin (- 50)) = js ''-50.0%''
   \<and> formatPct (Fin 999900) = js ''+999.9K%'' \<and> formatPct (Fin (1 / 2)) = js ''+0.5000%''"
proof -
  have m: "1000000 \<le> \<bar>v\<bar> \<and> fdiv (Fin \<bar>v\<bar>) (Fin 1000000) = Fin q \<and> q < 10 ^ 21 \<longrightarrow>
      formatPct (Fin v) = sign_char v # fixed_digits (nat \<lfloor>q * 10 + 1 / 2\<rfloor>) 1 @ js ''M%''"
  proof
    assume h: "1000000 \<le> \<bar>v\<bar> \<and> fdiv (Fin \<bar>v\<bar>) (Fin 1000000) = Fin q \<and> q < 10 ^ 21"
    then have "formatPct (Fin v)
        = (pct_prefix (Fin v) @ toFixed (fdiv (Fin v) (Fin 1000000)) 1) @ js ''M%''"
      by (simp add: formatPct_def num_ge_def)
    also have "pct_prefix (Fin v) @ toFixed (fdiv (Fin v) (Fin 1000000)) 1
        = sign_char v # fixed_digits (nat \<lfloor>q * 10 ^ 1 + 1 / 2\<rfloor>) 1"
      using h by (intro tier_quotient) auto
    finally show "formatPct (Fin v)
        = sign_char v # fixed_digits (nat \<lfloor>q * 10 + 1 / 2\<rfloor>) 1 @ js ''M%''" by simp
  qed
  have m': "1000000 \<le> \<bar>v\<bar> \<and> \<bar>v\<bar> \<le> 10 ^ 27 - 10 ^ 12 \<longrightarrow>
        (\<exists>q. fdiv (Fin \<bar>v\<bar>) (Fin 1000000) = Fin q \<and> q < 10 ^ 21)"
  proof
    assume h: "1000000 \<le> \<bar>v\<bar> \<and> \<bar>v\<bar> \<le> 10 ^ 27 - 10 ^ 12"
    then have x: "\<bar>v\<bar> / 1000000 \<le> 10 ^ 21 - 10 ^ 6" by simp
    then have "\<bar>v\<bar> / 1000000 \<le> 2 ^ 1023" by simp
    from quotient_finite [of 1000000 "\<bar>v\<bar>", OF _ _ this] h obtain q
      where q: "fdiv (Fin \<bar>v\<bar>) (Fin 1000000) = Fin q"
        "q \<le> \<bar>v\<bar> / 1000000 + \<bar>v\<bar> / 1000000 / 2 ^ 53" by auto
    have "\<bar>v\<bar> / 1000000 / 2 ^ 53 \<le> (10 ^ 21 - 10 ^ 6) / 2 ^ 53"
      using x by (simp add: divide_right_mono)
    also have "\<dots> < (10 ^ 6 :: real)" by simp
    finally have "q < 10 ^ 21" using q(2) x by linarith
    with q(1) show "\<exists>q. fdiv (Fin \<bar>v\<bar>) (Fin 1000000) = Fin q \<and> q < 10 ^ 21" by blast
  qed
  have k: "10000 \<le> \<bar>v\<bar> \<and> \<bar>v\<bar> < 1000000 \<longrightarrow>
        (\<exists>q. fdiv (Fin \<bar>v\<bar>) (Fin 1000) = Fin q
           \<and> formatPct (Fin v) = sign_char v # fixed_digits (nat \<lfloor>q * 10 + 1 / 2\<rfloor>) 1 @ js ''K%'')"
  proof
    assume h: "10000 \<le> \<bar>v\<bar> \<and> \<bar>v\<bar> < 1000000"
    then have x: "\<bar>v\<bar> / 1000 \<le> 1000" by simp
    then have "\<bar>v\<bar> / 1000 \<le> 2 ^ 1023" by simp
    from quotient_finite [of 1000 "\<bar>v\<bar>", OF _ _ this] h obtain q
      where q: "fdiv (Fin \<bar>v\<bar>) (Fin 1000) = Fin q"
        "q \<le> \<bar>v\<bar> / 1000 + \<bar>v\<bar> / 1000 / 2 ^ 53" by auto
    have "\<bar>v\<bar> / 1000 / 2 ^ 53 \<le> 1000 / 2 ^ 53"
      using x by (simp add: divide_right_mono)
    also have "\<dots> < (1 :: real)" by simp
    finally have "q < 1001" using q(2) x by linarith
    moreover have "(1001 :: real) < 10 ^ 21" by simp
    ultimately have q21: "q < 10 ^ 21" by linarith
    have "formatPct (Fin v)
        = (pct_prefix (Fin v) @ toFixed (fdiv (Fin v) (Fin 1000)) 1) @ js ''K%''"
      using h by (simp add: formatPct_def num_ge_def)
    also have "pct_prefix (Fin v) @ toFixed (fdiv (Fin v) (Fin 1000)) 1
        = sign_char v # fixed_digits (nat \<lfloor>q * 10 ^ 1 + 1 / 2\<rfloor>) 1"
      using h q(1) q21 by (intro tier_quotient) auto
    finally have "formatPct (Fin v)
        = sign_char v # fixed_digits (nat \<lfloor>q * 10 + 1 / 2\<rfloor>) 1 @ js ''K%''" by simp
    with q(1) show "\<exists>q. fdiv (Fin \<bar>v\<bar>) (Fin 1000) = Fin q
           \<and> formatPct (Fin v) = sign_char v # fixed_digits (nat \<lfloor>q * 10 + 1 / 2\<rfloor>) 1 @ js ''K%''"
      by blast
  qed
  have g: "1000 \<le> \<bar>v\<bar> \<and> \<bar>v\<bar> < 10000 \<longrightarrow>
        formatPct (Fin v) = sign_char v # group3 (digits (nat \<bar>\<lfloor>v + 1 / 2\<rfloor>\<bar>)) @ js ''%''"
  proof
    assume h: "1000 \<le> \<bar>v\<bar> \<and> \<bar>v\<bar> < 10000"
    then have "formatPct (Fin v)
        = (pct_prefix (Fin v) @ toLocaleString (Math_round (Fin v)) 3) @ js ''%''"
      by (simp add: formatPct_def num_ge_def)
    also have "pct_prefix (Fin v) @ toLocaleString (Math_round (Fin v)) 3
        = sign_char v # group3 (digits (nat \<bar>\<lfloor>v + 1 / 2\<rfloor>\<bar>))"
      using h by (intro tier_grouped) simp_all
    finally show "formatPct (Fin v)
        = sign_char v # group3 (digits (nat \<bar>\<lfloor>v + 1 / 2\<rfloor>\<bar>)) @ js ''%''" by simp
  qed
  have t1: "10 \<le> \<bar>v\<bar> \<and> \<bar>v\<bar> < 1000 \<longrightarrow>
        formatPct (Fin v) = sign_char v # fixed_digits (nat \<lfloor>\<bar>v\<bar> * 10 + 1 / 2\<rfloor>) 1 @ js ''%''"
  proof
    assume h: "10 \<le> \<bar>v\<bar> \<and> \<bar>v\<bar> < 1000"
    then have "formatPct (Fin v) = (pct_prefix (Fin v) @ toFixed (Fin v) 1) @ js ''%''"
      by (simp add: formatPct_def num_ge_def)
    also have "pct_prefix (Fin v) @ toFixed (Fin v) 1
        = sign_char v # fixed_digits (nat \<lfloor>\<bar>v\<bar> * 10 ^ 1 + 1 / 2\<rfloor>) 1"
      using h by (intro tier_fixed) auto
    finally show "formatPct (Fin v)
        = sign_char v # fixed_digits (nat \<lfloor>\<bar>v\<bar> * 10 + 1 / 2\<rfloor>) 1 @ js ''%''" by simp
  qed
  have t2: "1 \<le> \<bar>v\<bar> \<and> \<bar>v\<bar> < 10 \<longrightarrow>
        formatPct (Fin v) = sign_char v # fixed_digits (nat \<lfloor>\<bar>v\<bar> * 100 + 1 / 2\<rfloor>) 2 @ js ''%''"
  proof
    assume h: "1 \<le> \<bar>v\<bar> \<and> \<bar>v\<bar> < 10"
    then have "formatPct (Fin v) = (pct_prefix (Fin v) @ toFixed (Fin v) 2) @ js ''%''"
      by (simp add: formatPct_def num_ge_def)
    also have "pct_prefix (Fin v) @ toFixed (Fin v) 2
        = sign_char v # fixed_digits (nat \<lfloor>\<bar>v\<bar> * 10 ^ 2 + 1 / 2\<rfloor>) 2"
      using h by (intro tier_fixed) auto
    finally show "formatPct (Fin v)
        = sign_char v # fixed_digits (nat \<lfloor>\<bar>v\<bar> * 100 + 1 / 2\<rfloor>) 2 @ js ''%''" by simp
  qed
  have t4: "\<bar>v\<bar> < 1 \<longrightarrow>
        formatPct (Fin v) = sign_char v # fixed_digits (nat \<lfloor>\<bar>v\<bar> * 10000 + 1 / 2\<rfloor>) 4 @ js ''%''"
  proof
    assume h: "\<bar>v\<bar> < 1"
    then have "formatPct (Fin v) = (pct_prefix (Fin v) @ toFixed (Fin v) 4) @ js ''%''"
      by (simp add: formatPct_def num_ge_def)
    also have "pct_prefix (Fin v) @ toFixed (Fin v) 4
        = sign_char v # fixed_digits (nat \<lfloor>\<bar>v\<bar> * 10 ^ 4 + 1 / 2\<rfloor>) 4"
      using h by (intro tier_fixed) auto
    finally show "formatPct (Fin v)
        = sign_char v # fixed_digits (nat \<lfloor>\<bar>v\<bar> * 10000 + 1 / 2\<rfloor>) 4 @ js ''%''" by simp
  qed
  have d: "is_decimal 1 (fixed_digits n 1)" "is_decimal 2 (fixed_digits n 2)"
    "is_decimal 4 (fixed_digits n 4)"
    by (simp_all add: fixed_digits_decimal)
  have e1: "formatPct (Fin 50) = js ''+50.0%''"
    by (simp add: formatPct_def pct_prefix_def num_ge_def fixed_eval)
  have e2: "formatPct (Fin (- 50)) = js ''-50.0%''"
    by (simp add: formatPct_def pct_prefix_def num_ge_def fixed_eval)
  have e3: "formatPct (Fin 999900) = js ''+999.9K%''"
    by (simp add: formatPct_def pct_prefix_def num_ge_def fl_eval fixed_eval)
  have e4: "formatPct (Fin (1 / 2)) = js ''+0.5000%''"
    by (simp add: formatPct_def pct_prefix_def num_ge_def fixed_eval)
  from m m' k g t1 t2 t4 d e1 e2 e3 e4 show ?thesis by blast
qed


text \<open>
  Claim C3 fails in the tier of the largest magnitudes.  \<open>formatPct\<close> prints the
  quotient by 1,000,000 with \<open>toFixed(1)\<close>, and \<open>toFixed\<close> leaves fixed notation at
  \<open>10 ^ 21\<close>: the percentage \<open>1e27\<close> is displayed as \<open>+1e+21M%\<close>, with no decimal.  Such
  a percentage is within reach of a request: the prices \<open>1e-20\<close> and \<open>1e9\<close> pass the
  validator of either revision, their percentage is \<open>1.0000000000000001e31\<close>, and
  \<open>calculatePnL\<close> returns the display \<open>+1e+25M%\<close>.
\<close>

theorem C3_formatPct_exponent_notation:
  "fl (10 ^ 27) = Fin 1000000000000000013287555072
   \<and> formatPct (Fin 1000000000000000013287555072) = js ''+1e+21M%''
   \<and> \<not> is_decimal 1 (js ''1e+21'')
   \<and> validate \<lparr>ticker = JStr (js ''X''), entry_price = JNum (fl (1 / 10 ^ 20)),
                current_price = JNum (Fin (10 ^ 9)), theme = Undefined, wallet_tag = Undefined,
                timestamp = Undefined\<rparr> = []
   \<and> validate2 \<lparr>ticker = JStr (js ''X''), entry_price = JNum (fl (1 / 10 ^ 20)),
                 current_price = JNum (Fin (10 ^ 9)), theme = Undefined, wallet_tag = Undefined,
                 timestamp = Undefined\<rparr> = []
   \<and> calculatePnL (fl (1 / 10 ^ 20)) (Fin (10 ^ 9))
       = Inr \<lparr>percentageGain = Fin 10000000000000000761796201807872, isProfit = True,
              formattedGain = js ''+1e+25M%''\<rparr>
   \<and> \<not> is_decimal 1 (js ''1e+25'')"
proof -
  have a: "fl (10 ^ 27) = Fin 1000000000000000013287555072" by (simp add: fl_eval)
  have t1: "toString_pos 1000000000000000000000 = js ''1e+21''"
    by (simp add: tostring_eval fl_eval fixed_eval)
  have b: "formatPct (Fin 1000000000000000013287555072) = js ''+1e+21M%''"
    by (simp add: formatPct_def pct_prefix_def num_ge_def fl_eval fixed_eval t1)
  have c: "\<not> is_decimal 1 (js ''1e+21'')" by (simp add: is_decimal_def js_def is_digit_def)
  have m: "fl (1 / 10 ^ 20) = Fin (6646139978924579 / 664613997892457936451903530140172288)"
    by (simp add: fl_eval)
  have mn: "MIN_PRICE = Fin (6646139978924579 / 664613997892457936451903530140172288)"
    by (simp add: MIN_PRICE_def fl_eval)
  have mx: "MAX_PRICE = Fin 1000000000000000"
    by (simp add: MAX_PRICE_def fl_eval)
  have v1: "validate \<lparr>ticker = JStr (js ''X''), entry_price = JNum (fl (1 / 10 ^ 20)),
                current_price = JNum (Fin (10 ^ 9)), theme = Undefined, wallet_tag = Undefined,
                timestamp = Undefined\<rparr> = []"
    unfolding m by (simp add: validate_def check_defs mn mx string_eval)
  have v2: "validate2 \<lparr>ticker = JStr (js ''X''), entry_price = JNum (fl (1 / 10 ^ 20)),
                 current_price = JNum (Fin (10 ^ 9)), theme = Undefined, wallet_tag = Undefined,
                 timestamp = Undefined\<rparr> = []"
    unfolding m by (simp add: validate2_def check2_defs mn mx string_eval)
  have d: "raw_pct (fl (1 / 10 ^ 20)) (Fin (10 ^ 9)) = Fin 10000000000000000761796201807872"
    unfolding m by (simp add: raw_pct_def fl_eval)
  have q: "fdiv (Fin 10000000000000000761796201807872) (Fin 1000000)
             = Fin 10000000000000000905969664"
    by (simp add: fl_eval)
  have t2: "toString_pos 10000000000000000905969664 = js ''1e+25''"
    by (simp add: tostring_eval fl_eval fixed_eval)
  have "formatPct (Fin 10000000000000000761796201807872)
          = pct_prefix (Fin 10000000000000000761796201807872)
            @ toFixed (fdiv (Fin 10000000000000000761796201807872) (Fin 1000000)) 1 @ js ''M%''"
    by (simp add: formatPct_def num_ge_def del: fdiv.simps)
  then have e: "formatPct (Fin 10000000000000000761796201807872) = js ''+1e+25M%''"
    unfolding q by (simp add: pct_prefix_def num_ge_def fixed_eval t2)
  have r: "roundPrecision (Fin 10000000000000000761796201807872)
             = Fin 10000000000000000761796201807872"
    by (simp add: roundPrecision_def num_ge_def)
  have p: "calculatePnL (fl (1 / 10 ^ 20)) (Fin (10 ^ 9))
       = Inr \<lparr>percentageGain = Fin 10000000000000000761796201807872, isProfit = True,
              formattedGain = js ''+1e+25M%''\<rparr>"
    using d unfolding m by (simp add: calculatePnL_def pnl_of_def r e num_ge_def)
  have f: "\<not> is_decimal 1 (js ''1e+25'')" by (simp add: is_decimal_def js_def is_digit_def)
  from a b c v1 v2 p f show ?thesis by blast
qed


section \<open>The numeric field and the display string\<close>

text \<open>
  \<open>roundPrecision\<close> in its two scaled tiers: the product with the scale is rounded to
  binary64, then to an integer, and the quotient by the scale is rounded to binary64.
\<close>

lemma roundPrecision_scaled:
  assumes "\<bar>v\<bar> < 1000" "k = 100 \<or> k = 10000" "\<bar>v * k\<bar> < b" "1 \<le> b" "b / 2 ^ 53 \<le> t"
    and rp: "roundPrecision (Fin v) = fdiv (Math_round (fmul (Fin v) (Fin k))) (Fin k)"
  shows "\<exists>n. roundPrecision (Fin v) = fl (of_int n / k) \<and> \<bar>of_int n - v * k\<bar> \<le> 1 / 2 + t"
proof -
  have k0: "k \<noteq> 0" using assms(2) by auto
  have "\<bar>v * k\<bar> \<le> 1000 * 10000" using assms(1,2) by (auto simp: abs_mult)
  also have "\<dots> \<le> (2 ^ 1023 :: real)" by simp
  finally have "\<bar>v * k\<bar> \<le> 2 ^ 1023" .
  from fl_near [OF this] obtain w
    where w: "fl (v * k) = Fin w"
      "\<bar>w - v * k\<bar> \<le> (if 1 \<le> \<bar>v * k\<bar> then \<bar>v * k\<bar> else 1) / 2 ^ 53" by blast
  have "(if 1 \<le> \<bar>v * k\<bar> then \<bar>v * k\<bar> else 1) \<le> b" using assms(3,4) by simp
  then have "(if 1 \<le> \<bar>v * k\<bar> then \<bar>v * k\<bar> else 1) / 2 ^ 53 \<le> b / 2 ^ 53"
    by (intro divide_right_mono) auto
  with w(2) assms(5) have near: "\<bar>w - v * k\<bar> \<le> t" by linarith
  define n where "n = \<lfloor>w + 1 / 2\<rfloor>"
  have "\<bar>of_int n - w\<bar> \<le> 1 / 2" unfolding n_def by linarith
  with near have "\<bar>of_int n - v * k\<bar> \<le> 1 / 2 + t" by linarith
  moreover have "roundPrecision (Fin v) = fl (of_int n / k)"
    unfolding rp using w(1) k0 by (simp add: n_def)
  ultimately show ?thesis by blast
qed

text \<open>
  Claim C4 fails as stated, in both halves.  The numeric field is not always the raw
  value rounded to two decimals: for the prices \<open>1\<close> and \<open>1.01715\<close> the raw percentage
  is \<open>1.7149999999999999\<close>, which is nearer to \<open>1.71\<close> than to any other multiple of
  \<open>0.01\<close>, but its product with 100 rounds to \<open>171.5\<close> in binary64 and the field is
  \<open>1.72\<close> (the display is \<open>+1.71%\<close>).  And the display does not always follow rule 2:
  for the prices \<open>1e-20\<close> and \<open>1e9\<close> it is \<open>+1e+25M%\<close>.
\<close>

theorem C4_counterexample:
  "raw_pct (Fin 1) (fl (101715 / 100000)) = Fin (482729585058775 / 281474976710656)
   \<and> (1 :: real) \<le> \<bar>482729585058775 / 281474976710656\<bar>
   \<and> \<bar>482729585058775 / 281474976710656 :: real\<bar> < 1000
   \<and> \<bar>171 / 100 - 482729585058775 / 281474976710656 :: real\<bar> < 1 / 200
   \<and> calculatePnL (Fin 1) (fl (101715 / 100000))
       = Inr \<lparr>percentageGain = fl (172 / 100), isProfit = True, formattedGain = js ''+1.71%''\<rparr>
   \<and> fl (172 / 100) \<noteq> fl (171 / 100)
   \<and> calculatePnL (fl (1 / 10 ^ 20)) (Fin (10 ^ 9))
       = Inr \<lparr>percentageGain = Fin 10000000000000000761796201807872, isProfit = True,
              formattedGain = js ''+1e+25M%''\<rparr>
   \<and> \<not> is_decimal 1 (js ''1e+25'')"
proof -
  have l: "fl (101715 / 100000) = Fin (1145209090244975 / 1125899906842624)"
    by (simp add: fl_eval)
  have r: "raw_pct (Fin 1) (Fin (1145209090244975 / 1125899906842624))
             = Fin (482729585058775 / 281474976710656)"
    by (simp add: raw_pct_def fl_eval)
  have h: "fl (172 / 100) = Fin (7746191359077253 / 4503599627370496)"
    by (simp add: fl_eval)
  have h': "fl (171 / 100) = Fin (1925288840700887 / 1125899906842624)"
    by (simp add: fl_eval)
  have p: "roundPrecision (Fin (482729585058775 / 281474976710656))
             = Fin (7746191359077253 / 4503599627370496)"
    by (simp add: roundPrecision_def num_ge_def fl_eval)
  have f: "formatPct (Fin (482729585058775 / 281474976710656)) = js ''+1.71%''"
    by (simp add: formatPct_def pct_prefix_def num_ge_def fixed_eval)
  have 1: "calculatePnL (Fin 1) (fl (101715 / 100000))
       = Inr \<lparr>percentageGain = fl (172 / 100), isProfit = True, formattedGain = js ''+1.71%''\<rparr>"
    unfolding l h by (simp add: calculatePnL_def pnl_of_def r p f num_ge_def)
  have 2: "fl (172 / 100) \<noteq> fl (171 / 100)" unfolding h h' by simp
  have m: "fl (1 / 10 ^ 20) = Fin (6646139978924579 / 664613997892457936451903530140172288)"
    by (simp add: fl_eval)
  have d: "raw_pct (fl (1 / 10 ^ 20)) (Fin (10 ^ 9)) = Fin 10000000000000000761796201807872"
    unfolding m by (simp add: raw_pct_def fl_eval)
  have q: "fdiv (Fin 10000000000000000761796201807872) (Fin 1000000)
             = Fin 10000000000000000905969664"
    by (simp add: fl_eval)
  have t2: "toString_pos 10000000000000000905969664 = js ''1e+25''"
    by (simp add: tostring_eval fl_eval fixed_eval)
  have "formatPct (Fin 10000000000000000761796201807872)
          = pct_prefix (Fin 10000000000000000761796201807872)
            @ toFixed (fdiv (Fin 10000000000000000761796201807872) (Fin 1000000)) 1 @ js ''M%''"
    by (simp add: formatPct_def num_ge_def del: fdiv.simps)
  then have e: "formatPct (Fin 10000000000000000761796201807872) = js ''+1e+25M%''"
    unfolding q by (simp add: pct_prefix_def num_ge_def fixed_eval t2)
  have r': "roundPrecision (Fin 10000000000000000761796201807872)
             = Fin 10000000000000000761796201807872"
    by (simp add: roundPrecision_def num_ge_def)
  have 3: "calculatePnL (fl (1 / 10 ^ 20)) (Fin (10 ^ 9))
       = Inr \<lparr>percentageGain = Fin 10000000000000000761796201807872, isProfit = True,
              formattedGain = js ''+1e+25M%''\<rparr>"
    using d unfolding m by (simp add: calculatePnL_def pnl_of_def r' e num_ge_def)
  have 4: "\<not> is_decimal 1 (js ''1e+25'')" by (simp add: is_decimal_def js_def is_digit_def)
  have 5: "raw_pct (Fin 1) (fl (101715 / 100000)) = Fin (482729585058775 / 281474976710656)"
    unfolding l by (rule r)
  from 1 2 3 4 5 show ?thesis by simp
qed

text \<open>
  Claim C4, amended.  The numeric field and the display string are both computed from
  the same unrounded percentage: \<open>percentageGain\<close> is \<open>roundPrecision\<close> of it and
  \<open>formattedGain\<close> is \<open>formatPct\<close> of it.  \<open>roundPrecision\<close> gives, for a magnitude of
  1000 or more, the nearest integer; for one from 1 up to 1000, the binary64 value of
  \<open>k / 100\<close> for an integer \<open>k\<close> within \<open>1 / 2 + 2 ^ - 36\<close> of the value times 100; and
  for one below 1, the binary64 value of \<open>k / 10000\<close> for an integer \<open>k\<close> within
  \<open>1 / 2 + 2 ^ - 39\<close> of the value times 10000: the nearest multiple of \<open>0.01\<close> or
  \<open>0.0001\<close> unless the value lies within that margin of a midpoint.  \<open>formatPct\<close> follows
  its tiers, the one of the millions as long as the quotient by 1,000,000 is below
  \<open>10 ^ 21\<close>, which holds up to \<open>10 ^ 27 - 10 ^ 12\<close>; beyond that nothing is stated.  The
  two schemes are not chained: for the prices \<open>256\<close> and \<open>281.58984375\<close> the raw
  percentage is \<open>9.99603271484375\<close>, the field is \<open>10\<close> and the display is \<open>+10.00%\<close>,
  where the display of the rounded number would be \<open>+10.0%\<close>.
\<close>

theorem C4_independent_tiers:
  "(0 < e \<and> 0 \<le> c \<longrightarrow>
      (\<exists>p. calculatePnL (Fin e) (Fin c) = Inr p
         \<and> percentageGain p = roundPrecision (raw_pct (Fin e) (Fin c))
         \<and> formattedGain p = formatPct (raw_pct (Fin e) (Fin c))))
   \<and> (1000 \<le> \<bar>v\<bar> \<longrightarrow>
        roundPrecision (Fin v) = Fin (of_int \<lfloor>v + 1 / 2\<rfloor>)
        \<and> \<bar>of_int \<lfloor>v + 1 / 2\<rfloor> - v\<bar> \<le> 1 / 2)
   \<and> (1 \<le> \<bar>v\<bar> \<and> \<bar>v\<bar> < 1000 \<longrightarrow>
        (\<exists>k. roundPrecision (Fin v) = fl (of_int k / 100)
           \<and> \<bar>of_int k - v * 100\<bar> \<le> 1 / 2 + 1 / 2 ^ 36))
   \<and> (\<bar>v\<bar> < 1 \<longrightarrow>
        (\<exists>k. roundPrecision (Fin v) = fl (of_int k / 10000)
           \<and> \<bar>of_int k - v * 10000\<bar> \<le> 1 / 2 + 1 / 2 ^ 39))
   \<and> (1000000 \<le> \<bar>v\<bar> \<and> fdiv (Fin \<bar>v\<bar>) (Fin 1000000) = Fin q \<and> q < 10 ^ 21 \<longrightarrow>
        formatPct (Fin v) = sign_char v # fixed_digits (nat \<lfloor>q * 10 + 1 / 2\<rfloor>) 1 @ js ''M%'')
   \<and> (1000000 \<le> \<bar>v\<bar> \<and> \<bar>v\<bar> \<le> 10 ^ 27 - 10 ^ 12 \<longrightarrow>
        (\<exists>q. fdiv (Fin \<bar>v\<bar>) (Fin 1000000) = Fin q \<and> q < 10 ^ 21))
   \<and> (10000 \<le> \<bar>v\<bar> \<and> \<bar>v\<bar> < 1000000 \<longrightarrow>
        (\<exists>q. fdiv (Fin \<bar>v\<bar>) (Fin 1000) = Fin q
           \<and> formatPct (Fin v) = sign_char v # fixed_digits (nat \<lfloor>q * 10 + 1 / 2\<rfloor>) 1 @ js ''K%''))
   \<and> (1000 \<le> \<bar>v\<bar> \<and> \<bar>v\<bar> < 10000 \<longrightarrow>
        formatPct (Fin v) = sign_char v # group3 (digits (nat \<bar>\<lfloor>v + 1 / 2\<rfloor>\<bar>)) @ js ''%'')
   \<and> (10 \<le> \<bar>v\<bar> \<and> \<bar>v\<bar> < 1000 \<longrightarrow>
        formatPct (Fin v) = sign_char v # fixed_digits (nat \<lfloor>\<bar>v\<bar> * 10 + 1 / 2\<rfloor>) 1 @ js ''%'')
   \<and> (1 \<le> \<bar>v\<bar> \<and> \<bar>v\<bar> < 10 \<longrightarrow>
        formatPct (Fin v) = sign_char v # fixed_digits (nat \<lfloor>\<bar>v\<bar> * 100 + 1 / 2\<rfloor>) 2 @ js ''%'')
   \<and> (\<bar>v\<bar> < 1 \<longrightarrow>
        formatPct (Fin v) = sign_char v # fixed_digits (nat \<lfloor>\<bar>v\<bar> * 10000 + 1 / 2\<rfloor>) 4 @ js ''%'')
   \<and> is_decimal 1 (fixed_digits n 1) \<and> is_decimal 2 (fixed_digits n 2)
   \<and> is_decimal 4 (fixed_digits n 4)
   \<and> raw_pct (Fin 256) (Fin (72087 / 256)) = Fin (163775 / 16384)
   \<and> roundPrecision (Fin (163775 / 16384)) = Fin 10
   \<and> formatPct (Fin (163775 / 16384)) = js ''+10.00%''
   \<and> formatPct (Fin 10) = js ''+10.0%''"
proof -
  have a: "0 < e \<and> 0 \<le> c \<longrightarrow>
      (\<exists>p. calculatePnL (Fin e) (Fin c) = Inr p
         \<and> percentageGain p = roundPrecision (raw_pct (Fin e) (Fin c))
         \<and> formattedGain p = formatPct (raw_pct (Fin e) (Fin c)))"
    by (simp add: calculatePnL_def pnl_of_def)
  have b: "1000 \<le> \<bar>v\<bar> \<longrightarrow>
        roundPrecision (Fin v) = Fin (of_int \<lfloor>v + 1 / 2\<rfloor>)
        \<and> \<bar>of_int \<lfloor>v + 1 / 2\<rfloor> - v\<bar> \<le> 1 / 2"
  proof
    assume "1000 \<le> \<bar>v\<bar>"
    then have "roundPrecision (Fin v) = Fin (of_int \<lfloor>v + 1 / 2\<rfloor>)"
      by (simp add: roundPrecision_def num_ge_def)
    moreover have "\<bar>of_int \<lfloor>v + 1 / 2\<rfloor> - v\<bar> \<le> 1 / 2" by linarith
    ultimately show "roundPrecision (Fin v) = Fin (of_int \<lfloor>v + 1 / 2\<rfloor>)
        \<and> \<bar>of_int \<lfloor>v + 1 / 2\<rfloor> - v\<bar> \<le> 1 / 2" by simp
  qed
  have c: "1 \<le> \<bar>v\<bar> \<and> \<bar>v\<bar> < 1000 \<longrightarrow>
        (\<exists>k. roundPrecision (Fin v) = fl (of_int k / 100)
           \<and> \<bar>of_int k - v * 100\<bar> \<le> 1 / 2 + 1 / 2 ^ 36)"
  proof
    assume h: "1 \<le> \<bar>v\<bar> \<and> \<bar>v\<bar> < 1000"
    have rp: "roundPrecision (Fin v) = fdiv (Math_round (fmul (Fin v) (Fin 100))) (Fin 100)"
      using h by (simp add: roundPrecision_def num_ge_def)
    have "\<bar>v * 100\<bar> < 100000" using h by (simp add: abs_mult)
    from roundPrecision_scaled [OF _ _ this _ _ rp, of "1 / 2 ^ 36"] h
    show "\<exists>k. roundPrecision (Fin v) = fl (of_int k / 100)
           \<and> \<bar>of_int k - v * 100\<bar> \<le> 1 / 2 + 1 / 2 ^ 36" by simp
  qed
  have d: "\<bar>v\<bar> < 1 \<longrightarrow>
        (\<exists>k. roundPrecision (Fin v) = fl (of_int k / 10000)
           \<and> \<bar>of_int k - v * 10000\<bar> \<le> 1 / 2 + 1 / 2 ^ 39)"
  proof
    assume h: "\<bar>v\<bar> < 1"
    have rp: "roundPrecision (Fin v) = fdiv (Math_round (fmul (Fin v) (Fin 10000))) (Fin 10000)"
      using h by (simp add: roundPrecision_def num_ge_def)
    have "\<bar>v * 10000\<bar> < 10000" using h by (simp add: abs_mult)
    from roundPrecision_scaled [OF _ _ this _ _ rp, of "1 / 2 ^ 39"] h
    show "\<exists>k. roundPrecision (Fin v) = fl (of_int k / 10000)
           \<and> \<bar>of_int k - v * 10000\<bar> \<le> 1 / 2 + 1 / 2 ^ 39" by simp
  qed
  have e1: "raw_pct (Fin 256) (Fin (72087 / 256)) = Fin (163775 / 16384)"
    by (simp add: raw_pct_def fl_eval)
  have e2: "roundPrecision (Fin (163775 / 16384)) = Fin 10"
    by (simp add: roundPrecision_def num_ge_def fl_eval)
  have e3: "formatPct (Fin (163775 / 16384)) = js ''+10.00%''"
    by (simp add: formatPct_def pct_prefix_def num_ge_def fixed_eval)
  have e4: "formatPct (Fin 10) = js ''+10.0%''"
    by (simp add: formatPct_def pct_prefix_def num_ge_def fixed_eval)
  note t = formatPct_tiers [of v q n]
  note t1 = t [THEN conjunct1] and r1 = t [THEN conjunct2]
  note t2 = r1 [THEN conjunct1] and r2 = r1 [THEN conjunct2]
  note t3 = r2 [THEN conjunct1] and r3 = r2 [THEN conjunct2]
  note t4 = r3 [THEN conjunct1] and r4 = r3 [THEN conjunct2]
  note t5 = r4 [THEN conjunct1] and r5 = r4 [THEN conjunct2]
  note t6 = r5 [THEN conjunct1] and r6 = r5 [THEN conjunct2]
  note t7 = r6 [THEN conjunct1] and r7 = r6 [THEN conjunct2]
  note t8 = r7 [THEN conjunct1] and r8 = r7 [THEN conjunct2]
  note t9 = r8 [THEN conjunct1] and r9 = r8 [THEN conjunct2]
  note t10 = r9 [THEN conjunct1]
  show ?thesis
    by (intro conjI a b c d t1 t2 t3 t4 t5 t6 t7 t8 t9 t10 e1 e2 e3 e4)
qed

theorem C4_independent_tiers_witness:
  "(0 :: real) < 256 \<and> (0 :: real) \<le> 72087 / 256
   \<and> calculatePnL (Fin 256) (Fin (72087 / 256))
       = Inr \<lparr>percentageGain = Fin 10, isProfit = True, formattedGain = js ''+10.00%''\<rparr>
   \<and> (1000 :: real) \<le> \<bar>- 2001 / 2\<bar> \<and> roundPrecision (Fin (- 2001 / 2)) = Fin (- 1000)
   \<and> (1 :: real) \<le> \<bar>5 / 4\<bar> \<and> \<bar>5 / 4 :: real\<bar> < 1000 \<and> roundPrecision (Fin (5 / 4)) = Fin (5 / 4)
   \<and> \<bar>1 / 8 :: real\<bar> < 1 \<and> roundPrecision (Fin (1 / 8)) = Fin (1 / 8)
   \<and> fdiv (Fin \<bar>2500000\<bar>) (Fin 1000000) = Fin (5 / 2) \<and> formatPct (Fin 2500000) = js ''+2.5M%''
   \<and> fdiv (Fin \<bar>- 25000\<bar>) (Fin 1000) = Fin 25 \<and> formatPct (Fin (- 25000)) = js ''-25.0K%''
   \<and> formatPct (Fin (- 2469 / 2)) = js ''-1,234%''
   \<and> formatPct (Fin (- 401 / 4)) = js ''-100.3%''
   \<and> formatPct (Fin (5 / 4)) = js ''+1.25%''
   \<and> formatPct (Fin (- 1 / 100000)) = js ''-0.0000%''
   \<and> is_decimal 1 (js ''100.3'') \<and> is_decimal 2 (js ''1.25'') \<and> is_decimal 4 (js ''0.0000'')"
proof -
  have sl: "(1 / 2 + 1 / 2 ^ 36 :: real) < 1" "(1 / 2 + 1 / 2 ^ 39 :: real) < 1" by simp_all
  note x = C4_independent_tiers [of 256 "72087 / 256" 1 1 1]
  have r: "raw_pct (Fin 256) (Fin (72087 / 256)) = Fin (163775 / 16384)"
    by (rule x [THEN conjunct2, THEN conjunct2, THEN conjunct2, THEN conjunct2, THEN conjunct2,
        THEN conjunct2, THEN conjunct2, THEN conjunct2, THEN conjunct2, THEN conjunct2,
        THEN conjunct2, THEN conjunct2, THEN conjunct2, THEN conjunct2, THEN conjunct1])
  have r': "roundPrecision (Fin (163775 / 16384)) = Fin 10"
    by (rule x [THEN conjunct2, THEN conjunct2, THEN conjunct2, THEN conjunct2, THEN conjunct2,
        THEN conjunct2, THEN conjunct2, THEN conjunct2, THEN conjunct2, THEN conjunct2,
        THEN conjunct2, THEN conjunct2, THEN conjunct2, THEN conjunct2, THEN conjunct2,
        THEN conjunct1])
  have r'': "formatPct (Fin (163775 / 16384)) = js ''+10.00%''"
    by (rule x [THEN conjunct2, THEN conjunct2, THEN conjunct2, THEN conjunct2, THEN conjunct2,
        THEN conjunct2, THEN conjunct2, THEN conjunct2, THEN conjunct2, THEN conjunct2,
        THEN conjunct2, THEN conjunct2, THEN conjunct2, THEN conjunct2, THEN conjunct2,
        THEN conjunct2, THEN conjunct1])
  have 1: "calculatePnL (Fin 256) (Fin (72087 / 256))
       = Inr \<lparr>percentageGain = Fin 10, isProfit = True, formattedGain = js ''+10.00%''\<rparr>"
  proof -
    from x [THEN conjunct1] obtain p
      where p: "calculatePnL (Fin 256) (Fin (72087 / 256)) = Inr p"
        "percentageGain p = Fin 10" "formattedGain p = js ''+10.00%''"
      unfolding r r' r'' by auto
    have "isProfit p" using p(1) by (auto simp: calculatePnL_def pnl_of_def r num_ge_def)
    with p show ?thesis by (cases p) simp
  qed
  have 2: "roundPrecision (Fin (- 2001 / 2)) = Fin (- 1000)"
    using C4_independent_tiers [of 1 1 "- 2001 / 2" 1 1, THEN conjunct2, THEN conjunct1]
    by simp
  have 3: "roundPrecision (Fin (5 / 4)) = Fin (5 / 4)"
  proof -
    from C4_independent_tiers [of 1 1 "5 / 4" 1 1, THEN conjunct2, THEN conjunct2, THEN conjunct1]
    obtain k where k: "roundPrecision (Fin (5 / 4)) = fl (of_int k / 100)"
      "\<bar>of_int k - 5 / 4 * 100 :: real\<bar> \<le> 1 / 2 + 1 / 2 ^ 36" by auto
    from k(2) sl(1) have "real_of_int k < 126" "124 < real_of_int k" by linarith+
    then have "k < 126" "124 < k" by simp_all
    then have "k = 125" by simp
    with k(1) show ?thesis by (simp add: fl_eval)
  qed
  have 4: "roundPrecision (Fin (1 / 8)) = Fin (1 / 8)"
  proof -
    from C4_independent_tiers [of 1 1 "1 / 8" 1 1,
        THEN conjunct2, THEN conjunct2, THEN conjunct2, THEN conjunct1]
    obtain k where k: "roundPrecision (Fin (1 / 8)) = fl (of_int k / 10000)"
      "\<bar>of_int k - 1 / 8 * 10000 :: real\<bar> \<le> 1 / 2 + 1 / 2 ^ 39" by auto
    from k(2) sl(2) have "real_of_int k < 1251" "1249 < real_of_int k" by linarith+
    then have "k < 1251" "1249 < k" by simp_all
    then have "k = 1250" by simp
    with k(1) show ?thesis by (simp add: fl_eval)
  qed
  have q1: "fdiv (Fin \<bar>2500000\<bar>) (Fin 1000000) = Fin (5 / 2)" by (simp add: fl_eval)
  have q2: "fdiv (Fin \<bar>- 25000\<bar>) (Fin 1000) = Fin 25" by (simp add: fl_eval)
  have 5: "formatPct (Fin 2500000) = js ''+2.5M%''"
    using C4_independent_tiers [of 1 1 2500000 "5 / 2" 1,
        THEN conjunct2, THEN conjunct2, THEN conjunct2, THEN conjunct2, THEN conjunct1] q1
    by (simp add: sign_char_def fixed_eval)
  have 6: "formatPct (Fin (- 25000)) = js ''-25.0K%''"
    using C4_independent_tiers [of 1 1 "- 25000" 1 1,
        THEN conjunct2, THEN conjunct2, THEN conjunct2, THEN conjunct2, THEN conjunct2,
        THEN conjunct2, THEN conjunct1] q2
    by (simp add: sign_char_def fixed_eval)
  have 7: "formatPct (Fin (- 2469 / 2)) = js ''-1,234%''"
    using C4_independent_tiers [of 1 1 "- 2469 / 2" 1 1,
        THEN conjunct2, THEN conjunct2, THEN conjunct2, THEN conjunct2, THEN conjunct2,
        THEN conjunct2, THEN conjunct2, THEN conjunct1]
    by (simp add: sign_char_def fixed_eval group3.simps)
  have 8: "formatPct (Fin (- 401 / 4)) = js ''-100.3%''"
    using C4_independent_tiers [of 1 1 "- 401 / 4" 1 1,
        THEN conjunct2, THEN conjunct2, THEN conjunct2, THEN conjunct2, THEN conjunct2,
        THEN conjunct2, THEN conjunct2, THEN conjunct2, THEN conjunct1]
    by (simp add: sign_char_def fixed_eval)
  have 9: "formatPct (Fin (5 / 4)) = js ''+1.25%''"
    using C4_independent_tiers [of 1 1 "5 / 4" 1 1,
        THEN conjunct2, THEN conjunct2, THEN conjunct2, THEN conjunct2, THEN conjunct2,
        THEN conjunct2, THEN conjunct2, THEN conjunct2, THEN conjunct2, THEN conjunct1]
    by (simp add: sign_char_def fixed_eval)
  have 10: "formatPct (Fin (- 1 / 100000)) = js ''-0.0000%''"
    using C4_independent_tiers [of 1 1 "- 1 / 100000" 1 1,
        THEN conjunct2, THEN conjunct2, THEN conjunct2, THEN conjunct2, THEN conjunct2,
        THEN conjunct2, THEN conjunct2, THEN conjunct2, THEN conjunct2, THEN conjunct2,
        THEN conjunct1]
    by (simp add: sign_char_def fixed_eval)
  note y = C4_independent_tiers [of 1 1 1 1 1003,
        THEN conjunct2, THEN conjunct2, THEN conjunct2, THEN conjunct2, THEN conjunct2,
        THEN conjunct2, THEN conjunct2, THEN conjunct2, THEN conjunct2, THEN conjunct2,
        THEN conjunct2]
  have 11: "is_decimal 1 (js ''100.3'')"
    using y [THEN conjunct1] by (simp add: fixed_eval)
  note z = C4_independent_tiers [of 1 1 1 1 125,
        THEN conjunct2, THEN conjunct2, THEN conjunct2, THEN conjunct2, THEN conjunct2,
        THEN conjunct2, THEN conjunct2, THEN conjunct2, THEN conjunct2, THEN conjunct2,
        THEN conjunct2]
  have 12: "is_decimal 2 (js ''1.25'')"
    using z [THEN conjunct2, THEN conjunct1] by (simp add: fixed_eval)
  note u = C4_independent_tiers [of 1 1 1 1 0,
        THEN conjunct2, THEN conjunct2, THEN conjunct2, THEN conjunct2, THEN conjunct2,
        THEN conjunct2, THEN conjunct2, THEN conjunct2, THEN conjunct2, THEN conjunct2,
        THEN conjunct2]
  have 13: "is_decimal 4 (js ''0.0000'')"
    using u [THEN conjunct2, THEN conjunct2, THEN conjunct1] by (simp add: fixed_eval)
  have h: "(0 :: real) < 256" "(0 :: real) \<le> 72087 / 256" "(1000 :: real) \<le> \<bar>- 2001 / 2\<bar>"
    "(1 :: real) \<le> \<bar>5 / 4\<bar>" "\<bar>5 / 4 :: real\<bar> < 1000" "\<bar>1 / 8 :: real\<bar> < 1"
    by simp_all
  show ?thesis by (intro conjI h 1 2 3 4 q1 q2 5 6 7 8 9 10 11 12 13)
qed


section \<open>The token price formatter\<close>

text \<open>The two literals of \<open>formatTokenPrice\<close> as binary64 values.\<close>

lemma lit_1e5: "fl (1 / 100000) = Fin (5902958103587057 / 590295810358705651712)"
  by (simp add: fl_eval)

lemma lit_1e2: "fl (1 / 100) = Fin (5764607523034235 / 576460752303423488)"
  by (simp add: fl_eval)

lemma takeWhile_zeros:
  assumes "ds \<noteq> []" "\<not> is_zero_char (hd ds)"
  shows "takeWhile is_zero_char (replicate k 0x30 @ ds) = replicate k 0x30"
    and "dropWhile is_zero_char (replicate k 0x30 @ ds) = ds"
proof -
  obtain d r where ds: "ds = d # r" using assms(1) by (cases ds) auto
  with assms(2) have d: "\<not> is_zero_char d" by simp
  show "takeWhile is_zero_char (replicate k 0x30 @ ds) = replicate k 0x30"
    unfolding ds using d by (induction k) (auto simp: is_zero_char_def)
  show "dropWhile is_zero_char (replicate k 0x30 @ ds) = ds"
    unfolding ds using d by (induction k) (auto simp: is_zero_char_def)
qed

lemma nonzero_not_zero: "is_nonzero_digit c \<Longrightarrow> \<not> is_zero_char c"
  unfolding is_nonzero_digit_def is_zero_char_def by unat_arith

lemma match_digits_all:
  assumes "ds \<noteq> []" "is_nonzero_digit (hd ds)" "list_all is_digit ds"
  shows "match_digits zs ds = Some (zs, take 4 ds)"
proof -
  obtain d r where ds: "ds = d # r" using assms(1) by (cases ds) auto
  have "list_all is_digit (take 3 r)"
    using assms(3) ds by (auto simp: list_all_iff dest: in_set_takeD)
  then have "takeWhile is_digit (take 3 r) = take 3 r"
    by (simp add: list_all_iff)
  moreover have "take 4 (d # r) = d # take 3 r" by (simp add: take_Cons')
  ultimately show ?thesis using assms(2) ds by simp
qed

lemma match_fixed:
  assumes "0 < n"
  shows "match_zero_run (0x30 # 0x2E # replicate k 0x30 @ digits n)
           = Some (replicate k 0x30, take 4 (digits n))"
proof -
  have nz: "\<not> is_zero_char (hd (digits n))"
    using digits_hd [OF assms] by (rule nonzero_not_zero)
  show ?thesis
    using takeWhile_zeros [OF digits_nonempty nz]
      match_digits_all [OF digits_nonempty digits_hd [OF assms] digits_all]
    by simp
qed

lemma match_digits_none:
  "list_all (\<lambda>c. \<not> is_nonzero_digit c) r \<Longrightarrow> match_digits zs r = None"
  by (cases r) auto

lemma match_here_none:
  assumes "list_all (\<lambda>c. \<not> is_nonzero_digit c) s"
  shows "match_here s = None"
proof (cases s rule: match_here.cases)
  case (1 a b r)
  have "list_all (\<lambda>c. \<not> is_nonzero_digit c) (dropWhile is_zero_char r)"
    using assms 1 by (auto simp: list_all_iff dest: set_dropWhileD)
  then show ?thesis using 1 by (simp add: match_digits_none)
qed simp_all

lemma match_none:
  "list_all (\<lambda>c. \<not> is_nonzero_digit c) s \<Longrightarrow> match_zero_run s = None"
proof (induction s)
  case (Cons c s)
  then have "match_here (c # s) = None" by (intro match_here_none)
  with Cons show ?case by simp
qed simp

lemma toFixed20:
  assumes "0 < p" "p < 5902958103587057 / 590295810358705651712"
  shows "length (digits (nat \<lfloor>p * 10 ^ 20 + 1 / 2\<rfloor>)) \<le> 20"
    and "toFixed (Fin p) 20
           = 0x30 # 0x2E # replicate (20 - length (digits (nat \<lfloor>p * 10 ^ 20 + 1 / 2\<rfloor>))) 0x30
               @ digits (nat \<lfloor>p * 10 ^ 20 + 1 / 2\<rfloor>)"
proof -
  define n where "n = nat \<lfloor>p * 10 ^ 20 + 1 / 2\<rfloor>"
  have "p * 10 ^ 20 + 1 / 2 < 10 ^ 20" using assms by simp
  then have "\<lfloor>p * 10 ^ 20 + 1 / 2\<rfloor> < 10 ^ 20" by (simp add: floor_less_iff)
  then have "nat \<lfloor>p * 10 ^ 20 + 1 / 2\<rfloor> < nat (10 ^ 20)"
    unfolding zless_nat_conj by simp
  then have "n < 10 ^ 20" unfolding n_def by (simp add: nat_power_eq)
  then show len: "length (digits n) \<le> 20" by (intro digits_length) auto
  have "p < 10 ^ 21" using assms by simp
  then have tf: "toFixed (Fin p) 20 = point_fixed (pad_fixed (digits n) 20) 20"
    using assms(1) by (simp add: fixed_abs_def fixed_digits_def n_def)
  have "replicate (21 - length (digits n)) 0x30
               = (0x30 :: codeunit) # replicate (20 - length (digits n)) 0x30"
    using len by (simp add: Suc_diff_le flip: replicate_Suc)
  then have pad: "pad_fixed (digits n) 20
               = 0x30 # replicate (20 - length (digits n)) 0x30 @ digits n"
    using len by (simp add: pad_fixed_def)
  have pt: "point_fixed (0x30 # replicate (20 - length (digits n)) 0x30 @ digits n) 20
               = 0x30 # 0x2E # replicate (20 - length (digits n)) 0x30 @ digits n"
    using len by (simp add: point_fixed_def js_def)
  show "toFixed (Fin p) 20
           = 0x30 # 0x2E # replicate (20 - length (digits n)) 0x30 @ digits n"
    unfolding tf pad pt ..
qed

lemma digits_zero: "digits 0 = [0x30]"
  by (simp add: digits.simps digit_char_def)

lemma meme_some:
  assumes "0 < p" "p < 5902958103587057 / 590295810358705651712"
    and "0 < nat \<lfloor>p * 10 ^ 20 + 1 / 2\<rfloor>"
  shows "meme_format (Fin p)
           = js ''$0.0{'' @ digits (20 - length (digits (nat \<lfloor>p * 10 ^ 20 + 1 / 2\<rfloor>))) @ js ''}''
               @ take 4 (digits (nat \<lfloor>p * 10 ^ 20 + 1 / 2\<rfloor>))"
  unfolding meme_format_def toFixed20(2) [OF assms(1,2)] match_fixed [OF assms(3)] by simp

lemma meme_none:
  assumes "0 < p" "p < 5902958103587057 / 590295810358705651712"
    and "nat \<lfloor>p * 10 ^ 20 + 1 / 2\<rfloor> = 0"
  shows "meme_format (Fin p) = js ''$'' @ exp_abs p 2"
proof -
  have "list_all (\<lambda>c. \<not> is_nonzero_digit c)
          (0x30 # 0x2E # replicate (20 - length (digits 0)) 0x30 @ digits 0)"
    by (simp add: digits_zero is_nonzero_digit_def list_all_iff)
  then have "match_zero_run (toFixed (Fin p) 20) = None"
    unfolding toFixed20(2) [OF assms(1,2)] assms(3) by (rule match_none)
  moreover have "price_tiers (Fin p) = js ''$'' @ exp_abs p 2"
    using assms(1,2) by (simp add: price_tiers_def num_ge_def lit_1e5 lit_1e2)
  ultimately show ?thesis by (simp add: meme_format_def)
qed


lemma ilog_dn_bounds:
  assumes "2 \<le> b" "0 < x" "x < real b"
  shows "real b powi (ilog_dn b x) \<le> x \<and> x < real b powi (ilog_dn b x + 1)"
  using assms
proof (induction b x rule: ilog_dn.induct)
  case (1 b x)
  have b0: "0 < real b" using 1 by simp
  show ?case
  proof (cases "1 \<le> x")
    case True
    then have "ilog_dn b x = 0" by (subst ilog_dn.simps) simp
    then show ?thesis using True 1 by simp
  next
    case False
    then have c: "\<not> (b \<le> 1 \<or> x \<le> 0 \<or> 1 \<le> x)" using 1 by simp
    define k where "k = ilog_dn b (x * real b)"
    have e: "ilog_dn b x = k - 1"
      using c unfolding k_def by (subst ilog_dn.simps) simp
    have "0 < x * real b" "x * real b < real b" using False 1 b0 by simp_all
    from "1.IH" [OF c "1.prems"(1) this]
    have lo: "real b powi k \<le> x * real b" and hi: "x * real b < real b powi (k + 1)"
      unfolding k_def by auto
    have p1: "real b powi k = real b powi (k - 1) * real b"
      using b0 power_int_add_1 [of "real b" "k - 1"] by simp
    have p2: "real b powi (k + 1) = real b powi k * real b"
      using b0 by (intro power_int_add_1) simp
    have "real b powi (k - 1) \<le> x" using lo b0 unfolding p1 by simp
    moreover have "x < real b powi k" using hi b0 unfolding p2 by simp
    ultimately show ?thesis unfolding e by simp
  qed
qed

lemma ilog_bounds:
  assumes "2 \<le> b" "0 < x"
  shows "real b powi (ilog b x) \<le> x \<and> x < real b powi (ilog b x + 1)"
proof (cases "1 \<le> x")
  case True
  with ilog_up_bounds [OF assms(1) True] show ?thesis by (simp add: ilog_def)
next
  case False
  then have "x < real b" using assms(1) by simp
  with ilog_dn_bounds [OF assms] False show ?thesis by (simp add: ilog_def)
qed

text \<open>Three significant digits and an exponent: the shape of \<open>toExponential(2)\<close>.\<close>

lemma digits_three:
  assumes "100 \<le> n" "n < 1000"
  shows "\<exists>a b c. digits n = [a, b, c] \<and> is_digit a \<and> is_digit b \<and> is_digit c"
proof -
  have d1: "digits n = digits (n div 10) @ [digit_char (n mod 10)]"
    using assms by (subst digits.simps) simp
  have h: "\<not> n div 10 < 10" using assms by arith
  have d2: "digits (n div 10) = digits (n div 10 div 10) @ [digit_char (n div 10 mod 10)]"
    using h by (subst digits.simps) simp
  have h': "n div 10 div 10 < 10" using assms by arith
  have d3: "digits (n div 10 div 10) = [digit_char (n div 10 div 10)]"
    using h' by (subst digits.simps) simp
  note h'
  then show ?thesis unfolding d1 d2 d3 by (simp add: digit_char_digit)
qed

lemma exp_abs_shape:
  assumes "0 < x"
  shows "\<exists>a b c e. exp_abs x 2 = [a, 0x2E, b, c] @ exp_part e
           \<and> is_digit a \<and> is_digit b \<and> is_digit c"
proof -
  define e where "e = ilog 10 x"
  define n where "n = nat \<lfloor>x / ipow 10 (e - 2) + 1 / 2\<rfloor>"
  from ilog_bounds [of 10 x] assms
  have lo: "10 powi e \<le> x" and hi: "x < 10 powi (e + 1)" unfolding e_def by auto
  have u0: "(0 :: real) < 10 powi (e - 2)" by simp
  have u: "ipow 10 (e - 2) = 10 powi (e - 2)" by (simp add: ipow_powi)
  have "(10 :: real) powi e = 10 powi (e - 2) * 100" by (simp add: power_int_diff)
  with lo u0 have y1: "100 \<le> x / 10 powi (e - 2)" by (simp add: field_simps)
  have "(10 :: real) powi (e + 1) = 10 powi (e - 2) * 1000"
    using power_int_add [of "10 :: real" "e - 2" 3] by (simp add: add.commute)
  with hi u0 have y2: "x / 10 powi (e - 2) < 1000" by (simp add: field_simps)
  have "100 \<le> \<lfloor>x / 10 powi (e - 2) + 1 / 2\<rfloor>" using y1 by linarith
  moreover have "\<lfloor>x / 10 powi (e - 2) + 1 / 2\<rfloor> \<le> 1000" using y2 by linarith
  ultimately have n: "100 \<le> n" "n \<le> 1000" unfolding n_def u by linarith+
  have ea: "exp_abs x 2 = exp_norm n 2 e"
    using assms by (simp add: exp_abs_def exp_at_def n_def e_def)
  show ?thesis
  proof (cases "n = 1000")
    case True
    from digits_three [of 100] obtain a b c
      where "digits 100 = [a, b, c]" "is_digit a" "is_digit b" "is_digit c" by auto
    then show ?thesis unfolding ea using True
      by (auto simp: exp_norm_def exp_render_def js_def)
  next
    case False
    with n have "n < 1000" by simp
    from digits_three [OF n(1) this] obtain a b c
      where "digits n = [a, b, c]" "is_digit a" "is_digit b" "is_digit c" by auto
    then show ?thesis unfolding ea using False
      by (auto simp: exp_norm_def exp_render_def js_def)
  qed
qed

lemma frac_part_length: "r < 100 \<Longrightarrow> length (frac_part r 2) \<le> 2"
proof -
  assume "r < 100"
  then have "length (digits r) \<le> 2" by (intro digits_length) auto
  then have "length (replicate (2 - length (digits r)) (0x30 :: codeunit) @ digits r) = 2" by simp
  moreover have "length (strip_zeros s) \<le> length s" for s
    by (simp add: strip_zeros_def length_dropWhile_le order_trans [OF length_dropWhile_le])
  ultimately show ?thesis unfolding frac_part_def by metis
qed


lemmas price_eval = formatTokenPrice_def meme_format_def price_tiers_def num_ge_def lit_1e5 lit_1e2
  is_zero_char_def is_nonzero_digit_def is_digit_def


text \<open>
  A binary64 value that is at least \<open>0.01\<close> is at least the literal \<open>0.01\<close>, the
  binary64 value nearest to it, and likewise for \<open>0.00001\<close>: in the binade of the
  literal the values are the multiples of one unit in the last place.
\<close>

lemma ilog_unique:
  assumes "0 < x" "2 powi e \<le> x" "x < 2 powi (e + 1)"
  shows "ilog 2 x = e"
proof -
  from ilog_bounds [of 2 x] assms(1)
  have lo: "2 powi (ilog 2 x) \<le> x" and hi: "x < 2 powi (ilog 2 x + 1)" by auto
  have "\<not> ilog 2 x < e"
  proof
    assume "ilog 2 x < e"
    then have "(2 :: real) powi (ilog 2 x + 1) \<le> 2 powi e" by (intro power_int_increasing) auto
    with hi assms(2) show False by linarith
  qed
  moreover have "\<not> e < ilog 2 x"
  proof
    assume "e < ilog 2 x"
    then have "(2 :: real) powi (e + 1) \<le> 2 powi (ilog 2 x)" by (intro power_int_increasing) auto
    with lo assms(3) show False by linarith
  qed
  ultimately show ?thesis by simp
qed

lemma double_grid:
  assumes "fl p = Fin p" "2 powi e \<le> p" "p < 2 powi (e + 1)" "- 1022 \<le> e"
  shows "\<exists>k :: int. p = of_int k * 2 powi (e - 52)"
proof -
  have p0: "0 < p" using assms(2) by (rule less_le_trans [rotated]) simp
  have il: "ilog 2 p = e" using p0 assms(2,3) by (rule ilog_unique)
  have mx: "max (ilog 2 p) (- 1022) = e" using il assms(4) by simp
  have "fl p = (if 2 ^ 1024 \<le> real_of_int (rhe (p / 2 powi (e - 52))) * 2 powi (e - 52) then PInf
                else Fin (real_of_int (rhe (p / 2 powi (e - 52))) * 2 powi (e - 52)))"
    unfolding fl_pos_unfold [OF p0] mx ipow_powi by simp
  with assms(1) have "p = real_of_int (rhe (p / 2 powi (e - 52))) * 2 powi (e - 52)"
    by (auto split: if_splits)
  then show ?thesis by blast
qed

lemma double_ge_lit_1e2:
  assumes "fl p = Fin p" "1 / 100 \<le> p"
  shows "5764607523034235 / 576460752303423488 \<le> p"
proof (rule ccontr)
  assume "\<not> 5764607523034235 / 576460752303423488 \<le> p"
  then have hi: "p < 5764607523034235 / 576460752303423488" by simp
  have a: "2 powi (- 7) \<le> p" using assms(2) by (simp add: power_int_minus)
  have b: "p < 2 powi (- 7 + 1)" using hi by (simp add: power_int_minus)
  from double_grid [OF assms(1) a b] obtain k :: int where "p = of_int k * 2 powi (- 7 - 52)"
    by auto
  then have k: "p = of_int k / 576460752303423488" by (simp add: power_int_minus field_simps)
  from assms(2) have "5764607523034234 < real_of_int k" unfolding k by simp
  then have "5764607523034234 < k" by simp
  moreover from hi have "real_of_int k < 5764607523034235" unfolding k by simp
  then have "k < 5764607523034235" by simp
  ultimately show False by simp
qed

lemma double_ge_lit_1e5:
  assumes "fl p = Fin p" "1 / 100000 \<le> p"
  shows "5902958103587057 / 590295810358705651712 \<le> p"
proof (rule ccontr)
  assume "\<not> 5902958103587057 / 590295810358705651712 \<le> p"
  then have hi: "p < 5902958103587057 / 590295810358705651712" by simp
  have a: "2 powi (- 17) \<le> p" using assms(2) by (simp add: power_int_minus)
  have b: "p < 2 powi (- 17 + 1)" using hi by (simp add: power_int_minus)
  from double_grid [OF assms(1) a b] obtain k :: int where "p = of_int k * 2 powi (- 17 - 52)"
    by auto
  then have k: "p = of_int k / 590295810358705651712" by (simp add: power_int_minus field_simps)
  from assms(2) have "5902958103587056 < real_of_int k" unfolding k by simp
  then have "5902958103587056 < k" by simp
  moreover from hi have "real_of_int k < 5902958103587057" unfolding k by simp
  then have "k < 5902958103587057" by simp
  ultimately show False by simp
qed

text \<open>The shortest decimal of a binary64 value reads back as that value.\<close>

lemma pick_reads_back: "pick x u s = Some c \<Longrightarrow> fl c = Fin x"
  by (auto simp: pick_def split: if_splits)

lemma shortest_k_reads_back: "fl x = Fin x \<Longrightarrow> fl (shortest_k x n ks) = Fin x"
  by (induction ks) (auto simp: pick_k_def pick_reads_back split: option.splits)

lemma shortest_reads_back: "fl x = Fin x \<Longrightarrow> fl (shortest x) = Fin x"
  unfolding shortest_def by (rule shortest_k_reads_back)

text \<open>
  Claim C5 fails as stated, on two counts.  In the tier of the millions, for the
  largest prices and for infinity: \<open>toFixed\<close> leaves fixed notation at \<open>10 ^ 21\<close> and
  prints a number that is not finite by name, so the price \<open>1e27\<close> is formatted
  \<open>$1e+21M\<close> and \<open>Infinity\<close> is formatted \<open>$InfinityM\<close>; neither can be the price of a
  request, which \<open>validate\<close> bounds by \<open>1e15\<close>.  And in the compact notation the run of
  zeros is counted in the price as \<open>toFixed(20)\<close> prints it, not in the price: the
  binary64 value \<open>0.000009999999999999999\<close>, the one below the literal \<open>0.00001\<close>, has
  five zeros after the point and is formatted \<open>$0.0{4}1000\<close>.
\<close>

theorem C5_counterexample:
  "fl (10 ^ 27) = Fin 1000000000000000013287555072
   \<and> (1000000 :: real) \<le> 1000000000000000013287555072
   \<and> formatTokenPrice (Fin 1000000000000000013287555072) = js ''$1e+21M''
   \<and> \<not> is_decimal 2 (js ''1e+21'')
   \<and> num_ge PInf (Fin 1000000)
   \<and> formatTokenPrice PInf = js ''$InfinityM''
   \<and> \<not> is_decimal 2 (js ''Infinity'')
   \<and> fl (5902958103587056 / 590295810358705651712)
       = Fin (5902958103587056 / 590295810358705651712)
   \<and> (1 / 1000000 :: real) \<le> 5902958103587056 / 590295810358705651712
   \<and> (5902958103587056 / 590295810358705651712 :: real) < 1 / 100000
   \<and> formatTokenPrice (Fin (5902958103587056 / 590295810358705651712)) = js ''$0.0{4}1000''"
proof -
  have a: "fl (10 ^ 27) = Fin 1000000000000000013287555072" by (simp add: fl_eval)
  have h: "fl (5902958103587056 / 590295810358705651712)
       = Fin (5902958103587056 / 590295810358705651712)"
    by (simp add: fl_eval)
  have i: "(1 / 1000000 :: real) \<le> 5902958103587056 / 590295810358705651712" by simp
  have j: "(5902958103587056 / 590295810358705651712 :: real) < 1 / 100000" by simp
  have k: "formatTokenPrice (Fin (5902958103587056 / 590295810358705651712)) = js ''$0.0{4}1000''"
    by (simp add: price_eval fixed_eval)
  have t1: "toString_pos 1000000000000000000000 = js ''1e+21''"
    by (simp add: tostring_eval fl_eval fixed_eval)
  have q: "fdiv (Fin 1000000000000000013287555072) (Fin 1000000) = Fin 1000000000000000000000"
    by (simp add: fl_eval)
  have "formatTokenPrice (Fin 1000000000000000013287555072)
          = js ''$'' @ toFixed (fdiv (Fin 1000000000000000013287555072) (Fin 1000000)) 2 @ js ''M''"
    by (simp add: price_eval del: fdiv.simps)
  then have b: "formatTokenPrice (Fin 1000000000000000013287555072) = js ''$1e+21M''"
    unfolding q by (simp add: fixed_abs_def t1 js_def)
  have c: "\<not> is_decimal 2 (js ''1e+21'')" by (simp add: is_decimal_def js_def is_digit_def)
  have d: "formatTokenPrice PInf = js ''$InfinityM''"
    by (simp add: price_eval js_def)
  have e: "\<not> is_decimal 2 (js ''Infinity'')" by (simp add: is_decimal_def js_def is_digit_def)
  have f: "num_ge PInf (Fin 1000000)" by (simp add: num_ge_def)
  have g: "(1000000 :: real) \<le> 1000000000000000013287555072" by simp
  show ?thesis by (intro conjI a g b c f d e h i j k)
qed

text \<open>
  Claim C5, amended.  For every finite price \<open>p\<close>, \<open>formatTokenPrice\<close> gives: \<open>$0\<close> when
  \<open>p <= 0\<close>; for \<open>0 < p < 0.00001\<close>, with \<open>N\<close> the price in units of \<open>10 ^ - 20\<close> rounded
  to an integer as \<open>toFixed(20)\<close> rounds it, the compact notation \<open>$0.0{n}dddd\<close> when \<open>N\<close>
  is positive, where \<open>n\<close> is the number of zeros between the point and the first digit
  of \<open>N\<close> in \<open>toFixed(20)\<close> and \<open>dddd\<close> are the first four digits of \<open>N\<close> (fewer if \<open>N\<close> has
  fewer), and \<open>toExponential(2)\<close>, one digit, a point, two digits and an exponent, when
  \<open>N\<close> is zero; from 1,000,000 on, the quotient by 1,000,000 with two decimals and \<open>M\<close>,
  as long as the quotient is below \<open>10 ^ 21\<close>, which it is up to \<open>10 ^ 27 - 10 ^ 12\<close>; from
  1,000 on, the shortest decimal of the price (which reads back as the price) rounded
  to two decimals, the integer part in groups of three and at most two fraction digits,
  none when they are zero; from 1 on two decimals; from \<open>0.01\<close> on four and from
  \<open>0.00001\<close> on six decimals, for a price that is a binary64 value.  The five examples
  of the claim hold.
\<close>

theorem C5_formatTokenPrice_tiers:
  "(p \<le> 0 \<longrightarrow> formatTokenPrice (Fin p) = js ''$0'')
   \<and> (0 < p \<and> p < 1 / 100000 \<and> 0 < nat \<lfloor>p * 10 ^ 20 + 1 / 2\<rfloor> \<longrightarrow>
        toFixed (Fin p) 20
          = js ''0.'' @ replicate (20 - length (digits (nat \<lfloor>p * 10 ^ 20 + 1 / 2\<rfloor>))) 0x30
              @ digits (nat \<lfloor>p * 10 ^ 20 + 1 / 2\<rfloor>)
        \<and> is_nonzero_digit (hd (digits (nat \<lfloor>p * 10 ^ 20 + 1 / 2\<rfloor>)))
        \<and> formatTokenPrice (Fin p)
          = js ''$0.0{'' @ digits (20 - length (digits (nat \<lfloor>p * 10 ^ 20 + 1 / 2\<rfloor>))) @ js ''}''
              @ take 4 (digits (nat \<lfloor>p * 10 ^ 20 + 1 / 2\<rfloor>)))
   \<and> (0 < p \<and> p < 1 / 100000 \<and> nat \<lfloor>p * 10 ^ 20 + 1 / 2\<rfloor> = 0 \<longrightarrow>
        formatTokenPrice (Fin p) = js ''$'' @ toExponential (Fin p) 2
        \<and> (\<exists>a b c e. toExponential (Fin p) 2 = [a, 0x2E, b, c] @ exp_part e
               \<and> is_digit a \<and> is_digit b \<and> is_digit c))
   \<and> (1000000 \<le> p \<and> p \<le> 10 ^ 27 - 10 ^ 12 \<longrightarrow>
        (\<exists>q. fdiv (Fin p) (Fin 1000000) = Fin q
           \<and> formatTokenPrice (Fin p) = js ''$'' @ fixed_digits (nat \<lfloor>q * 100 + 1 / 2\<rfloor>) 2 @ js ''M''))
   \<and> (1000 \<le> p \<and> p < 1000000 \<longrightarrow>
        formatTokenPrice (Fin p)
          = js ''$'' @ group3 (digits (nat \<lfloor>shortest p * 100 + 1 / 2\<rfloor> div 100))
              @ (if nat \<lfloor>shortest p * 100 + 1 / 2\<rfloor> mod 100 = 0 then []
                 else js ''.'' @ frac_part (nat \<lfloor>shortest p * 100 + 1 / 2\<rfloor> mod 100) 2)
        \<and> length (frac_part (nat \<lfloor>shortest p * 100 + 1 / 2\<rfloor> mod 100) 2) \<le> 2)
   \<and> (fl p = Fin p \<longrightarrow> fl (shortest p) = Fin p)
   \<and> (1 \<le> p \<and> p < 1000 \<longrightarrow>
        formatTokenPrice (Fin p) = js ''$'' @ fixed_digits (nat \<lfloor>p * 100 + 1 / 2\<rfloor>) 2)
   \<and> (fl p = Fin p \<and> 1 / 100 \<le> p \<and> p < 1 \<longrightarrow>
        formatTokenPrice (Fin p) = js ''$'' @ fixed_digits (nat \<lfloor>p * 10000 + 1 / 2\<rfloor>) 4)
   \<and> (fl p = Fin p \<and> 1 / 100000 \<le> p \<and> p < 1 / 100 \<longrightarrow>
        formatTokenPrice (Fin p) = js ''$'' @ fixed_digits (nat \<lfloor>p * 1000000 + 1 / 2\<rfloor>) 6)
   \<and> is_decimal 2 (fixed_digits n 2) \<and> is_decimal 4 (fixed_digits n 4)
   \<and> is_decimal 6 (fixed_digits n 6)
   \<and> formatTokenPrice (Fin 0) = js ''$0'' \<and> formatTokenPrice (Fin (- 5)) = js ''$0''
   \<and> formatTokenPrice (Fin 100) = js ''$100.00''
   \<and> formatTokenPrice (fl (24 / 10 ^ 7)) = js ''$0.0{5}2400''
   \<and> formatTokenPrice (Fin 1000000) = js ''$1.00M''"
proof -
  let ?N = "nat \<lfloor>p * 10 ^ 20 + 1 / 2\<rfloor>"
  have z: "p \<le> 0 \<longrightarrow> formatTokenPrice (Fin p) = js ''$0''"
    by (simp add: formatTokenPrice_def)
  have c1: "0 < p \<and> p < 1 / 100000 \<and> 0 < ?N \<longrightarrow>
        toFixed (Fin p) 20 = js ''0.'' @ replicate (20 - length (digits ?N)) 0x30 @ digits ?N
        \<and> is_nonzero_digit (hd (digits ?N))
        \<and> formatTokenPrice (Fin p)
          = js ''$0.0{'' @ digits (20 - length (digits ?N)) @ js ''}'' @ take 4 (digits ?N)"
  proof
    assume h: "0 < p \<and> p < 1 / 100000 \<and> 0 < ?N"
    then have p: "0 < p" "p < 5902958103587057 / 590295810358705651712" "0 < ?N"
      by simp_all
    have "formatTokenPrice (Fin p) = meme_format (Fin p)"
      using p by (simp add: formatTokenPrice_def lit_1e5)
    with meme_some [OF p] toFixed20(2) [OF p(1,2)] digits_hd [OF p(3)]
    show "toFixed (Fin p) 20 = js ''0.'' @ replicate (20 - length (digits ?N)) 0x30 @ digits ?N
        \<and> is_nonzero_digit (hd (digits ?N))
        \<and> formatTokenPrice (Fin p)
          = js ''$0.0{'' @ digits (20 - length (digits ?N)) @ js ''}'' @ take 4 (digits ?N)"
      by (simp add: js_def)
  qed
  have c2: "0 < p \<and> p < 1 / 100000 \<and> ?N = 0 \<longrightarrow>
        formatTokenPrice (Fin p) = js ''$'' @ toExponential (Fin p) 2
        \<and> (\<exists>a b c e. toExponential (Fin p) 2 = [a, 0x2E, b, c] @ exp_part e
               \<and> is_digit a \<and> is_digit b \<and> is_digit c)"
  proof
    assume h: "0 < p \<and> p < 1 / 100000 \<and> ?N = 0"
    then have p: "0 < p" "p < 5902958103587057 / 590295810358705651712" "?N = 0"
      by simp_all
    have "formatTokenPrice (Fin p) = meme_format (Fin p)"
      using p by (simp add: formatTokenPrice_def lit_1e5)
    moreover have "toExponential (Fin p) 2 = exp_abs p 2" using p(1) by simp
    ultimately show "formatTokenPrice (Fin p) = js ''$'' @ toExponential (Fin p) 2
        \<and> (\<exists>a b c e. toExponential (Fin p) 2 = [a, 0x2E, b, c] @ exp_part e
               \<and> is_digit a \<and> is_digit b \<and> is_digit c)"
      using meme_none [OF p] exp_abs_shape [OF p(1)] by simp
  qed
  have m: "1000000 \<le> p \<and> p \<le> 10 ^ 27 - 10 ^ 12 \<longrightarrow>
        (\<exists>q. fdiv (Fin p) (Fin 1000000) = Fin q
           \<and> formatTokenPrice (Fin p) = js ''$'' @ fixed_digits (nat \<lfloor>q * 100 + 1 / 2\<rfloor>) 2 @ js ''M'')"
  proof
    assume h: "1000000 \<le> p \<and> p \<le> 10 ^ 27 - 10 ^ 12"
    then have x: "p / 1000000 \<le> 10 ^ 21 - 10 ^ 6" by simp
    then have "p / 1000000 \<le> 2 ^ 1023" by simp
    from quotient_finite [of 1000000 p, OF _ _ this] h obtain q
      where q: "fdiv (Fin p) (Fin 1000000) = Fin q"
        "q \<le> p / 1000000 + p / 1000000 / 2 ^ 53" by auto
    have "p / 1000000 / 2 ^ 53 \<le> (10 ^ 21 - 10 ^ 6) / 2 ^ 53"
      using x by (simp add: divide_right_mono)
    also have "\<dots> < (10 ^ 6 :: real)" by simp
    finally have q21: "q < 10 ^ 21" using q(2) x by linarith
    have "1 \<le> p / 1000000" using h by simp
    moreover have "fl (p / 1000000) = Fin q" using q(1) by simp
    ultimately have q1: "1 \<le> q" using fl_ge_one_Fin by blast
    have "formatTokenPrice (Fin p)
            = js ''$'' @ toFixed (fdiv (Fin p) (Fin 1000000)) 2 @ js ''M''"
      using h by (simp add: price_eval del: fdiv.simps)
    then have "formatTokenPrice (Fin p)
            = js ''$'' @ fixed_digits (nat \<lfloor>q * 100 + 1 / 2\<rfloor>) 2 @ js ''M''"
      unfolding q(1) using q1 q21 by (simp add: fixed_abs_small)
    with q(1) show "\<exists>q. fdiv (Fin p) (Fin 1000000) = Fin q
           \<and> formatTokenPrice (Fin p) = js ''$'' @ fixed_digits (nat \<lfloor>q * 100 + 1 / 2\<rfloor>) 2 @ js ''M''"
      by blast
  qed
  have g: "1000 \<le> p \<and> p < 1000000 \<longrightarrow>
        formatTokenPrice (Fin p)
          = js ''$'' @ group3 (digits (nat \<lfloor>shortest p * 100 + 1 / 2\<rfloor> div 100))
              @ (if nat \<lfloor>shortest p * 100 + 1 / 2\<rfloor> mod 100 = 0 then []
                 else js ''.'' @ frac_part (nat \<lfloor>shortest p * 100 + 1 / 2\<rfloor> mod 100) 2)
        \<and> length (frac_part (nat \<lfloor>shortest p * 100 + 1 / 2\<rfloor> mod 100) 2) \<le> 2"
    by (simp add: price_eval locale_abs_def locale_digits_def frac_part_length)
  have gb: "fl p = Fin p \<longrightarrow> fl (shortest p) = Fin p"
    by (simp add: shortest_reads_back)
  have t2: "1 \<le> p \<and> p < 1000 \<longrightarrow>
        formatTokenPrice (Fin p) = js ''$'' @ fixed_digits (nat \<lfloor>p * 100 + 1 / 2\<rfloor>) 2"
    by (simp add: price_eval fixed_abs_small)
  have t4: "fl p = Fin p \<and> 1 / 100 \<le> p \<and> p < 1 \<longrightarrow>
        formatTokenPrice (Fin p) = js ''$'' @ fixed_digits (nat \<lfloor>p * 10000 + 1 / 2\<rfloor>) 4"
  proof
    assume h: "fl p = Fin p \<and> 1 / 100 \<le> p \<and> p < 1"
    then have "5764607523034235 / 576460752303423488 \<le> p" using double_ge_lit_1e2 by blast
    with h show "formatTokenPrice (Fin p) = js ''$'' @ fixed_digits (nat \<lfloor>p * 10000 + 1 / 2\<rfloor>) 4"
      by (simp add: price_eval fixed_abs_small)
  qed
  have t6: "fl p = Fin p \<and> 1 / 100000 \<le> p \<and> p < 1 / 100 \<longrightarrow>
        formatTokenPrice (Fin p) = js ''$'' @ fixed_digits (nat \<lfloor>p * 1000000 + 1 / 2\<rfloor>) 6"
  proof
    assume h: "fl p = Fin p \<and> 1 / 100000 \<le> p \<and> p < 1 / 100"
    then have "5902958103587057 / 590295810358705651712 \<le> p" using double_ge_lit_1e5 by blast
    with h show "formatTokenPrice (Fin p) = js ''$'' @ fixed_digits (nat \<lfloor>p * 1000000 + 1 / 2\<rfloor>) 6"
      by (simp add: price_eval fixed_abs_small)
  qed
  have d: "is_decimal 2 (fixed_digits n 2)" "is_decimal 4 (fixed_digits n 4)"
    "is_decimal 6 (fixed_digits n 6)"
    by (simp_all add: fixed_digits_decimal)
  have e1: "formatTokenPrice (Fin 0) = js ''$0''" "formatTokenPrice (Fin (- 5)) = js ''$0''"
    by (simp_all add: formatTokenPrice_def)
  have e2: "formatTokenPrice (Fin 100) = js ''$100.00''"
    by (simp add: price_eval fixed_eval)
  have l: "fl (24 / 10 ^ 7) = Fin (2833419889721787 / 1180591620717411303424)"
    by (simp add: fl_eval)
  have e3: "formatTokenPrice (fl (24 / 10 ^ 7)) = js ''$0.0{5}2400''"
    unfolding l by (simp add: price_eval fixed_eval)
  have e4: "formatTokenPrice (Fin 1000000) = js ''$1.00M''"
    by (simp add: price_eval fl_eval fixed_eval)
  show ?thesis by (intro conjI z c1 c2 m g gb t2 t4 t6 d e1 e2 e3 e4)
qed

theorem C5_formatTokenPrice_tiers_witness:
  "formatTokenPrice (Fin (- 5)) = js ''$0''
   \<and> toFixed (Fin (1 / 2 ^ 20)) 20 = js ''0.00000095367431640625''
   \<and> formatTokenPrice (Fin (1 / 2 ^ 20)) = js ''$0.0{6}9536''
   \<and> formatTokenPrice (Fin (1 / 2 ^ 70)) = js ''$8.47e-22''
   \<and> fdiv (Fin 2500000) (Fin 1000000) = Fin (5 / 2)
   \<and> formatTokenPrice (Fin 2500000) = js ''$2.50M''
   \<and> shortest (2469 / 2) = 2469 / 2
   \<and> formatTokenPrice (Fin (2469 / 2)) = js ''$1,234.5''
   \<and> fl (1000005 / 1000) = Fin (8796137002673111 / 8796093022208)
   \<and> shortest (8796137002673111 / 8796093022208) = 200001 / 200
   \<and> formatTokenPrice (Fin (8796137002673111 / 8796093022208)) = js ''$1,000.01''
   \<and> formatTokenPrice (Fin (5 / 4)) = js ''$1.25''
   \<and> fl (1 / 2) = Fin (1 / 2) \<and> formatTokenPrice (Fin (1 / 2)) = js ''$0.5000''
   \<and> fl (1 / 1024) = Fin (1 / 1024) \<and> formatTokenPrice (Fin (1 / 1024)) = js ''$0.000977''
   \<and> is_decimal 2 (js ''1.25'') \<and> is_decimal 4 (js ''0.5000'') \<and> is_decimal 6 (js ''0.000977'')"
proof -
  have 1: "formatTokenPrice (Fin (- 5)) = js ''$0''"
    using C5_formatTokenPrice_tiers [of "- 5" 0, THEN conjunct1] by simp
  have 23: "toFixed (Fin (1 / 2 ^ 20)) 20 = js ''0.00000095367431640625''
            \<and> formatTokenPrice (Fin (1 / 2 ^ 20)) = js ''$0.0{6}9536''"
  proof -
    let ?p = "1 / 2 ^ 20 :: real"
    let ?N = "nat \<lfloor>?p * 10 ^ 20 + 1 / 2\<rfloor>"
    have n: "?N = 95367431640625" by simp
    have h: "0 < ?p \<and> ?p < 1 / 100000 \<and> 0 < ?N"
      unfolding n by simp
    from C5_formatTokenPrice_tiers [of ?p 0, THEN conjunct2, THEN conjunct1, rule_format, OF h]
    have "toFixed (Fin ?p) 20 = js ''0.'' @ replicate (20 - length (digits ?N)) 0x30 @ digits ?N"
      and "formatTokenPrice (Fin ?p)
          = js ''$0.0{'' @ digits (20 - length (digits ?N)) @ js ''}'' @ take 4 (digits ?N)"
      by blast+
    then show ?thesis unfolding n by (simp add: fixed_eval)
  qed
  have 4: "formatTokenPrice (Fin (1 / 2 ^ 70)) = js ''$8.47e-22''"
  proof -
    let ?p = "1 / 2 ^ 70 :: real"
    have x: "toExponential (Fin ?p) 2 = js ''8.47e-22''"
      by (simp add: exp_abs_def exp_at_def exp_norm_def exp_render_def exp_part_def ilog_def
          ipow_def fixed_eval)
    have h: "0 < ?p \<and> ?p < 1 / 100000 \<and> nat \<lfloor>?p * 10 ^ 20 + 1 / 2\<rfloor> = 0"
      by simp
    from C5_formatTokenPrice_tiers [of ?p 0, THEN conjunct2, THEN conjunct2, THEN conjunct1,
        rule_format, OF h]
    have "formatTokenPrice (Fin ?p) = js ''$'' @ toExponential (Fin ?p) 2" by blast
    then show ?thesis unfolding x by (simp add: js_def)
  qed
  have q: "fdiv (Fin 2500000) (Fin 1000000) = Fin (5 / 2)" by (simp add: fl_eval)
  have 5: "formatTokenPrice (Fin 2500000) = js ''$2.50M''"
  proof -
    have h: "(1000000 :: real) \<le> 2500000 \<and> (2500000 :: real) \<le> 10 ^ 27 - 10 ^ 12" by simp
    from C5_formatTokenPrice_tiers [of 2500000 0, THEN conjunct2, THEN conjunct2,
        THEN conjunct2, THEN conjunct1, rule_format, OF h]
    obtain q' where a: "fdiv (Fin 2500000) (Fin 1000000) = Fin q'"
      and b: "formatTokenPrice (Fin 2500000)
           = js ''$'' @ fixed_digits (nat \<lfloor>q' * 100 + 1 / 2\<rfloor>) 2 @ js ''M''"
      by blast
    from a have "q' = 5 / 2" unfolding q by simp
    with b show ?thesis by (simp add: fixed_eval)
  qed
  have s6: "shortest (2469 / 2) = 2469 / 2"
    by (simp add: shortest_def pick_k_def pick_def fl_eval)
  have 6: "formatTokenPrice (Fin (2469 / 2)) = js ''$1,234.5''"
  proof -
    let ?p = "2469 / 2 :: real"
    have n: "nat \<lfloor>?p * 100 + 1 / 2\<rfloor> = 123450" by simp
    have h: "1000 \<le> ?p \<and> ?p < 1000000" by simp
    from C5_formatTokenPrice_tiers [of ?p 0, THEN conjunct2, THEN conjunct2, THEN conjunct2,
        THEN conjunct2, THEN conjunct1, rule_format, OF h]
    have "formatTokenPrice (Fin ?p)
          = js ''$'' @ group3 (digits (nat \<lfloor>shortest ?p * 100 + 1 / 2\<rfloor> div 100))
              @ (if nat \<lfloor>shortest ?p * 100 + 1 / 2\<rfloor> mod 100 = 0 then []
                 else js ''.'' @ frac_part (nat \<lfloor>shortest ?p * 100 + 1 / 2\<rfloor> mod 100) 2)"
      by blast
    then show ?thesis unfolding s6 n
      by (simp add: fixed_eval group3.simps frac_part_def strip_zeros_def)
  qed
  have l7: "fl (1000005 / 1000) = Fin (8796137002673111 / 8796093022208)"
    by (simp add: fl_eval)
  have s7: "shortest (8796137002673111 / 8796093022208) = 200001 / 200"
    by (simp add: shortest_def pick_k_def pick_def fl_eval)
  have 7: "formatTokenPrice (Fin (8796137002673111 / 8796093022208)) = js ''$1,000.01''"
  proof -
    let ?p = "8796137002673111 / 8796093022208 :: real"
    have n: "nat \<lfloor>200001 / 200 * 100 + 1 / 2 :: real\<rfloor> = 100001" by simp
    have h: "1000 \<le> ?p \<and> ?p < 1000000" by simp
    from C5_formatTokenPrice_tiers [of ?p 0, THEN conjunct2, THEN conjunct2, THEN conjunct2,
        THEN conjunct2, THEN conjunct1, rule_format, OF h]
    have "formatTokenPrice (Fin ?p)
          = js ''$'' @ group3 (digits (nat \<lfloor>shortest ?p * 100 + 1 / 2\<rfloor> div 100))
              @ (if nat \<lfloor>shortest ?p * 100 + 1 / 2\<rfloor> mod 100 = 0 then []
                 else js ''.'' @ frac_part (nat \<lfloor>shortest ?p * 100 + 1 / 2\<rfloor> mod 100) 2)"
      by blast
    then show ?thesis unfolding s7 n
      by (simp add: fixed_eval group3.simps frac_part_def strip_zeros_def)
  qed
  have 8: "formatTokenPrice (Fin (5 / 4)) = js ''$1.25''"
  proof -
    let ?p = "5 / 4 :: real"
    have h: "1 \<le> ?p \<and> ?p < 1000" by simp
    from C5_formatTokenPrice_tiers [of ?p 0, THEN conjunct2, THEN conjunct2, THEN conjunct2,
        THEN conjunct2, THEN conjunct2, THEN conjunct2, THEN conjunct1, rule_format, OF h]
    show ?thesis by (simp add: fixed_eval)
  qed
  have l9: "fl (1 / 2) = Fin (1 / 2)" by (simp add: fl_eval)
  have 9: "formatTokenPrice (Fin (1 / 2)) = js ''$0.5000''"
  proof -
    let ?p = "1 / 2 :: real"
    have h: "fl ?p = Fin ?p \<and> 1 / 100 \<le> ?p \<and> ?p < 1" using l9 by simp
    from C5_formatTokenPrice_tiers [of ?p 0, THEN conjunct2, THEN conjunct2, THEN conjunct2,
        THEN conjunct2, THEN conjunct2, THEN conjunct2, THEN conjunct2, THEN conjunct1,
        rule_format, OF h]
    show ?thesis by (simp add: fixed_eval)
  qed
  have l10: "fl (1 / 1024) = Fin (1 / 1024)" by (simp add: fl_eval)
  have 10: "formatTokenPrice (Fin (1 / 1024)) = js ''$0.000977''"
  proof -
    let ?p = "1 / 1024 :: real"
    have h: "fl ?p = Fin ?p \<and> 1 / 100000 \<le> ?p \<and> ?p < 1 / 100" using l10 by simp
    from C5_formatTokenPrice_tiers [of ?p 0, THEN conjunct2, THEN conjunct2, THEN conjunct2,
        THEN conjunct2, THEN conjunct2, THEN conjunct2, THEN conjunct2, THEN conjunct2,
        THEN conjunct1, rule_format, OF h]
    show ?thesis by (simp add: fixed_eval)
  qed
  have 11: "is_decimal 2 (js ''1.25'')"
    using C5_formatTokenPrice_tiers [of 0 125, THEN conjunct2, THEN conjunct2, THEN conjunct2,
        THEN conjunct2, THEN conjunct2, THEN conjunct2, THEN conjunct2, THEN conjunct2,
        THEN conjunct2, THEN conjunct1] by (simp add: fixed_eval)
  have 12: "is_decimal 4 (js ''0.5000'')"
    using C5_formatTokenPrice_tiers [of 0 5000, THEN conjunct2, THEN conjunct2, THEN conjunct2,
        THEN conjunct2, THEN conjunct2, THEN conjunct2, THEN conjunct2, THEN conjunct2,
        THEN conjunct2, THEN conjunct2, THEN conjunct1] by (simp add: fixed_eval)
  have 13: "is_decimal 6 (js ''0.000977'')"
    using C5_formatTokenPrice_tiers [of 0 977, THEN conjunct2, THEN conjunct2, THEN conjunct2,
        THEN conjunct2, THEN conjunct2, THEN conjunct2, THEN conjunct2, THEN conjunct2,
        THEN conjunct2, THEN conjunct2, THEN conjunct2,
        THEN conjunct1] by (simp add: fixed_eval)
  show ?thesis
    by (intro conjI 1 23 [THEN conjunct1] 23 [THEN conjunct2] 4 q 5 s6 6 l7 s7 7 8 l9 9 l10 10
        11 12 13)
qed

end
